(* ===== verification/Prelude.thy ===== *)
theory Prelude
  imports Main "HOL-Library.Char_ord" "HOL-Library.List_Lexorder" "HOL-Library.Multiset"
begin

text \<open>
  Shared vocabulary of the development: the JavaScript operators the sources lean on
  everywhere (\<open>Array.prototype.join\<close>, the nullish-coalescing operator \<open>??\<close>), the
  fact collection used to evaluate concrete calls of the model, and the generic lemmas
  on lists, separators and sorting that the component theories share.
  Strings are \<^typ>\<open>string\<close>; their order is the lexicographic order on characters
  (\<open>Char_ord\<close>, \<open>List_Lexorder\<close>), which is JavaScript's default
  \<open>Array.prototype.sort\<close> order on ASCII strings.
\<close>

named_theorems model_defs "definitions unfolded when a concrete call of the model is evaluated"

subsection \<open>JavaScript operators\<close>

text \<open>\<open>xs.join(sep)\<close> on an array of strings.\<close>

fun js_join :: "string \<Rightarrow> string list \<Rightarrow> string" where
  "js_join sep [] = []"
| "js_join sep [x] = x"
| "js_join sep (x # y # zs) = x @ sep @ js_join sep (y # zs)"

text \<open>\<open>a ?? d\<close>: the left operand unless it is \<open>undefined\<close> (or \<open>null\<close>).\<close>

fun nullish_or :: "'a option \<Rightarrow> 'a \<Rightarrow> 'a" where
  "nullish_or None d = d"
| "nullish_or (Some x) d = x"

subsection \<open>Lemmas on join\<close>

lemma js_join_Cons [simp]: "xs \<noteq> [] \<Longrightarrow> js_join sep (x # xs) = x @ sep @ js_join sep xs"
  by (cases xs) auto

lemma js_join_append:
  "xs \<noteq> [] \<Longrightarrow> ys \<noteq> [] \<Longrightarrow> js_join sep (xs @ ys) = js_join sep xs @ sep @ js_join sep ys"
proof (induction xs)
  case Nil
  then show ?case by simp
next
  case (Cons x xs)
  then show ?case by (cases "xs = []") auto
qed

text \<open>Splitting at the first separator is unique when the heads do not contain it.\<close>

lemma split_at_sep:
  assumes "c \<notin> set a" and "c \<notin> set b" and "a @ c # x = b @ c # y"
  shows "a = b \<and> x = y"
  using assms
proof (induction a arbitrary: b)
  case Nil
  then show ?case by (cases b) auto
next
  case (Cons d a)
  then show ?case by (cases b) auto
qed

lemma js_join_inj:
  assumes "\<forall>s\<in>set xs. c \<notin> set s" and "\<forall>s\<in>set ys. c \<notin> set s"
    and "xs \<noteq> []" and "ys \<noteq> []" and "js_join [c] xs = js_join [c] ys"
  shows "xs = ys"
  using assms
proof (induction xs arbitrary: ys)
  case Nil
  then show ?case by simp
next
  case (Cons x xs)
  note IH = Cons.IH and prems = Cons.prems
  from prems(4) obtain u us where ys: "ys = u # us" by (cases ys) auto
  have cx: "c \<notin> set x" and cu: "c \<notin> set u" using prems(1,2) ys by auto
  have eq: "js_join [c] (x # xs) = js_join [c] (u # us)" using prems(5) ys by simp
  have cxs: "\<forall>s\<in>set xs. c \<notin> set s" and cus: "\<forall>s\<in>set us. c \<notin> set s"
    using prems(1,2) ys by auto
  show ?case
  proof (cases "xs = []")
    case True
    show ?thesis
    proof (cases "us = []")
      case True
      with eq \<open>xs = []\<close> ys show ?thesis by simp
    next
      case False
      with eq \<open>xs = []\<close> have "x = u @ c # js_join [c] us" by simp
      with cx show ?thesis by simp
    qed
  next
    case xs: False
    show ?thesis
    proof (cases "us = []")
      case True
      with eq xs have "u = x @ c # js_join [c] xs" by simp
      with cu show ?thesis by simp
    next
      case us: False
      with eq xs have "x @ c # js_join [c] xs = u @ c # js_join [c] us"
        by simp
      from split_at_sep [OF cx cu this]
      have xu: "x = u" and rest: "js_join [c] xs = js_join [c] us" by auto
      from IH [OF cxs cus xs us rest] xu ys show ?thesis by simp
    qed
  qed
qed

subsection \<open>Lemmas on sorting\<close>

text \<open>Sorting a list around an element that is comparable with all others.\<close>

lemma sort_around:
  fixes x :: "'a::linorder"
  assumes "\<forall>a\<in>set ys. a \<noteq> x"
  shows "sort (x # ys) = sort (filter (\<lambda>a. a < x) ys) @ x # sort (filter (\<lambda>a. x < a) ys)"
proof (rule properties_for_sort)
  have "filter (\<lambda>a. x < a) ys = filter (\<lambda>a. \<not> a < x) ys"
    using assms by (intro filter_cong) auto
  moreover have "mset (filter (\<lambda>a. a < x) ys) + mset (filter (\<lambda>a. \<not> a < x) ys) = mset ys"
    using multiset_partition [of "mset ys" "\<lambda>a. a < x"] by simp
  ultimately show "mset (sort (filter (\<lambda>a. a < x) ys) @ x # sort (filter (\<lambda>a. x < a) ys)) = mset (x # ys)"
    by simp
  show "sorted (sort (filter (\<lambda>a. a < x) ys) @ x # sort (filter (\<lambda>a. x < a) ys))"
    by (auto simp: sorted_append intro: less_imp_le dest: order.strict_trans)
qed

lemma js_join_middle:
  "js_join sep (L @ x # G) =
     (if L = [] then [] else js_join sep L @ sep) @ x @ (if G = [] then [] else sep @ js_join sep G)"
proof (cases L)
  case Nil
  then show ?thesis by (cases G) auto
next
  case (Cons a L')
  then show ?thesis using js_join_append [of L "x # G" sep] by (cases G) auto
qed

text \<open>The order \<open>k @ c # v < b @ c # w\<close> between two keyed entries is decided by the keys
  alone, when the separator is below every character of \<open>b\<close> and neither key
  extends the other.\<close>

lemma less_sep_entry:
  fixes k b :: string
  assumes "k \<noteq> b" and "\<not> (\<exists>r. k = b @ r)" and "\<forall>ch\<in>set b. c < ch"
  shows "k @ c # v < b @ c # w \<longleftrightarrow> k < b"
  using assms
proof (induction k arbitrary: b)
  case Nil
  then obtain d b' where "b = d # b'" by (cases b) auto
  with Nil.prems show ?case by simp
next
  case (Cons x k)
  then obtain d b' where b: "b = d # b'" by (cases b) auto
  show ?case
  proof (cases "x = d")
    case True
    with Cons.prems b have "k \<noteq> b'" "\<not> (\<exists>r. k = b' @ r)" "\<forall>ch\<in>set b'. c < ch" by auto
    with Cons.IH True b show ?thesis by simp
  next
    case False
    with b show ?thesis by auto
  qed
qed

lemma less_sep_entry_rev:
  fixes k b :: string
  assumes "k \<noteq> b" and "\<not> (\<exists>r. k = b @ r)" and "\<forall>ch\<in>set b. c < ch"
  shows "b @ c # w < k @ c # v \<longleftrightarrow> b < k"
  using assms
proof (induction k arbitrary: b)
  case Nil
  then obtain d b' where "b = d # b'" by (cases b) auto
  with Nil.prems show ?case by auto
next
  case (Cons x k)
  then obtain d b' where b: "b = d # b'" by (cases b) auto
  show ?case
  proof (cases "x = d")
    case True
    with Cons.prems b have "k \<noteq> b'" "\<not> (\<exists>r. k = b' @ r)" "\<forall>ch\<in>set b'. c < ch" by auto
    with Cons.IH True b show ?thesis by simp
  next
    case False
    with b show ?thesis by auto
  qed
qed

lemma sort_mset_cong: "mset xs = mset ys \<Longrightarrow> sort xs = sort ys"
  by (rule properties_for_sort) simp_all

lemma map_sort_key: "map f (sort_key f xs) = sort (map f xs)"
  by (rule properties_for_sort [symmetric]) (simp_all add: sorted_sort_key)

end
