(* ===== verification/JsValue.thy ===== *)
theory JsValue
  imports Prelude "HOL-Library.AList"
begin

text \<open>
  The JavaScript values the sources pass around as parameter records and serialized
  models: \<open>Record<string, any>\<close> objects (\<open>SerializedLLM\<close>, \<open>llmOutput\<close>,
  constructor parameters). An object is an association list in insertion order; its
  well-formedness is that the keys are distinct. The string conversions are those of
  the ECMAScript specification that the sources rely on: \<open>ToString\<close> (template
  literals), \<open>Array.prototype.toString\<close> (which joins the elements with a comma and
  writes \<open>undefined\<close> and \<open>null\<close> elements as the empty string), truthiness,
  property assignment, object spread and rest destructuring.
  Numbers are integers here: the identifying parameters of a model that matter for its
  cache key are strings, booleans and integers; fractional numbers are not modelled.
\<close>

datatype jsval =
    JUndefined
  | JNull
  | JBool bool
  | JNumber int
  | JString string
  | JArray "jsval list"
  | JObject "(string \<times> jsval) list"

type_synonym js_obj = "(string \<times> jsval) list"

subsection \<open>String conversion\<close>

fun nat_str :: "nat \<Rightarrow> string" where
  "nat_str n =
     (if n < 10 then [char_of (48 + n)] else nat_str (n div 10) @ [char_of (48 + n mod 10)])"

definition int_str :: "int \<Rightarrow> string" where
  "int_str i = (if i < 0 then CHR ''-'' # nat_str (nat (- i)) else nat_str (nat i))"

text \<open>\<open>ToString(v)\<close>; for an array, \<open>Array.prototype.join(",")\<close> over its elements.\<close>

fun js_to_string :: "jsval \<Rightarrow> string" where
  "js_to_string JUndefined = ''undefined''"
| "js_to_string JNull = ''null''"
| "js_to_string (JBool b) = (if b then ''true'' else ''false'')"
| "js_to_string (JNumber i) = int_str i"
| "js_to_string (JString s) = s"
| "js_to_string (JArray xs) =
     js_join '','' (map (\<lambda>v. case v of JUndefined \<Rightarrow> [] | JNull \<Rightarrow> [] | _ \<Rightarrow> js_to_string v) xs)"
| "js_to_string (JObject _) = ''[object Object]''"

text \<open>How an array element is written by \<open>Array.prototype.join\<close>.\<close>

definition js_elem_str :: "jsval \<Rightarrow> string" where
  "js_elem_str v = (case v of JUndefined \<Rightarrow> [] | JNull \<Rightarrow> [] | _ \<Rightarrow> js_to_string v)"

fun js_truthy :: "jsval \<Rightarrow> bool" where
  "js_truthy JUndefined = False"
| "js_truthy JNull = False"
| "js_truthy (JBool b) = b"
| "js_truthy (JNumber i) = (i \<noteq> 0)"
| "js_truthy (JString s) = (s \<noteq> [])"
| "js_truthy (JArray _) = True"
| "js_truthy (JObject _) = True"

subsection \<open>Objects\<close>

definition obj_wf :: "js_obj \<Rightarrow> bool" where
  "obj_wf ob \<longleftrightarrow> distinct (map fst ob)"

text \<open>\<open>ob[k]\<close>: an absent property reads as \<open>undefined\<close>.\<close>

definition obj_get :: "js_obj \<Rightarrow> string \<Rightarrow> jsval" where
  "obj_get ob k = (case map_of ob k of None \<Rightarrow> JUndefined | Some v \<Rightarrow> v)"

text \<open>\<open>ob[k] = v\<close>: an existing key keeps its position, a new key goes last.\<close>

definition obj_set :: "string \<Rightarrow> jsval \<Rightarrow> js_obj \<Rightarrow> js_obj" where
  "obj_set k v ob = AList.update k v ob"

text \<open>\<open>{...target, ...src}\<close>: the properties of \<open>src\<close> assigned in order onto \<open>target\<close>.\<close>

definition obj_spread :: "js_obj \<Rightarrow> js_obj \<Rightarrow> js_obj" where
  "obj_spread target src = fold (\<lambda>(k, v). obj_set k v) src target"

text \<open>\<open>const {k1, k2, ...rest} = ob\<close>: the properties other than the named ones.\<close>

definition obj_rest :: "string list \<Rightarrow> js_obj \<Rightarrow> js_obj" where
  "obj_rest ks ob = filter (\<lambda>(k, _). k \<notin> set ks) ob"

text \<open>The string \<open>String([k, v])\<close> of one entry \<open>[k, v]\<close> of \<open>Object.entries(ob)\<close>.\<close>

definition entry_str :: "string \<times> jsval \<Rightarrow> string" where
  "entry_str e = js_to_string (JArray [JString (fst e), snd e])"

subsection \<open>Lemmas\<close>

lemma js_to_string_JArray [simp]:
  "js_to_string (JArray xs) = js_join '','' (map js_elem_str xs)"
  by (simp add: js_elem_str_def [abs_def])

declare js_to_string.simps(6) [simp del]

lemma js_elem_str_simps [simp]:
  "js_elem_str JUndefined = []" "js_elem_str JNull = []"
  "js_elem_str (JString s) = s" "js_elem_str (JBool b) = js_to_string (JBool b)"
  "js_elem_str (JNumber i) = int_str i" "js_elem_str (JArray xs) = js_to_string (JArray xs)"
  "js_elem_str (JObject ob) = ''[object Object]''"
  by (simp_all add: js_elem_str_def)

lemma entry_str_eq: "entry_str (k, v) = k @ CHR '','' # js_elem_str v"
  by (simp add: entry_str_def js_elem_str_def)

lemma obj_wf_set [intro]: "obj_wf ob \<Longrightarrow> obj_wf (obj_set k v ob)"
  by (simp add: obj_wf_def obj_set_def distinct_update)

lemma map_of_obj_set [simp]: "map_of (obj_set k v ob) = (map_of ob)(k \<mapsto> v)"
  by (simp add: obj_set_def update_conv')

lemma obj_get_set [simp]: "obj_get (obj_set k v ob) k' = (if k' = k then v else obj_get ob k')"
  by (simp add: obj_get_def)

lemma obj_wf_spread [intro]: "obj_wf t \<Longrightarrow> obj_wf (obj_spread t s)"
  unfolding obj_spread_def
  by (induction s arbitrary: t) auto

lemma map_of_obj_spread: "obj_wf s \<Longrightarrow> map_of (obj_spread t s) = map_of t ++ map_of s"
  unfolding obj_spread_def obj_wf_def
proof (induction s arbitrary: t)
  case Nil
  then show ?case by simp
next
  case (Cons e s)
  obtain a b where e: "e = (a, b)" by (cases e)
  with Cons.prems have "a \<notin> dom (map_of s)" by (auto simp: dom_map_of_conv_image_fst)
  with Cons e show ?case by (auto simp: map_add_upd_left fun_eq_iff map_add_def split: option.split)
qed

lemma obj_wf_rest [intro]: "obj_wf ob \<Longrightarrow> obj_wf (obj_rest ks ob)"
  by (simp add: obj_wf_def obj_rest_def distinct_map_filter)

text \<open>Two well-formed objects with the same properties have the same entries, up to order.\<close>

lemma obj_same_props_mset:
  assumes "obj_wf a" and "obj_wf b" and "map_of a = map_of b"
  shows "mset a = mset b"
proof -
  from assms have "set a = set b" by (simp add: obj_wf_def map_of_inject_set)
  moreover from assms have "distinct a" "distinct b"
    by (auto simp: obj_wf_def distinct_map)
  ultimately show ?thesis by (simp add: set_eq_iff_mset_eq_distinct)
qed

end
