(* ===== verification/Schema.thy ===== *)
theory Schema
  imports JsValue
begin

text \<open>
  The data the orchestrator exchanges with its callers, backends, caches and sinks
  (the \<open>schema\<close> module that \<open>src/unnamed/part_000\<close> imports; its source is not part of
  this repository, so these types follow the specification, section 3):
  a \<open>Generation\<close> carries a text and optional extra information; an \<open>LLMResult\<close>
  carries one slot per prompt, an open metadata object and the optional run
  correlation \<open>__run\<close>. A slot is \<open>generation list option\<close> because a JavaScript
  array may hold \<open>undefined\<close> where no candidate list was written. Errors are values of
  \<open>error\<close>, one constructor per class of failure of the specification, section 7.
\<close>

datatype error =
    InvalidArgument string
  | BackendFailure string
  | CacheFailure string
  | SinkFailure string
  | UnknownModelType string
  | ModelMismatch string
  | TypeError string

record generation =
  gen_text :: string
  generation_info :: "js_obj option"

type_synonym gen_slot = "generation list option"

record llm_result =
  generations :: "gen_slot list"
  llm_output :: "js_obj option"
  run :: "string option"

text \<open>The \<open>prompts\<close> argument of \<open>generate\<close>: an array of strings or any other value.\<close>

datatype prompts_arg = PromptArray "string list" | NotAnArray jsval

end
