(* ===== verification/Callbacks.thy ===== *)
theory Callbacks
  imports Schema
begin

text \<open>
  Notification sinks and their coordinator.
  \<^item> \<open>src/langchain/src/callbacks/base.ts\<close>: the hook set \<open>BaseCallbackHandlerMethods\<close>
    (\<open>hook\<close>, one constructor per optional method), the handler object with its three
    ignore flags (\<open>handler\<close>), its constructor (\<open>BaseCallbackHandler_new\<close>),
    \<open>copy\<close> and \<open>fromMethods\<close>. A handler's class fixes which hooks it implements and
    which of them reject when called (\<open>handler_class\<close>).
  \<^item> The coordinator (\<open>CallbackManager.configure\<close>, \<open>handleLLMStart\<close> and the run
    manager's \<open>handleLLMNewToken\<close>, \<open>handleLLMError\<close>, \<open>handleLLMEnd\<close>) lives in
    \<open>callbacks/manager.ts\<close>, which is not part of this repository: it is modelled from
    the specification, section 4.2 (\<open>configure\<close>, \<open>dispatch\<close>, \<open>handleLLMStart\<close>).
  The notification state \<open>nstate\<close> holds the fresh-identifier supply behind \<open>uuidv4()\<close>
  and object identities, the trace of events the coordinator emitted (run id, event), and
  the trace of hook invocations each sink received. Other components extend this record,
  so the lemmas here hold for every extension (\<open>'a nstate_scheme\<close>).
  The lifecycle of one run is the step relation \<open>lc_step\<close> on \<open>run_phase\<close>
  (\<open>Idle\<close>, \<open>Active\<close>, \<open>Drained\<close>) and its closure \<open>lc_run\<close> over event lists.
\<close>

subsection \<open>Hooks and handlers (base.ts)\<close>

datatype hook =
    HandleLLMStart | HandleLLMNewToken | HandleLLMError | HandleLLMEnd
  | HandleChainStart | HandleChainError | HandleChainEnd
  | HandleToolStart | HandleToolError | HandleToolEnd
  | HandleText | HandleAgentAction | HandleAgentEnd

text \<open>A subclass with its class-level \<open>name\<close> field, or the anonymous \<open>Handler\<close> class
  made by \<open>fromMethods\<close>; each with the hooks it implements and those that reject.\<close>

datatype handler_class =
    HandlerSubclass string "hook list" "hook list"
  | FromMethodsHandler "hook list" "hook list"

record handler_input =
  in_ignoreLLM :: "bool option"
  in_ignoreChain :: "bool option"
  in_ignoreAgent :: "bool option"

record handler =
  h_id :: nat
  h_class :: handler_class
  h_name :: string
  ignoreLLM :: bool
  ignoreChain :: bool
  ignoreAgent :: bool

fun class_hooks :: "handler_class \<Rightarrow> hook list" where
  "class_hooks (HandlerSubclass _ hs _) = hs"
| "class_hooks (FromMethodsHandler hs _) = hs"

fun class_failing :: "handler_class \<Rightarrow> hook list" where
  "class_failing (HandlerSubclass _ _ fs) = fs"
| "class_failing (FromMethodsHandler _ fs) = fs"

datatype llm_event =
    EvLLMStart string "string list"
  | EvLLMNewToken string
  | EvLLMError error
  | EvLLMEnd llm_result

record delivery =
  d_handler :: nat
  d_run :: string
  d_parent :: "string option"
  d_event :: llm_event

record nstate =
  n_fresh :: nat
  n_emitted :: "(string \<times> llm_event) list"
  n_delivered :: "delivery list"

definition fresh :: "'a nstate_scheme \<Rightarrow> nat \<times> 'a nstate_scheme" where
  "fresh s = (n_fresh s, s\<lparr>n_fresh := Suc (n_fresh s)\<rparr>)"

definition uuid_str :: "nat \<Rightarrow> string" where
  "uuid_str n = ''uuid-'' @ nat_str n"

text \<open>\<open>new C(input)\<close> for a handler class \<open>C\<close>: the ignore flags start \<open>false\<close> and
  take \<open>input.ignoreX ?? this.ignoreX\<close> when an input is given (base.ts, lines 103--116).\<close>

definition BaseCallbackHandler_new ::
  "nat \<Rightarrow> handler_class \<Rightarrow> string \<Rightarrow> handler_input option \<Rightarrow> handler" where
  "BaseCallbackHandler_new oid cls nm input =
     (let flags = (case input of
                     None \<Rightarrow> (False, False, False)
                   | Some i \<Rightarrow> (nullish_or (in_ignoreLLM i) False,
                               nullish_or (in_ignoreChain i) False,
                               nullish_or (in_ignoreAgent i) False))
      in \<lparr>h_id = oid, h_class = cls, h_name = nm, ignoreLLM = fst flags,
          ignoreChain = fst (snd flags), ignoreAgent = snd (snd flags)\<rparr>)"

text \<open>A handler passed as the \<open>input\<close> of a constructor: its flags are never nullish.\<close>

definition handler_as_input :: "handler \<Rightarrow> handler_input" where
  "handler_as_input h =
     \<lparr>in_ignoreLLM = Some (ignoreLLM h), in_ignoreChain = Some (ignoreChain h),
      in_ignoreAgent = Some (ignoreAgent h)\<rparr>"

text \<open>\<open>BaseCallbackHandler.fromMethods(methods)\<close>: a new instance of a fresh class whose
  constructor calls \<open>super()\<close> without input, sets \<open>name = uuidv4()\<close> and copies the
  methods in (base.ts, lines 124--134).\<close>

definition fromMethods :: "hook list \<Rightarrow> hook list \<Rightarrow> 'a nstate_scheme \<Rightarrow> handler \<times> 'a nstate_scheme" where
  "fromMethods hs fs s =
     (let (oid, s1) = fresh s; (u, s2) = fresh s1
      in (BaseCallbackHandler_new oid (FromMethodsHandler hs fs) (uuid_str u) None, s2))"

text \<open>\<open>h.copy()\<close> is \<open>new h.constructor(h)\<close> (base.ts, lines 118--122). A subclass
  constructor forwards the input to \<open>super\<close>; the \<open>Handler\<close> class of \<open>fromMethods\<close>
  takes no argument and ignores it.\<close>

definition copy :: "handler \<Rightarrow> 'a nstate_scheme \<Rightarrow> handler \<times> 'a nstate_scheme" where
  "copy h s =
     (case h_class h of
        HandlerSubclass nm hs fs \<Rightarrow>
          (let (oid, s1) = fresh s
           in (BaseCallbackHandler_new oid (h_class h) nm (Some (handler_as_input h)), s1))
      | FromMethodsHandler hs fs \<Rightarrow> fromMethods hs fs s)"

subsection \<open>The coordinator (specification, section 4.2)\<close>

record manager =
  m_handlers :: "handler list"
  m_parent :: "string option"

datatype callbacks_arg = NoCallbacks | HandlerList "handler list" | ManagerArg manager

record run_manager =
  rm_run_id :: string
  rm_handlers :: "handler list"
  rm_parent :: "string option"

definition console_handler :: "nat \<Rightarrow> handler" where
  "console_handler oid =
     BaseCallbackHandler_new oid
       (HandlerSubclass ''console_callback_handler''
          [HandleLLMStart, HandleLLMError, HandleLLMEnd, HandleChainStart, HandleChainError,
           HandleChainEnd, HandleToolStart, HandleToolError, HandleToolEnd, HandleText,
           HandleAgentAction, HandleAgentEnd] [])
       ''console_callback_handler'' None"

text \<open>The sinks of a \<open>callbacks\<close> argument: none, a list, or those of a manager.\<close>

fun callback_handlers :: "callbacks_arg \<Rightarrow> handler list" where
  "callback_handlers NoCallbacks = []"
| "callback_handlers (HandlerList l) = l"
| "callback_handlers (ManagerArg m) = m_handlers m"

text \<open>Handlers deduplicated by object identity, the first occurrence kept.\<close>

fun dedup_handlers :: "handler list \<Rightarrow> handler list" where
  "dedup_handlers [] = []"
| "dedup_handlers (h # hs) = h # dedup_handlers (filter (\<lambda>g. h_id g \<noteq> h_id h) hs)"

text \<open>\<open>CallbackManager.configure(inheritable, local, {verbose})\<close>: the caller's sinks
  merged with the model's own, deduplicated, plus a console sink when verbose; no
  coordinator at all when no sink is active.\<close>

definition configure ::
  "callbacks_arg \<Rightarrow> handler list \<Rightarrow> bool \<Rightarrow> 'a nstate_scheme \<Rightarrow> manager option \<times> 'a nstate_scheme" where
  "configure inh local verbose s =
     (let hs = dedup_handlers (callback_handlers inh @ local);
          parent = (case inh of ManagerArg m \<Rightarrow> m_parent m | _ \<Rightarrow> None)
      in if verbose \<and> \<not> list_ex (\<lambda>h. h_name h = ''console_callback_handler'') hs
         then (let (oid, s1) = fresh s
               in (Some \<lparr>m_handlers = hs @ [console_handler oid], m_parent = parent\<rparr>, s1))
         else if hs = [] then (None, s)
         else (Some \<lparr>m_handlers = hs, m_parent = parent\<rparr>, s))"

fun llm_event_hook :: "llm_event \<Rightarrow> hook" where
  "llm_event_hook (EvLLMStart _ _) = HandleLLMStart"
| "llm_event_hook (EvLLMNewToken _) = HandleLLMNewToken"
| "llm_event_hook (EvLLMError _) = HandleLLMError"
| "llm_event_hook (EvLLMEnd _) = HandleLLMEnd"

text \<open>A sink none of whose hooks rejects.\<close>

definition quiet_handler :: "handler \<Rightarrow> bool" where
  "quiet_handler h \<longleftrightarrow> class_failing (h_class h) = []"

definition eligible :: "llm_event \<Rightarrow> handler \<Rightarrow> bool" where
  "eligible ev h \<longleftrightarrow> \<not> ignoreLLM h \<and> llm_event_hook ev \<in> set (class_hooks (h_class h))"

text \<open>One lifecycle event of a run: recorded as emitted, delivered to every sink that
  implements the hook and does not ignore LLM events, all invocations started together;
  the call rejects when one of them rejects.\<close>

definition dispatch ::
  "run_manager \<Rightarrow> llm_event \<Rightarrow> 'a nstate_scheme \<Rightarrow> error option \<times> 'a nstate_scheme" where
  "dispatch rm ev s =
     (let hs = filter (eligible ev) (rm_handlers rm);
          s' = s\<lparr>n_emitted := n_emitted s @ [(rm_run_id rm, ev)],
                 n_delivered := n_delivered s @
                   map (\<lambda>h. \<lparr>d_handler = h_id h, d_run = rm_run_id rm,
                             d_parent = rm_parent rm, d_event = ev\<rparr>) hs\<rparr>
      in (case filter (\<lambda>h. llm_event_hook ev \<in> set (class_failing (h_class h))) hs of
            [] \<Rightarrow> None
          | h # _ \<Rightarrow> Some (SinkFailure (h_name h)), s'))"

text \<open>\<open>handleLLMStart(llm, prompts)\<close>: a fresh run id, the start event, and the run
  manager that the backend receives.\<close>

definition handleLLMStart ::
  "manager \<Rightarrow> string \<Rightarrow> string list \<Rightarrow> 'a nstate_scheme \<Rightarrow> (error + run_manager) \<times> 'a nstate_scheme" where
  "handleLLMStart m nm prompts s =
     (let (u, s1) = fresh s;
          rm = \<lparr>rm_run_id = uuid_str u, rm_handlers = m_handlers m, rm_parent = m_parent m\<rparr>;
          (e, s2) = dispatch rm (EvLLMStart nm prompts) s1
      in (case e of None \<Rightarrow> Inr rm | Some err \<Rightarrow> Inl err, s2))"

subsection \<open>Run lifecycle\<close>

datatype run_phase = Idle | Active | Drained

inductive lc_step :: "run_phase \<Rightarrow> llm_event \<Rightarrow> run_phase \<Rightarrow> bool" where
  lc_start: "lc_step Idle (EvLLMStart nm ps) Active"
| lc_token: "lc_step Active (EvLLMNewToken t) Active"
| lc_error: "lc_step Active (EvLLMError e) Drained"
| lc_end: "lc_step Active (EvLLMEnd r) Drained"

inductive lc_run :: "run_phase \<Rightarrow> llm_event list \<Rightarrow> run_phase \<Rightarrow> bool" where
  lc_nil: "lc_run p [] p"
| lc_cons: "lc_step p e q \<Longrightarrow> lc_run q es r \<Longrightarrow> lc_run p (e # es) r"

code_pred lc_step .
code_pred lc_run .

text \<open>The events the coordinator emitted for one run, in order.\<close>

definition run_events :: "string \<Rightarrow> 'a nstate_scheme \<Rightarrow> llm_event list" where
  "run_events r s = map snd (filter (\<lambda>e. fst e = r) (n_emitted s))"

fun is_terminal :: "llm_event \<Rightarrow> bool" where
  "is_terminal (EvLLMError _) = True"
| "is_terminal (EvLLMEnd _) = True"
| "is_terminal _ = False"

text \<open>The sinks were allocated before: their identities are below the allocation counter.\<close>

definition ids_below :: "nat \<Rightarrow> handler list \<Rightarrow> bool" where
  "ids_below n hs \<longleftrightarrow> list_all (\<lambda>h. h_id h < n) hs"

subsection \<open>Lemmas: handlers\<close>

lemma fresh_simps [simp]:
  "fst (fresh s) = n_fresh s" "snd (fresh s) = s\<lparr>n_fresh := Suc (n_fresh s)\<rparr>"
  by (simp_all add: fresh_def)

lemma BaseCallbackHandler_new_simps [simp]:
  "h_id (BaseCallbackHandler_new oid cls nm input) = oid"
  "h_class (BaseCallbackHandler_new oid cls nm input) = cls"
  "h_name (BaseCallbackHandler_new oid cls nm input) = nm"
  "ignoreLLM (BaseCallbackHandler_new oid cls nm input) =
     (case input of None \<Rightarrow> False | Some i \<Rightarrow> nullish_or (in_ignoreLLM i) False)"
  "ignoreChain (BaseCallbackHandler_new oid cls nm input) =
     (case input of None \<Rightarrow> False | Some i \<Rightarrow> nullish_or (in_ignoreChain i) False)"
  "ignoreAgent (BaseCallbackHandler_new oid cls nm input) =
     (case input of None \<Rightarrow> False | Some i \<Rightarrow> nullish_or (in_ignoreAgent i) False)"
  by (simp_all add: BaseCallbackHandler_new_def split: option.split)

lemma fromMethods_eq:
  "fromMethods hs fs s =
     (BaseCallbackHandler_new (n_fresh s) (FromMethodsHandler hs fs) (uuid_str (Suc (n_fresh s))) None,
      s\<lparr>n_fresh := Suc (Suc (n_fresh s))\<rparr>)"
  by (simp add: fromMethods_def fresh_def)

lemma copy_eq:
  "copy h s =
     (case h_class h of
        HandlerSubclass nm hs fs \<Rightarrow>
          (BaseCallbackHandler_new (n_fresh s) (h_class h) nm (Some (handler_as_input h)),
           s\<lparr>n_fresh := Suc (n_fresh s)\<rparr>)
      | FromMethodsHandler hs fs \<Rightarrow> fromMethods hs fs s)"
  by (simp add: copy_def fresh_def split: handler_class.split)

subsection \<open>Lemmas: dispatch\<close>

lemma dispatch_state:
  "snd (dispatch rm ev s) =
     s\<lparr>n_emitted := n_emitted s @ [(rm_run_id rm, ev)],
       n_delivered := n_delivered s @
         map (\<lambda>h. \<lparr>d_handler = h_id h, d_run = rm_run_id rm, d_parent = rm_parent rm, d_event = ev\<rparr>)
           (filter (eligible ev) (rm_handlers rm))\<rparr>"
  by (simp add: dispatch_def Let_def split: list.split)

lemma dispatch_result:
  "fst (dispatch rm ev s) = None \<longleftrightarrow>
     \<not> list_ex (\<lambda>h. eligible ev h \<and> llm_event_hook ev \<in> set (class_failing (h_class h))) (rm_handlers rm)"
proof -
  have "fst (dispatch rm ev s) = None \<longleftrightarrow>
      filter (\<lambda>h. eligible ev h \<and> llm_event_hook ev \<in> set (class_failing (h_class h))) (rm_handlers rm) = []"
    by (simp add: dispatch_def Let_def split: list.split)
  then show ?thesis by (simp add: filter_empty_conv list_ex_iff)
qed

lemma dispatch_emitted [simp]:
  "n_emitted (snd (dispatch rm ev s)) = n_emitted s @ [(rm_run_id rm, ev)]"
  "n_fresh (snd (dispatch rm ev s)) = n_fresh s"
  "nstate.more (snd (dispatch rm ev s)) = nstate.more s"
  by (simp_all add: dispatch_state)

lemma handleLLMStart_state:
  "n_emitted (snd (handleLLMStart m nm ps s)) = n_emitted s @ [(uuid_str (n_fresh s), EvLLMStart nm ps)]"
  "n_fresh (snd (handleLLMStart m nm ps s)) = Suc (n_fresh s)"
  "nstate.more (snd (handleLLMStart m nm ps s)) = nstate.more s"
  by (simp_all add: handleLLMStart_def fresh_def Let_def case_prod_beta)

lemma handleLLMStart_Inr:
  "fst (handleLLMStart m nm ps s) = Inr rm \<Longrightarrow>
     rm = \<lparr>rm_run_id = uuid_str (n_fresh s), rm_handlers = m_handlers m, rm_parent = m_parent m\<rparr>"
  by (auto simp: handleLLMStart_def fresh_def Let_def split: prod.splits option.splits)

subsection \<open>Lemmas: configuration\<close>

lemma set_dedup_handlers: "set (dedup_handlers hs) \<subseteq> set hs"
  by (induction hs rule: dedup_handlers.induct) auto

lemma distinct_dedup_handlers: "distinct (map h_id (dedup_handlers hs))"
proof (induction hs rule: dedup_handlers.induct)
  case (2 h hs)
  have "h_id h \<notin> h_id ` set (dedup_handlers (filter (\<lambda>g. h_id g \<noteq> h_id h) hs))"
    using set_dedup_handlers [of "filter (\<lambda>g. h_id g \<noteq> h_id h) hs"] by auto
  with 2 show ?case by simp
qed simp

lemma ids_dedup_handlers: "h_id ` set (dedup_handlers hs) = h_id ` set hs"
proof (induction hs rule: dedup_handlers.induct)
  case (2 h hs)
  have "h_id ` set hs \<subseteq> insert (h_id h) (h_id ` set (filter (\<lambda>g. h_id g \<noteq> h_id h) hs))" by auto
  with 2 show ?case by auto
qed simp

subsection \<open>Lemmas: the lifecycle relation\<close>

inductive_cases lc_step_IdleE: "lc_step Idle e q"
inductive_cases lc_step_ActiveE: "lc_step Active e q"
inductive_cases lc_step_DrainedE [elim!]: "lc_step Drained e q"
inductive_cases lc_run_NilE [elim!]: "lc_run p [] q"
inductive_cases lc_run_ConsE: "lc_run p (e # es) q"

lemma lc_run_Cons_iff: "lc_run p (e # es) r \<longleftrightarrow> (\<exists>q. lc_step p e q \<and> lc_run q es r)"
  by (auto intro: lc_run.intros elim: lc_run_ConsE)

lemma lc_run_append:
  "lc_run p (xs @ ys) r \<longleftrightarrow> (\<exists>q. lc_run p xs q \<and> lc_run q ys r)"
proof (induction xs arbitrary: p)
  case Nil
  then show ?case by (auto intro: lc_run.intros)
next
  case (Cons x xs)
  have "lc_run p ((x # xs) @ ys) r \<longleftrightarrow> (\<exists>q'. lc_step p x q' \<and> lc_run q' (xs @ ys) r)"
    by (simp add: lc_run_Cons_iff)
  also have "\<dots> \<longleftrightarrow> (\<exists>q'. lc_step p x q' \<and> (\<exists>q. lc_run q' xs q \<and> lc_run q ys r))"
    using Cons.IH by simp
  also have "\<dots> \<longleftrightarrow> (\<exists>q. lc_run p (x # xs) q \<and> lc_run q ys r)"
    by (auto simp: lc_run_Cons_iff)
  finally show ?case .
qed

lemma lc_run_Drained: "lc_run Drained es q \<longleftrightarrow> es = [] \<and> q = Drained"
  by (cases es) (auto intro: lc_run.intros simp: lc_run_Cons_iff)

lemma lc_run_tokens: "lc_run Active (map EvLLMNewToken toks) Active"
  by (induction toks) (auto intro: lc_run.intros lc_step.intros)

lemma lc_run_Active:
  "lc_run Active es q \<longleftrightarrow>
     (\<exists>toks. es = map EvLLMNewToken toks \<and> q = Active) \<or>
     (\<exists>toks t. es = map EvLLMNewToken toks @ [t] \<and> is_terminal t \<and> q = Drained)"
proof (induction es)
  case Nil
  then show ?case by (auto intro: lc_run.intros)
next
  case (Cons e es)
  show ?case
  proof
    assume "lc_run Active (e # es) q"
    then obtain q' where st: "lc_step Active e q'" and rest: "lc_run q' es q"
      by (auto simp: lc_run_Cons_iff)
    from st show "(\<exists>toks. e # es = map EvLLMNewToken toks \<and> q = Active) \<or>
        (\<exists>toks t. e # es = map EvLLMNewToken toks @ [t] \<and> is_terminal t \<and> q = Drained)"
    proof cases
      case (lc_token t)
      with rest Cons.IH obtain toks where
        "es = map EvLLMNewToken toks \<and> q = Active \<or>
         (\<exists>t'. es = map EvLLMNewToken toks @ [t'] \<and> is_terminal t' \<and> q = Drained)" by blast
      with lc_token show ?thesis by (metis list.simps(9) append_Cons)
    qed (use rest lc_run_Drained in auto)
  next
    assume "(\<exists>toks. e # es = map EvLLMNewToken toks \<and> q = Active) \<or>
        (\<exists>toks t. e # es = map EvLLMNewToken toks @ [t] \<and> is_terminal t \<and> q = Drained)"
    then show "lc_run Active (e # es) q"
    proof (elim disjE exE conjE)
      fix toks assume "e # es = map EvLLMNewToken toks" "q = Active"
      then show ?thesis using lc_run_tokens by metis
    next
      fix toks t assume eq: "e # es = map EvLLMNewToken toks @ [t]" and "is_terminal t" "q = Drained"
      then have "lc_run Active [t] Drained"
        by (cases t) (auto intro: lc_run.intros lc_step.intros)
      with eq \<open>q = Drained\<close> show ?thesis
        using lc_run_tokens lc_run_append by metis
    qed
  qed
qed

lemma lc_run_Idle_Drained:
  "lc_run Idle es Drained \<longleftrightarrow>
     (\<exists>nm ps toks t. es = EvLLMStart nm ps # map EvLLMNewToken toks @ [t] \<and> is_terminal t)"
proof
  assume "lc_run Idle es Drained"
  then obtain nm ps es' where "es = EvLLMStart nm ps # es'" "lc_run Active es' Drained"
    by (cases es) (auto simp: lc_run_Cons_iff elim: lc_step_IdleE)
  then show "\<exists>nm ps toks t. es = EvLLMStart nm ps # map EvLLMNewToken toks @ [t] \<and> is_terminal t"
    by (auto simp: lc_run_Active)
next
  assume "\<exists>nm ps toks t. es = EvLLMStart nm ps # map EvLLMNewToken toks @ [t] \<and> is_terminal t"
  then obtain nm ps toks t where es: "es = EvLLMStart nm ps # map EvLLMNewToken toks @ [t]"
    and t: "is_terminal t" by blast
  from t have "lc_run Active (map EvLLMNewToken toks @ [t]) Drained"
    by (auto simp: lc_run_Active)
  with es show "lc_run Idle es Drained"
    by (auto intro: lc_cons lc_start)
qed

lemma lc_run_Idle_terminals:
  assumes "lc_run Idle es q"
  shows "length (filter is_terminal es) \<le> 1"
proof (cases es)
  case Nil
  then show ?thesis by simp
next
  case (Cons e es')
  with assms obtain nm ps where "e = EvLLMStart nm ps" "lc_run Active es' q"
    by (auto simp: lc_run_Cons_iff elim: lc_step_IdleE)
  then show ?thesis using Cons by (auto simp: lc_run_Active comp_def)
qed

subsection \<open>Properties of sinks and their coordinator\<close>

text \<open>C14. \<open>CallbackManager.configure\<close> deduplicates the sinks by identity: when the sinks
  passed in were allocated before (their identities are below the allocation counter), the
  coordinator's sinks have pairwise distinct identities, every sink passed in is represented
  by one with its identity, and the only sink added is the console sink of a verbose model.\<close>

theorem configure_dedup:
  assumes ids: "ids_below (n_fresh s) (callback_handlers inh @ local)"
    and m: "fst (configure inh local vb s) = Some m"
  shows "distinct (map h_id (m_handlers m))
         \<and> h_id ` set (callback_handlers inh @ local) \<subseteq> h_id ` set (m_handlers m)
         \<and> set (m_handlers m) \<subseteq> set (callback_handlers inh @ local) \<union> {console_handler (n_fresh s)}
         \<and> ids_below (n_fresh (snd (configure inh local vb s))) (m_handlers m)"
proof -
  let ?hs = "dedup_handlers (callback_handlers inh @ local)"
  have d: "distinct (map h_id ?hs)" by (rule distinct_dedup_handlers)
  have sub: "set ?hs \<subseteq> set (callback_handlers inh @ local)" by (rule set_dedup_handlers)
  have below: "\<forall>h\<in>set ?hs. h_id h < n_fresh s" using ids sub by (auto simp: ids_below_def list_all_iff)
  have cid: "h_id (console_handler n) = n" for n by (simp add: console_handler_def)
  have kept: "h_id ` set (callback_handlers inh @ local) = h_id ` set ?hs"
    by (rule ids_dedup_handlers [symmetric])
  show ?thesis
  proof (cases "vb \<and> \<not> list_ex (\<lambda>h. h_name h = ''console_callback_handler'') ?hs")
    case True
    with m have "m_handlers m = ?hs @ [console_handler (n_fresh s)]"
      and "n_fresh (snd (configure inh local vb s)) = Suc (n_fresh s)"
      by (auto simp: configure_def Let_def case_prod_beta)
    with d sub below kept show ?thesis
      by (auto simp: cid ids_below_def list_all_iff less_Suc_eq)
  next
    case False
    with m have "m_handlers m = ?hs" and "snd (configure inh local vb s) = s"
      by (auto simp: configure_def Let_def split: if_splits)
    with d sub below kept show ?thesis
      by (auto simp: ids_below_def list_all_iff)
  qed
qed

lemma configure_dedup_witness:
  "ids_below (n_fresh \<lparr>n_fresh = 10, n_emitted = [], n_delivered = []\<rparr>)
     (callback_handlers (HandlerList [BaseCallbackHandler_new 3 (HandlerSubclass ''t'' [HandleLLMEnd] []) ''t'' None,
        BaseCallbackHandler_new 3 (HandlerSubclass ''t'' [HandleLLMEnd] []) ''t'' None]) @ []) \<and>
   fst (configure (HandlerList [BaseCallbackHandler_new 3 (HandlerSubclass ''t'' [HandleLLMEnd] []) ''t'' None,
        BaseCallbackHandler_new 3 (HandlerSubclass ''t'' [HandleLLMEnd] []) ''t'' None]) [] True
        \<lparr>n_fresh = 10, n_emitted = [], n_delivered = []\<rparr>) =
     Some \<lparr>m_handlers = [BaseCallbackHandler_new 3 (HandlerSubclass ''t'' [HandleLLMEnd] []) ''t'' None,
        console_handler 10], m_parent = None\<rparr> \<and>
   distinct (map h_id [BaseCallbackHandler_new 3 (HandlerSubclass ''t'' [HandleLLMEnd] []) ''t'' None, console_handler 10])"
  using configure_dedup [of "\<lparr>n_fresh = 10, n_emitted = [], n_delivered = []\<rparr>"
      "HandlerList [BaseCallbackHandler_new 3 (HandlerSubclass ''t'' [HandleLLMEnd] []) ''t'' None,
        BaseCallbackHandler_new 3 (HandlerSubclass ''t'' [HandleLLMEnd] []) ''t'' None]" "[]" True
      "\<lparr>m_handlers = [BaseCallbackHandler_new 3 (HandlerSubclass ''t'' [HandleLLMEnd] []) ''t'' None,
        console_handler 10], m_parent = None\<rparr>"]
  by (simp add: ids_below_def configure_def console_handler_def fresh_def)

text \<open>C34. \<open>h.copy()\<close> of a handler of a subclass is a new object (the next identity)
  of the same class with the same ignore flags, named by its class.\<close>

theorem copy_subclass:
  assumes "h_class h = HandlerSubclass nm hs fs"
  shows "copy h s = (h\<lparr>h_id := n_fresh s, h_name := nm\<rparr>, s\<lparr>n_fresh := Suc (n_fresh s)\<rparr>)"
  using assms by (cases h) (simp add: copy_eq BaseCallbackHandler_new_def handler_as_input_def)

lemma copy_subclass_witness:
  "h_class (BaseCallbackHandler_new 3 (HandlerSubclass ''t'' [HandleLLMEnd] []) ''t''
     (Some \<lparr>in_ignoreLLM = Some True, in_ignoreChain = None, in_ignoreAgent = None\<rparr>)) =
     HandlerSubclass ''t'' [HandleLLMEnd] [] \<and>
   ignoreLLM (fst (copy (BaseCallbackHandler_new 3 (HandlerSubclass ''t'' [HandleLLMEnd] []) ''t''
     (Some \<lparr>in_ignoreLLM = Some True, in_ignoreChain = None, in_ignoreAgent = None\<rparr>))
     \<lparr>n_fresh = 10, n_emitted = [], n_delivered = []\<rparr>)) = True"
  using copy_subclass [of "BaseCallbackHandler_new 3 (HandlerSubclass ''t'' [HandleLLMEnd] []) ''t''
     (Some \<lparr>in_ignoreLLM = Some True, in_ignoreChain = None, in_ignoreAgent = None\<rparr>)" "''t''" "[HandleLLMEnd]" "[]"
     "\<lparr>n_fresh = 10, n_emitted = [], n_delivered = []\<rparr>"]
  by simp

text \<open>C35. \<open>h.copy()\<close> of a handler made by \<open>fromMethods\<close> does not copy it: the
  \<open>Handler\<close> constructor ignores its argument, so the copy has all ignore flags reset to
  \<open>false\<close> and a fresh random name, whatever the flags of the original.\<close>

theorem copy_fromMethods_resets:
  assumes "h_class h = FromMethodsHandler hs fs"
  shows "copy h s =
     (\<lparr>h_id = n_fresh s, h_class = h_class h, h_name = uuid_str (Suc (n_fresh s)),
       ignoreLLM = False, ignoreChain = False, ignoreAgent = False\<rparr>,
      s\<lparr>n_fresh := Suc (Suc (n_fresh s))\<rparr>)"
  using assms by (simp add: copy_eq fromMethods_eq BaseCallbackHandler_new_def)

lemma copy_fromMethods_resets_witness:
  "h_class ((fst (fromMethods [HandleLLMEnd] [] \<lparr>n_fresh = 0, n_emitted = [], n_delivered = []\<rparr>))\<lparr>ignoreLLM := True\<rparr>) =
     FromMethodsHandler [HandleLLMEnd] [] \<and>
   ignoreLLM (fst (copy ((fst (fromMethods [HandleLLMEnd] [] \<lparr>n_fresh = 0, n_emitted = [], n_delivered = []\<rparr>))\<lparr>ignoreLLM := True\<rparr>)
     \<lparr>n_fresh = 2, n_emitted = [], n_delivered = []\<rparr>)) = False"
  using copy_fromMethods_resets [of "(fst (fromMethods [HandleLLMEnd] [] \<lparr>n_fresh = 0, n_emitted = [], n_delivered = []\<rparr>))\<lparr>ignoreLLM := True\<rparr>"
     "[HandleLLMEnd]" "[]" "\<lparr>n_fresh = 2, n_emitted = [], n_delivered = []\<rparr>"]
  by (simp add: fromMethods_eq)

end
