(* ===== verification/Cache.thy ===== *)
theory Cache
  imports Schema
begin

text \<open>
  The cache port (specification, sections 4.3 and 5; \<open>BaseCache\<close> and
  \<open>InMemoryCache\<close> live in \<open>cache/index.ts\<close>, outside this repository).
  A cache maps a pair (prompt, serialized parameters) to the slot stored for it.
  \<open>cache.lookup(prompt, key)\<close> resolves to the stored slot or \<open>undefined\<close>, or rejects;
  \<open>cache.update(prompt, key, value)\<close> stores the value or rejects. Which keys make the
  backing store fail is part of the cache's state (\<open>c_broken\<close>: lookups and updates of
  these keys reject; \<open>c_readonly\<close>: updates of these keys reject), so that the
  orchestrator's handling of a failing cache can be stated; \<open>InMemoryCache\<close> never fails.
  Caches are objects that several models can share: the orchestrator refers to them by
  \<open>cache_ref\<close>, and \<open>InMemoryCache.global()\<close> is the one process-wide instance.
\<close>

datatype cache_ref = GlobalInMemoryCache | CacheObject nat

record cache =
  c_entries :: "(string \<times> string) \<rightharpoonup> gen_slot"
  c_broken :: "(string \<times> string) set"
  c_readonly :: "(string \<times> string) set"

definition cache_get :: "cache \<Rightarrow> string \<Rightarrow> string \<Rightarrow> gen_slot" where
  "cache_get c p k = (case c_entries c (p, k) of None \<Rightarrow> None | Some v \<Rightarrow> v)"

definition cache_lookup :: "cache \<Rightarrow> string \<Rightarrow> string \<Rightarrow> error + gen_slot" where
  "cache_lookup c p k = (if (p, k) \<in> c_broken c then Inl (CacheFailure p) else Inr (cache_get c p k))"

text \<open>An update of this key succeeds.\<close>

definition writable :: "cache \<Rightarrow> string \<Rightarrow> string \<Rightarrow> bool" where
  "writable c p k \<longleftrightarrow> (p, k) \<notin> c_broken c \<and> (p, k) \<notin> c_readonly c"

definition cache_update :: "string \<Rightarrow> string \<Rightarrow> gen_slot \<Rightarrow> cache \<Rightarrow> error option \<times> cache" where
  "cache_update p k v c =
     (if \<not> writable c p k then (Some (CacheFailure p), c)
      else (None, c\<lparr>c_entries := (c_entries c)((p, k) \<mapsto> v)\<rparr>))"

definition empty_cache :: cache where
  "empty_cache = \<lparr>c_entries = Map.empty, c_broken = {}, c_readonly = {}\<rparr>"

subsection \<open>Lemmas\<close>

lemma cache_lookup_ok [simp]: "(p, k) \<notin> c_broken c \<Longrightarrow> cache_lookup c p k = Inr (cache_get c p k)"
  by (simp add: cache_lookup_def)

lemma cache_update_broken [simp]:
  "c_broken (snd (cache_update p k v c)) = c_broken c"
  "c_readonly (snd (cache_update p k v c)) = c_readonly c"
  "writable (snd (cache_update p k v c)) = writable c"
  by (simp_all add: cache_update_def writable_def fun_eq_iff)

lemma cache_get_update:
  "cache_get (snd (cache_update p k v c)) p' k' =
     (if (p', k') = (p, k) \<and> writable c p k then v else cache_get c p' k')"
  by (auto simp: cache_update_def cache_get_def)

end
