(* ===== verification/LLMBase.thy ===== *)
theory LLMBase
  imports Callbacks Cache
begin

text \<open>
  The model object of \<open>src/unnamed/part_000\<close> (class \<open>BaseLLM\<close>) without its generation
  methods: its state, the constructor, \<open>serialize\<close> with \<open>_modelType\<close>, the cache key
  that \<open>generate\<close> computes from the serialized parameters and the stop list, and the
  static \<open>deserialize\<close>. The abstract members \<open>_llmType()\<close> and the overridable
  \<open>_identifyingParams()\<close> are fields of the record: a concrete subclass fixes them.
  The state \<open>callbacks\<close> and \<open>verbose\<close> that \<open>BaseLanguageModel\<close> (not part of this
  repository) sets from the constructor parameters are fields too; \<open>super_params\<close> records
  what the constructor hands to that superclass.
\<close>

record base_llm =
  llmType :: string
  identifyingParams :: js_obj
  llm_cache :: "cache_ref option"
  llm_callbacks :: "handler list"
  llm_verbose :: bool
  super_params :: js_obj

text \<open>The \<open>cache\<close> constructor parameter: a cache object, a boolean, \<open>null\<close>, or absent.\<close>

datatype cache_param = CacheGiven cache_ref | CacheFlag bool | CacheNull | CacheAbsent

record llm_params =
  p_cache :: cache_param
  p_concurrency :: jsval
  p_rest :: js_obj

text \<open>\<open>new BaseLLM({cache, concurrency, ...rest})\<close> (lines 38--47). \<open>typeof null\<close> is
  \<open>"object"\<close>, so \<open>cache: null\<close> stores \<open>null\<close>, which \<open>generate\<close> treats like an
  absent cache: both are \<^term>\<open>None\<close> here.\<close>

definition BaseLLM_new :: "string \<Rightarrow> js_obj \<Rightarrow> handler list \<Rightarrow> bool \<Rightarrow> llm_params \<Rightarrow> base_llm" where
  "BaseLLM_new ty ip cbs vb p =
     \<lparr>llmType = ty, identifyingParams = ip,
      llm_cache = (case p_cache p of
                     CacheGiven r \<Rightarrow> Some r
                   | CacheNull \<Rightarrow> None
                   | CacheFlag b \<Rightarrow> (if b then Some GlobalInMemoryCache else None)
                   | CacheAbsent \<Rightarrow> None),
      llm_callbacks = cbs, llm_verbose = vb,
      super_params = (if js_truthy (p_concurrency p)
                      then obj_spread [(''maxConcurrency'', p_concurrency p)] (p_rest p)
                      else p_rest p)\<rparr>"

definition modelType :: string where
  "modelType = ''base_llm''"

text \<open>\<open>SerializedLLM\<close> (lines 13--17): an object with string fields \<open>_model\<close> and
  \<open>_type\<close> besides any others. The field types are not checked at run time, so
  \<open>deserialize\<close> is defined on every object.\<close>

type_synonym serialized_llm = js_obj

text \<open>The default \<open>_identifyingParams()\<close> (lines 165--167), for a subclass that does not
  override it.\<close>

definition identifyingParams_default :: js_obj where
  "identifyingParams_default = []"

text \<open>\<open>serialize()\<close> (lines 177--183): \<open>{...this._identifyingParams(), _type, _model}\<close>.\<close>

definition serialize :: "base_llm \<Rightarrow> serialized_llm" where
  "serialize llm =
     obj_set ''_model'' (JString modelType)
       (obj_set ''_type'' (JString (llmType llm)) (obj_spread [] (identifyingParams llm)))"

definition stop_value :: "string list option \<Rightarrow> jsval" where
  "stop_value stop = (case stop of None \<Rightarrow> JUndefined | Some xs \<Rightarrow> JArray (map JString xs))"

text \<open>Lines 114--117 of \<open>generate\<close>: \<open>params = this.serialize(); params.stop = stop;\<close>
  \<open>llmStringKey = `${Object.entries(params).sort()}`\<close>. The default sort compares the
  entries \<open>[k, v]\<close> by their string form and is stable; the template literal writes the
  sorted array of entries as a string.\<close>

definition llm_string_key :: "base_llm \<Rightarrow> string list option \<Rightarrow> string" where
  "llm_string_key llm stop =
     (let params = obj_set ''stop'' (stop_value stop) (serialize llm)
      in js_to_string (JArray (map (\<lambda>(k, v). JArray [JString k, v]) (sort_key entry_str params))))"

text \<open>What \<open>new Cls(rest)\<close> yields in \<open>deserialize\<close>: an \<open>OpenAI\<close> model built from the
  remaining properties, or, for \<open>Cls = Object\<close>, the plain object \<open>rest\<close> itself.\<close>

datatype loaded = LoadedOpenAI js_obj | LoadedPlainObject js_obj

text \<open>Property lookup \<open>{openai: OpenAI}[key]\<close>: the own property, else the property
  inherited from \<open>Object.prototype\<close>: \<open>constructor\<close> is the \<open>Object\<close> constructor,
  the others are methods or the prototype itself, none of which is a constructor.\<close>

datatype registry_entry = RegOpenAI | RegObjectConstructor | RegNonConstructor | RegAbsent

definition object_prototype_members :: "string list" where
  "object_prototype_members =
     [''__proto__'', ''__defineGetter__'', ''__defineSetter__'', ''__lookupGetter__'',
      ''__lookupSetter__'', ''hasOwnProperty'', ''isPrototypeOf'', ''propertyIsEnumerable'',
      ''toLocaleString'', ''toString'', ''valueOf'']"

definition registry_get :: "string \<Rightarrow> registry_entry" where
  "registry_get key =
     (if key = ''openai'' then RegOpenAI
      else if key = ''constructor'' then RegObjectConstructor
      else if key \<in> set object_prototype_members then RegNonConstructor
      else RegAbsent)"

text \<open>\<open>BaseLLM.deserialize(data)\<close> (lines 192--204).\<close>

definition deserialize :: "serialized_llm \<Rightarrow> error + loaded" where
  "deserialize data =
     (let ty = obj_get data ''_type''; md = obj_get data ''_model'';
          rest = obj_rest [''_type'', ''_model''] data
      in if js_truthy md \<and> md \<noteq> JString ''base_llm''
         then Inl (ModelMismatch (''Cannot load LLM with model '' @ js_to_string md))
         else (case registry_get (js_to_string ty) of
                 RegOpenAI \<Rightarrow> Inr (LoadedOpenAI rest)
               | RegObjectConstructor \<Rightarrow> Inr (LoadedPlainObject rest)
               | RegNonConstructor \<Rightarrow> Inl (TypeError ''Cls is not a constructor'')
               | RegAbsent \<Rightarrow> Inl (UnknownModelType (''Cannot load  LLM with type '' @ js_to_string ty))))"

text \<open>A key that properly extends another (\<open>''stop_words''\<close> extends \<open>''stop''\<close>).\<close>

definition key_extends :: "string \<Rightarrow> string \<Rightarrow> bool" where
  "key_extends b k \<longleftrightarrow> length b < length k \<and> take (length b) k = b"

subsection \<open>Lemmas: serialized parameters\<close>

lemma obj_set_mset:
  "obj_wf ob \<Longrightarrow> mset (obj_set k v ob) = mset ((k, v) # filter (\<lambda>e. fst e \<noteq> k) ob)"
  unfolding obj_wf_def obj_set_def
proof (induction ob)
  case Nil
  then show ?case by simp
next
  case (Cons e ob)
  obtain a b where e: "e = (a, b)" by (cases e)
  show ?case
  proof (cases "a = k")
    case True
    with Cons.prems e have "k \<notin> fst ` set ob" by simp
    then have "filter (\<lambda>e. fst e \<noteq> k) ob = ob"
      by (induction ob) auto
    with True e show ?thesis by simp
  next
    case False
    with Cons.prems have "distinct (map fst ob)" by simp
    with Cons.IH False e show ?thesis by simp
  qed
qed

lemma map_entry_str_obj_set:
  "entry_str (k, v1) = entry_str (k, v2) \<Longrightarrow>
     map entry_str (obj_set k v1 ob) = map entry_str (obj_set k v2 ob)"
  unfolding obj_set_def by (induction ob) auto

lemma obj_wf_serialize [intro]: "obj_wf (serialize llm)"
  unfolding serialize_def by (intro obj_wf_set obj_wf_spread) (simp add: obj_wf_def)

lemma keys_obj_set: "fst ` set (obj_set k v ob) = insert k (fst ` set ob)"
  by (simp add: obj_set_def dom_update)

lemma keys_obj_spread: "fst ` set (obj_spread t s) = fst ` set t \<union> fst ` set s"
  unfolding obj_spread_def
proof (induction s arbitrary: t)
  case Nil
  then show ?case by simp
next
  case (Cons e s)
  then show ?case by (cases e) (simp add: keys_obj_set)
qed

lemma keys_serialize:
  "fst ` set (serialize llm) = {''_model'', ''_type''} \<union> fst ` set (identifyingParams llm)"
  by (auto simp: serialize_def keys_obj_set keys_obj_spread)

lemma map_of_serialize:
  "obj_wf (identifyingParams llm) \<Longrightarrow>
     map_of (serialize llm) =
       (map_of (identifyingParams llm))(''_type'' \<mapsto> JString (llmType llm), ''_model'' \<mapsto> JString modelType)"
  by (simp add: serialize_def map_of_obj_spread)

lemma js_elem_str_stop_value [simp]:
  "js_elem_str (stop_value stop) = (case stop of None \<Rightarrow> [] | Some xs \<Rightarrow> js_join '','' xs)"
proof (cases stop)
  case (Some xs)
  have "map js_elem_str (map JString xs) = xs" by (induction xs) auto
  with Some show ?thesis by (simp add: stop_value_def)
qed (simp add: stop_value_def)

subsection \<open>Lemmas: the cache key\<close>

text \<open>The key is the comma-joined sorted list of the entry strings.\<close>

lemma llm_string_key_eq:
  "llm_string_key llm stop =
     js_join '','' (sort (map entry_str (obj_set ''stop'' (stop_value stop) (serialize llm))))"
proof -
  have "js_elem_str \<circ> (\<lambda>(k, v). JArray [JString k, v]) = entry_str"
    by (auto simp: entry_str_def fun_eq_iff)
  then show ?thesis
    by (simp add: llm_string_key_def Let_def map_sort_key)
qed

lemma llm_string_key_split:
  "llm_string_key llm stop =
     js_join '','' (sort (entry_str (''stop'', stop_value stop) #
                         map entry_str (filter (\<lambda>e. fst e \<noteq> ''stop'') (serialize llm))))"
proof -
  have "mset (map entry_str (obj_set ''stop'' (stop_value stop) (serialize llm))) =
        mset (entry_str (''stop'', stop_value stop) #
              map entry_str (filter (\<lambda>e. fst e \<noteq> ''stop'') (serialize llm)))"
    by (simp add: obj_set_mset [OF obj_wf_serialize])
  then have "sort (map entry_str (obj_set ''stop'' (stop_value stop) (serialize llm))) =
        sort (entry_str (''stop'', stop_value stop) #
              map entry_str (filter (\<lambda>e. fst e \<noteq> ''stop'') (serialize llm)))"
    by (rule sort_mset_cong)
  then show ?thesis by (simp only: llm_string_key_eq)
qed

text \<open>The key sees the stop list only through its string form.\<close>

lemma llm_string_key_stop_str:
  "js_elem_str (stop_value s1) = js_elem_str (stop_value s2) \<Longrightarrow>
     llm_string_key llm s1 = llm_string_key llm s2"
  by (simp add: llm_string_key_eq entry_str_eq map_entry_str_obj_set [of "''stop''" "stop_value s1" "stop_value s2"])

subsection \<open>Lemmas: the key around the stop entry, object layout\<close>

lemma stop_entry_cmp:
  assumes "k \<noteq> ''stop''" and "\<not> key_extends ''stop'' k"
  shows "entry_str (k, v) < ''stop'' @ CHR '','' # w \<longleftrightarrow> k < ''stop''"
    and "''stop'' @ CHR '','' # w < entry_str (k, v) \<longleftrightarrow> ''stop'' < k"
proof -
  have nx: "\<not> (\<exists>r. k = ''stop'' @ r)"
  proof
    assume "\<exists>r. k = ''stop'' @ r"
    then obtain r where "k = ''stop'' @ r" by blast
    with assms show False by (cases r) (auto simp: key_extends_def)
  qed
  have c: "\<forall>ch\<in>set ''stop''. CHR '','' < ch" by simp
  show "entry_str (k, v) < ''stop'' @ CHR '','' # w \<longleftrightarrow> k < ''stop''"
    using less_sep_entry [OF assms(1) nx c] by (simp add: entry_str_eq)
  show "''stop'' @ CHR '','' # w < entry_str (k, v) \<longleftrightarrow> ''stop'' < k"
    using less_sep_entry_rev [OF assms(1) nx c] by (simp add: entry_str_eq)
qed

lemma sort_stop_entry:
  assumes "\<forall>e\<in>set es. fst e \<noteq> ''stop'' \<and> \<not> key_extends ''stop'' (fst e)"
  shows "sort ((''stop'' @ CHR '','' # w) # map entry_str es) =
           sort (map entry_str (filter (\<lambda>e. fst e < ''stop'') es)) @ (''stop'' @ CHR '','' # w) #
           sort (map entry_str (filter (\<lambda>e. ''stop'' < fst e) es))"
proof -
  let ?x = "''stop'' @ CHR '','' # w"
  have lt: "entry_str e < ?x \<longleftrightarrow> fst e < ''stop''" and gt: "?x < entry_str e \<longleftrightarrow> ''stop'' < fst e"
    if "e \<in> set es" for e
    using stop_entry_cmp [where k = "fst e" and v = "snd e" and w = w] assms that by auto
  have ne: "\<forall>a\<in>set (map entry_str es). a \<noteq> ?x"
  proof
    fix a assume "a \<in> set (map entry_str es)"
    then obtain e where e: "e \<in> set es" "a = entry_str e" by auto
    from assms e(1) have "fst e < ''stop'' \<or> ''stop'' < fst e" by auto
    with lt [OF e(1)] gt [OF e(1)] e(2) show "a \<noteq> ?x" by auto
  qed
  have "filter (\<lambda>a. a < ?x) (map entry_str es) = map entry_str (filter (\<lambda>e. fst e < ''stop'') es)"
    using lt by (simp add: filter_map comp_def cong: filter_cong)
  moreover have "filter (\<lambda>a. ?x < a) (map entry_str es) = map entry_str (filter (\<lambda>e. ''stop'' < fst e) es)"
    using gt by (simp add: filter_map comp_def cong: filter_cong)
  ultimately show ?thesis using sort_around [OF ne] by simp
qed

lemma serialize_keys_not_stop:
  assumes "\<not> list_ex (key_extends ''stop'') (map fst (identifyingParams llm))"
  shows "\<forall>e\<in>set (filter (\<lambda>e. fst e \<noteq> ''stop'') (serialize llm)).
           fst e \<noteq> ''stop'' \<and> \<not> key_extends ''stop'' (fst e)"
proof
  fix e assume e: "e \<in> set (filter (\<lambda>e. fst e \<noteq> ''stop'') (serialize llm))"
  then have "fst e \<in> {''_model'', ''_type''} \<union> fst ` set (identifyingParams llm)"
    using keys_serialize [of llm] by auto
  with assms e show "fst e \<noteq> ''stop'' \<and> \<not> key_extends ''stop'' (fst e)"
    by (auto simp: key_extends_def list_ex_iff)
qed

lemma obj_set_new: "k \<notin> fst ` set t \<Longrightarrow> obj_set k v t = t @ [(k, v)]"
  unfolding obj_set_def by (induction t) auto

lemma obj_spread_disjoint:
  "obj_wf s \<Longrightarrow> fst ` set t \<inter> fst ` set s = {} \<Longrightarrow> obj_spread t s = t @ s"
  unfolding obj_spread_def obj_wf_def
proof (induction s arbitrary: t)
  case Nil
  then show ?case by simp
next
  case (Cons e s)
  obtain k v where e: "e = (k, v)" by (cases e)
  with Cons.prems have "obj_set k v t = t @ [(k, v)]" by (auto intro: obj_set_new)
  moreover from Cons.prems e have "fst ` set (t @ [(k, v)]) \<inter> fst ` set s = {}" by auto
  ultimately show ?case using Cons e by simp
qed

lemma serialize_fresh_keys:
  assumes "obj_wf (identifyingParams llm)"
    and "''_type'' \<notin> fst ` set (identifyingParams llm)" and "''_model'' \<notin> fst ` set (identifyingParams llm)"
  shows "serialize llm =
           identifyingParams llm @ [(''_type'', JString (llmType llm)), (''_model'', JString modelType)]"
  using assms by (simp add: serialize_def obj_spread_disjoint obj_set_new)

lemma obj_get_serialize [simp]:
  "obj_get (serialize llm) ''_type'' = JString (llmType llm)"
  "obj_get (serialize llm) ''_model'' = JString modelType"
  by (simp_all add: serialize_def)

text \<open>A model whose class keeps the default \<open>_identifyingParams()\<close> serializes to its type
  and model fields only.\<close>

lemma serialize_default:
  "identifyingParams llm = identifyingParams_default \<Longrightarrow>
     serialize llm = [(''_type'', JString (llmType llm)), (''_model'', JString modelType)]"
  by (simp add: serialize_def identifyingParams_default_def obj_set_def obj_spread_def)

subsection \<open>Properties: the cache key\<close>

text \<open>
  C15. Changing the stop list changes the cache key (specification, section 8, property 4),
  where that holds: when no identifying parameter is named by an extension of
  \<open>stop\<close> and both stop lists are non-empty lists of strings without commas, two calls
  get the same \<open>llmStringKey\<close> exactly when their stop lists are equal.
\<close>

theorem llm_string_key_stop_injective:
  assumes keys: "\<not> list_ex (key_extends ''stop'') (map fst (identifyingParams llm))"
    and xs: "xs \<noteq> []" "list_all (\<lambda>s. CHR '','' \<notin> set s) xs"
    and ys: "ys \<noteq> []" "list_all (\<lambda>s. CHR '','' \<notin> set s) ys"
  shows "llm_string_key llm (Some xs) = llm_string_key llm (Some ys) \<longleftrightarrow> xs = ys"
proof
  let ?es = "filter (\<lambda>e. fst e \<noteq> ''stop'') (serialize llm)"
  let ?A = "sort (map entry_str (filter (\<lambda>e. fst e < ''stop'') ?es))"
  let ?B = "sort (map entry_str (filter (\<lambda>e. ''stop'' < fst e) ?es))"
  have split: "llm_string_key llm (Some zs) = js_join '','' (?A @ (''stop'' @ CHR '','' # js_join '','' zs) # ?B)"
    for zs
    using sort_stop_entry [OF serialize_keys_not_stop [OF keys], of "js_join '','' zs"]
    by (simp add: llm_string_key_split entry_str_eq)
  assume "llm_string_key llm (Some xs) = llm_string_key llm (Some ys)"
  then have "js_join '','' xs = js_join '','' ys"
    by (simp add: split js_join_middle)
  then show "xs = ys"
    using js_join_inj [of xs "CHR '',''" ys] xs ys by (simp add: list_all_iff)
qed simp

theorem llm_string_key_stop_injective_witness:
  "llm_string_key \<lparr>llmType = ''openai'', identifyingParams = [(''temperature'', JNumber 1), (''model_name'', JString ''davinci'')],
      llm_cache = None, llm_callbacks = [], llm_verbose = False, super_params = []\<rparr> (Some [''a'']) \<noteq> llm_string_key \<lparr>llmType = ''openai'', identifyingParams = [(''temperature'', JNumber 1), (''model_name'', JString ''davinci'')],
      llm_cache = None, llm_callbacks = [], llm_verbose = False, super_params = []\<rparr> (Some [''b''])"
  using llm_string_key_stop_injective [of "\<lparr>llmType = ''openai'', identifyingParams = [(''temperature'', JNumber 1), (''model_name'', JString ''davinci'')],
      llm_cache = None, llm_callbacks = [], llm_verbose = False, super_params = []\<rparr>" "[''a'']" "[''b'']"]
  by (simp add: key_extends_def)

text \<open>
  C17. Different stop lists that the key does not tell apart: no stop list and an empty
  one give the same \<open>llmStringKey\<close>, and so do \<open>["a,b"]\<close> and \<open>["a", "b"]\<close>, for every
  model; a cached result for one is served for the other.
\<close>

theorem llm_string_key_stop_collisions:
  "llm_string_key llm None = llm_string_key llm (Some []) \<and>
   llm_string_key llm (Some [''a,b'']) = llm_string_key llm (Some [''a'', ''b''])"
  by (intro conjI llm_string_key_stop_str) simp_all

text \<open>
  C16. The key is derived deterministically and sorted for stability: two models of the
  same type whose identifying parameters are the same properties, in any order, get the
  same key for every stop list.
\<close>

theorem llm_string_key_params_order:
  assumes "obj_wf (identifyingParams a)" and "obj_wf (identifyingParams b)"
    and "map_of (identifyingParams a) = map_of (identifyingParams b)" and "llmType a = llmType b"
  shows "llm_string_key a stop = llm_string_key b stop"
proof -
  let ?pa = "obj_set ''stop'' (stop_value stop) (serialize a)"
  let ?pb = "obj_set ''stop'' (stop_value stop) (serialize b)"
  have "map_of ?pa = map_of ?pb" using assms by (simp add: map_of_serialize)
  then have "mset ?pa = mset ?pb" by (intro obj_same_props_mset obj_wf_set obj_wf_serialize)
  then have "sort (map entry_str ?pa) = sort (map entry_str ?pb)"
    by (intro sort_mset_cong) simp
  then show ?thesis by (simp only: llm_string_key_eq)
qed

theorem llm_string_key_params_order_witness:
  "llm_string_key (\<lparr>llmType = ''openai'', identifyingParams = [(''n'', JNumber 2), (''best_of'', JNumber 1)],
      llm_cache = None, llm_callbacks = [], llm_verbose = False, super_params = []\<rparr>) (Some [''x'']) =
   llm_string_key (\<lparr>llmType = ''openai'', identifyingParams = [(''best_of'', JNumber 1), (''n'', JNumber 2)],
      llm_cache = None, llm_callbacks = [], llm_verbose = False, super_params = []\<rparr>) (Some [''x''])"
  by (rule llm_string_key_params_order) (auto simp: obj_wf_def)

subsection \<open>Properties: deserialize and the constructor\<close>

text \<open>
  C25. Round trip: \<open>deserialize(serialize(m))\<close> of an OpenAI model rebuilds an OpenAI model
  from exactly its identifying parameters, when these do not use the reserved keys.
\<close>

theorem deserialize_serialize:
  assumes "obj_wf (identifyingParams llm)" and "llmType llm = ''openai''"
    and "''_type'' \<notin> fst ` set (identifyingParams llm)" and "''_model'' \<notin> fst ` set (identifyingParams llm)"
  shows "deserialize (serialize llm) = Inr (LoadedOpenAI (identifyingParams llm))"
proof -
  have "obj_rest [''_type'', ''_model''] (identifyingParams llm) = identifyingParams llm"
    using assms(3,4) by (force simp: obj_rest_def filter_id_conv)
  then have "obj_rest [''_type'', ''_model''] (serialize llm) = identifyingParams llm"
    using assms(1,3,4) by (simp add: serialize_fresh_keys obj_rest_def)
  with assms(2) show ?thesis
    by (simp add: deserialize_def modelType_def registry_get_def)
qed

theorem deserialize_serialize_witness:
  "deserialize (serialize \<lparr>llmType = ''openai'', identifyingParams = [(''temperature'', JNumber 1), (''model_name'', JString ''davinci'')],
      llm_cache = None, llm_callbacks = [], llm_verbose = False, super_params = []\<rparr>) = Inr (LoadedOpenAI [(''temperature'', JNumber 1), (''model_name'', JString ''davinci'')])"
  using deserialize_serialize [of "\<lparr>llmType = ''openai'', identifyingParams = [(''temperature'', JNumber 1), (''model_name'', JString ''davinci'')],
      llm_cache = None, llm_callbacks = [], llm_verbose = False, super_params = []\<rparr>"] by (simp add: obj_wf_def)

text \<open>
  C26. \<open>deserialize\<close> rejects a truthy model discriminator other than \<open>"base_llm"\<close> with
  the model-mismatch error, before looking at the type.
\<close>

theorem deserialize_model_mismatch:
  assumes "js_truthy (obj_get d ''_model'')" and "obj_get d ''_model'' \<noteq> JString ''base_llm''"
  shows "deserialize d = Inl (ModelMismatch (''Cannot load LLM with model '' @ js_to_string (obj_get d ''_model'')))"
  using assms by (simp add: deserialize_def)

theorem deserialize_model_mismatch_witness:
  "deserialize [(''_type'', JString ''openai''), (''_model'', JString ''chat'')] =
     Inl (ModelMismatch ''Cannot load LLM with model chat'')"
  using deserialize_model_mismatch [of "[(''_type'', JString ''openai''), (''_model'', JString ''chat'')]"]
  by (simp add: obj_get_def)

text \<open>
  C27. \<open>deserialize\<close> rejects a type discriminator that is neither registered nor a member
  of \<open>Object.prototype\<close> with the unknown-type error.
\<close>

theorem deserialize_unknown_type:
  assumes "\<not> js_truthy (obj_get d ''_model'') \<or> obj_get d ''_model'' = JString ''base_llm''"
    and "js_to_string (obj_get d ''_type'') \<notin> set (''openai'' # ''constructor'' # object_prototype_members)"
  shows "deserialize d = Inl (UnknownModelType (''Cannot load  LLM with type '' @ js_to_string (obj_get d ''_type'')))"
  using assms by (auto simp: deserialize_def registry_get_def)

theorem deserialize_unknown_type_witness:
  "deserialize [(''_type'', JString ''cohere''), (''_model'', JString ''base_llm'')] =
     Inl (UnknownModelType ''Cannot load  LLM with type cohere'')"
  using deserialize_unknown_type [of "[(''_type'', JString ''cohere''), (''_model'', JString ''base_llm'')]"]
  by (simp add: obj_get_def object_prototype_members_def)

text \<open>
  C28. \<open>deserialize\<close> does not fail closed on the type discriminator
  \<open>"constructor"\<close>: the registry lookup finds \<open>Object\<close> on the prototype and returns the
  remaining properties as a plain object instead of a model.
\<close>

theorem deserialize_inherited_constructor:
  assumes "\<not> js_truthy (obj_get d ''_model'') \<or> obj_get d ''_model'' = JString ''base_llm''"
    and "obj_get d ''_type'' = JString ''constructor''"
  shows "deserialize d = Inr (LoadedPlainObject (obj_rest [''_type'', ''_model''] d))"
  using assms by (auto simp: deserialize_def registry_get_def)

theorem deserialize_inherited_constructor_witness:
  "deserialize [(''_type'', JString ''constructor''), (''_model'', JString ''base_llm''), (''n'', JNumber 1)] =
     Inr (LoadedPlainObject [(''n'', JNumber 1)])"
  using deserialize_inherited_constructor
    [of "[(''_type'', JString ''constructor''), (''_model'', JString ''base_llm''), (''n'', JNumber 1)]"]
  by (simp add: obj_get_def obj_rest_def)

text \<open>
  C29. A missing (or empty, or otherwise falsy) model discriminator is not rejected: the
  record is loaded by its type alone.
\<close>

theorem deserialize_without_model:
  assumes "\<not> js_truthy (obj_get d ''_model'')" and "obj_get d ''_type'' = JString ''openai''"
  shows "deserialize d = Inr (LoadedOpenAI (obj_rest [''_type'', ''_model''] d))"
  using assms by (simp add: deserialize_def registry_get_def)

theorem deserialize_without_model_witness:
  "deserialize [(''_type'', JString ''openai''), (''n'', JNumber 1)] = Inr (LoadedOpenAI [(''n'', JNumber 1)])"
  using deserialize_without_model [of "[(''_type'', JString ''openai''), (''n'', JNumber 1)]"]
  by (simp add: obj_get_def obj_rest_def)

text \<open>
  C36. The deprecated \<open>concurrency\<close> parameter becomes \<open>maxConcurrency\<close> only when it is
  truthy and the other parameters do not set \<open>maxConcurrency\<close> themselves: the spread
  of the remaining parameters comes last and wins.
\<close>

theorem BaseLLM_new_maxConcurrency:
  assumes "obj_wf (p_rest p)"
  shows "map_of (super_params (BaseLLM_new ty ip cbs vb p)) ''maxConcurrency'' =
           (case map_of (p_rest p) ''maxConcurrency'' of
              Some m \<Rightarrow> Some m
            | None \<Rightarrow> (if js_truthy (p_concurrency p) then Some (p_concurrency p) else None))"
  using assms by (auto simp: BaseLLM_new_def map_of_obj_spread map_add_def split: option.split)

theorem BaseLLM_new_maxConcurrency_witness:
  "map_of (super_params (BaseLLM_new ''openai'' [] [] False
      \<lparr>p_cache = CacheAbsent, p_concurrency = JNumber 5, p_rest = [(''maxConcurrency'', JNumber 2)]\<rparr>))
      ''maxConcurrency'' = Some (JNumber 2)"
  using BaseLLM_new_maxConcurrency [of "\<lparr>p_cache = CacheAbsent, p_concurrency = JNumber 5,
      p_rest = [(''maxConcurrency'', JNumber 2)]\<rparr>" "''openai''" "[]" "[]" False]
  by (simp add: obj_wf_def)

end
