(* ===== verification/Uncached.thy ===== *)
theory Uncached
  imports LLMBase
begin

text \<open>
  The uncached generation path of \<open>src/unnamed/part_000\<close>, \<open>BaseLLM._generateUncached\<close>
  (lines 70--95): the coordinator is configured from the caller's and the model's sinks, the
  start event is emitted, the backend runs with the run manager, and the error or end event
  closes the run. The world is the notification state extended with the caches (by reference)
  and the log of backend invocations, so that "the backend is never invoked" and "the cache is
  never touched" are statements about the world after a call. A backend (the abstract
  \<open>_generate\<close> of a concrete model) is a function from the prompts and stop list to the
  tokens it streams through the run manager and its outcome. The properties of this theory
  are the lifecycle of a run and the propagation of backend and sink errors.
\<close>

record world = nstate +
  w_caches :: "cache_ref \<Rightarrow> cache"
  w_backend_calls :: "(string list \<times> string list option) list"

type_synonym backend = "string list \<Rightarrow> string list option \<Rightarrow> string list \<times> (error + llm_result)"

subsection \<open>The uncached path\<close>

text \<open>The tokens a backend streams through \<open>runManager?.handleLLMNewToken\<close>; a rejecting
  sink makes the backend's own promise reject.\<close>

primrec emit_tokens ::
  "run_manager option \<Rightarrow> string list \<Rightarrow> 'a nstate_scheme \<Rightarrow> error option \<times> 'a nstate_scheme" where
  "emit_tokens rmo [] s = (None, s)"
| "emit_tokens rmo (t # ts) s =
     (case rmo of
        None \<Rightarrow> (None, s)
      | Some rm \<Rightarrow> (case dispatch rm (EvLLMNewToken t) s of
                     (None, s1) \<Rightarrow> emit_tokens rmo ts s1
                   | (Some e, s1) \<Rightarrow> (Some e, s1)))"

text \<open>\<open>await this._generate(prompts, stop, runManager)\<close> (line 86).\<close>

definition run_backend ::
  "backend \<Rightarrow> string list \<Rightarrow> string list option \<Rightarrow> run_manager option \<Rightarrow> world \<Rightarrow>
     (error + llm_result) \<times> world" where
  "run_backend be prompts stop rmo w =
     (let w1 = w\<lparr>w_backend_calls := w_backend_calls w @ [(prompts, stop)]\<rparr>;
          (tks, out) = be prompts stop;
          (terr, w2) = emit_tokens rmo tks w1
      in (case terr of Some e \<Rightarrow> Inl e | None \<Rightarrow> out, w2))"

text \<open>Lines 84--94: the backend call, then the error event and rethrow, or the end event
  and the run id attached to the output.\<close>

definition finish_run ::
  "backend \<Rightarrow> string list \<Rightarrow> string list option \<Rightarrow> run_manager option \<Rightarrow> world \<Rightarrow>
     (error + llm_result) \<times> world" where
  "finish_run be prompts stop rmo w =
     (case run_backend be prompts stop rmo w of
        (Inl err, w1) \<Rightarrow>
          (case rmo of
             None \<Rightarrow> (Inl err, w1)
           | Some rm \<Rightarrow> (case dispatch rm (EvLLMError err) w1 of
                          (None, w2) \<Rightarrow> (Inl err, w2)
                        | (Some e', w2) \<Rightarrow> (Inl e', w2)))
      | (Inr out, w1) \<Rightarrow>
          (case rmo of
             None \<Rightarrow> (Inr (out\<lparr>run := None\<rparr>), w1)
           | Some rm \<Rightarrow> (case dispatch rm (EvLLMEnd out) w1 of
                          (None, w2) \<Rightarrow> (Inr (out\<lparr>run := Some (rm_run_id rm)\<rparr>), w2)
                        | (Some e', w2) \<Rightarrow> (Inl e', w2))))"

text \<open>\<open>_generateUncached(prompts, stop, callbacks)\<close> (lines 70--95).\<close>

definition generateUncached ::
  "base_llm \<Rightarrow> backend \<Rightarrow> string list \<Rightarrow> string list option \<Rightarrow> callbacks_arg \<Rightarrow> world \<Rightarrow>
     (error + llm_result) \<times> world" where
  "generateUncached llm be prompts stop cbs w =
     (case configure cbs (llm_callbacks llm) (llm_verbose llm) w of
        (None, w1) \<Rightarrow> finish_run be prompts stop None w1
      | (Some m, w1) \<Rightarrow>
          (case handleLLMStart m (llmType llm) prompts w1 of
             (Inl e, w2) \<Rightarrow> (Inl e, w2)
           | (Inr rm, w2) \<Rightarrow> finish_run be prompts stop (Some rm) w2))"

subsection \<open>Predicates used by the properties\<close>

text \<open>No sink that a call can reach rejects any hook.\<close>

definition sinks_quiet :: "base_llm \<Rightarrow> callbacks_arg \<Rightarrow> bool" where
  "sinks_quiet llm cbs \<longleftrightarrow> list_all quiet_handler (callback_handlers cbs @ llm_callbacks llm)"

text \<open>A coordinator is built: some sink is registered, or the model is verbose.\<close>

definition has_sinks :: "base_llm \<Rightarrow> callbacks_arg \<Rightarrow> bool" where
  "has_sinks llm cbs \<longleftrightarrow> callback_handlers cbs @ llm_callbacks llm \<noteq> [] \<or> llm_verbose llm"

subsection \<open>Example instances\<close>

text \<open>A cached model with no sinks of its own, a backend that streams one token and
  answers each prompt with its reversal, one that fails, a tracer sink, a sink whose
  \<open>handleLLMStart\<close> rejects, and a world whose cache holds an answer for the prompt
  \<open>''b''\<close> under every key (and one whose cache rejects every access to \<open>''a''\<close>).\<close>

definition ex_gen :: "string \<Rightarrow> generation" where
  "ex_gen t = \<lparr>gen_text = t, generation_info = None\<rparr>"

definition ex_llm :: base_llm where
  "ex_llm = \<lparr>llmType = ''openai'', identifyingParams = [(''temperature'', JNumber 1)],
     llm_cache = Some GlobalInMemoryCache, llm_callbacks = [], llm_verbose = False, super_params = []\<rparr>"

definition ex_backend :: backend where
  "ex_backend ps stop =
     ([''tok''], Inr \<lparr>generations = map (\<lambda>p. Some [ex_gen (rev p)]) ps, llm_output = None, run = None\<rparr>)"

definition ex_failing_backend :: backend where
  "ex_failing_backend ps stop = ([], Inl (BackendFailure ''rate limited''))"

definition ex_tracer :: handler where
  "ex_tracer = BaseCallbackHandler_new 7
     (HandlerSubclass ''tracer'' [HandleLLMStart, HandleLLMNewToken, HandleLLMError, HandleLLMEnd] [])
     ''tracer'' None"

definition ex_rejecting :: "hook \<Rightarrow> handler" where
  "ex_rejecting hk = BaseCallbackHandler_new 8
     (HandlerSubclass ''rejecting'' [HandleLLMStart, HandleLLMNewToken, HandleLLMError, HandleLLMEnd] [hk])
     ''rejecting'' None"

definition ex_cache :: cache where
  "ex_cache = \<lparr>c_entries = (\<lambda>pk. if fst pk = ''b'' then Some (Some [ex_gen ''B'']) else None), c_broken = {},
     c_readonly = {}\<rparr>"

definition ex_world :: world where
  "ex_world = \<lparr>n_fresh = 0, n_emitted = [], n_delivered = [], w_caches = (\<lambda>_. ex_cache),
     w_backend_calls = []\<rparr>"

subsection \<open>Lemmas\<close>

lemma dispatch_frame [simp]:
  "w_caches (snd (dispatch rm ev w)) = w_caches w"
  "w_backend_calls (snd (dispatch rm ev w)) = w_backend_calls w"
  by (simp_all add: dispatch_state)

lemma emit_tokens_None [simp]: "emit_tokens None tks s = (None, s)"
  by (cases tks) simp_all

lemma emit_tokens_frame [simp]:
  "w_caches (snd (emit_tokens rmo tks w)) = w_caches w"
  "w_backend_calls (snd (emit_tokens rmo tks w)) = w_backend_calls w"
  "n_fresh (snd (emit_tokens rmo tks w)) = n_fresh w"
  by (induction tks arbitrary: w) (auto split: option.split prod.split simp: case_prod_beta dispatch_state)

lemma emit_tokens_events:
  "\<exists>k. n_emitted (snd (emit_tokens (Some rm) tks s)) =
         n_emitted s @ map (\<lambda>t. (rm_run_id rm, EvLLMNewToken t)) (take k tks)"
proof (induction tks arbitrary: s)
  case Nil
  then show ?case by simp
next
  case (Cons t tks)
  show ?case
  proof (cases "fst (dispatch rm (EvLLMNewToken t) s)")
    case None
    obtain k where "n_emitted (snd (emit_tokens (Some rm) tks (snd (dispatch rm (EvLLMNewToken t) s)))) =
        n_emitted (snd (dispatch rm (EvLLMNewToken t) s)) @ map (\<lambda>t. (rm_run_id rm, EvLLMNewToken t)) (take k tks)"
      using Cons.IH by blast
    with None show ?thesis
      by (intro exI [of _ "Suc k"]) (simp add: case_prod_beta split: option.split)
  next
    case (Some e)
    then show ?thesis
      by (intro exI [of _ 1]) (simp add: case_prod_beta)
  qed
qed

lemma dispatch_quiet:
  "list_all quiet_handler (rm_handlers rm) \<Longrightarrow> fst (dispatch rm ev s) = None"
  by (auto simp: dispatch_result list_ex_iff list_all_iff quiet_handler_def)

lemma emit_tokens_quiet:
  "list_all quiet_handler (rm_handlers rm) \<Longrightarrow>
     fst (emit_tokens (Some rm) tks s) = None \<and>
     n_emitted (snd (emit_tokens (Some rm) tks s)) =
       n_emitted s @ map (\<lambda>t. (rm_run_id rm, EvLLMNewToken t)) tks"
proof (induction tks arbitrary: s)
  case Nil
  then show ?case by simp
next
  case (Cons t tks)
  from Cons.prems have "fst (dispatch rm (EvLLMNewToken t) s) = None" by (rule dispatch_quiet)
  with Cons show ?case by (simp add: case_prod_beta split: option.split)
qed

lemma configure_state:
  "\<exists>k. snd (configure inh local vb s) = s\<lparr>n_fresh := n_fresh s + k\<rparr>"
proof -
  have "s\<lparr>n_fresh := Suc (n_fresh s)\<rparr> = s\<lparr>n_fresh := n_fresh s + 1\<rparr>" by simp
  then show ?thesis
    by (auto simp: configure_def Let_def case_prod_beta intro: exI [of _ 0] exI [of _ 1])
qed

lemma configure_frame [simp]:
  "n_emitted (snd (configure inh local vb w)) = n_emitted w"
  "w_caches (snd (configure inh local vb w)) = w_caches w"
  "w_backend_calls (snd (configure inh local vb w)) = w_backend_calls w"
  using configure_state [of inh local vb w] by auto

lemma configure_Some:
  "(fst (configure inh local vb s) = None) \<longleftrightarrow> callback_handlers inh @ local = [] \<and> \<not> vb"
  by (auto simp: configure_def Let_def case_prod_beta dest: arg_cong [where f = set]
      elim: dedup_handlers.elims)

lemma configure_quiet:
  assumes q: "list_all quiet_handler (callback_handlers inh @ local)"
    and m: "fst (configure inh local vb s) = Some m"
  shows "list_all quiet_handler (m_handlers m)"
proof -
  from m have "set (m_handlers m) \<subseteq> set (dedup_handlers (callback_handlers inh @ local)) \<union>
      {console_handler (n_fresh s)}"
    by (auto simp: configure_def Let_def case_prod_beta split: if_splits)
  moreover have "quiet_handler (console_handler n)" for n
    by (simp add: quiet_handler_def console_handler_def)
  ultimately show ?thesis
    using q set_dedup_handlers [of "callback_handlers inh @ local"]
    by (auto simp: list_all_iff)
qed

lemma run_backend_frame [simp]:
  "w_caches (snd (run_backend be ps stop rmo w)) = w_caches w"
  "w_backend_calls (snd (run_backend be ps stop rmo w)) = w_backend_calls w @ [(ps, stop)]"
  by (simp_all add: run_backend_def Let_def case_prod_beta)

lemma finish_run_frame [simp]:
  "w_caches (snd (finish_run be ps stop rmo w)) = w_caches w"
  "w_backend_calls (snd (finish_run be ps stop rmo w)) = w_backend_calls w @ [(ps, stop)]"
  by (simp_all add: finish_run_def case_prod_beta split: sum.split option.split)

lemma run_backend_result:
  "fst (run_backend be ps stop rmo w) =
     (case fst (emit_tokens rmo (fst (be ps stop)) (w\<lparr>w_backend_calls := w_backend_calls w @ [(ps, stop)]\<rparr>)) of
        Some e \<Rightarrow> Inl e | None \<Rightarrow> snd (be ps stop))"
  by (simp add: run_backend_def Let_def case_prod_beta)

lemma run_backend_events:
  "n_emitted (snd (run_backend be ps stop rmo w)) =
     n_emitted (snd (emit_tokens rmo (fst (be ps stop)) (w\<lparr>w_backend_calls := w_backend_calls w @ [(ps, stop)]\<rparr>)))"
  by (simp add: run_backend_def Let_def case_prod_beta)

lemma finish_run_quiet:
  assumes "list_all quiet_handler (rm_handlers rm)"
  shows "fst (finish_run be ps stop (Some rm) w) =
           (case snd (be ps stop) of Inl e \<Rightarrow> Inl e | Inr r \<Rightarrow> Inr (r\<lparr>run := Some (rm_run_id rm)\<rparr>))"
    and "n_emitted (snd (finish_run be ps stop (Some rm) w)) =
           n_emitted w @ map (\<lambda>t. (rm_run_id rm, EvLLMNewToken t)) (fst (be ps stop)) @
           [(rm_run_id rm, case snd (be ps stop) of Inl e \<Rightarrow> EvLLMError e | Inr r \<Rightarrow> EvLLMEnd r)]"
  by (auto simp: finish_run_def run_backend_result run_backend_events dispatch_state
      case_prod_beta emit_tokens_quiet [OF assms] dispatch_quiet [OF assms] split: sum.split option.split)

lemma finish_run_no_manager:
  "fst (finish_run be ps stop None w) =
     (case snd (be ps stop) of Inl e \<Rightarrow> Inl e | Inr r \<Rightarrow> Inr (r\<lparr>run := None\<rparr>))"
  "n_emitted (snd (finish_run be ps stop None w)) = n_emitted w"
  by (auto simp: finish_run_def run_backend_def Let_def case_prod_beta split: sum.split)

lemma finish_run_events:
  "\<exists>k t. n_emitted (snd (finish_run be ps stop (Some rm) w)) =
           n_emitted w @ map (\<lambda>e. (rm_run_id rm, e)) (map EvLLMNewToken (take k (fst (be ps stop))) @ [t])
         \<and> is_terminal t"
proof -
  obtain k where k: "n_emitted (snd (run_backend be ps stop (Some rm) w)) =
      n_emitted w @ map (\<lambda>t. (rm_run_id rm, EvLLMNewToken t)) (take k (fst (be ps stop)))"
    using emit_tokens_events [of rm "fst (be ps stop)" "w\<lparr>w_backend_calls := w_backend_calls w @ [(ps, stop)]\<rparr>"]
    by (auto simp: run_backend_events)
  show ?thesis
  proof (cases "fst (run_backend be ps stop (Some rm) w)")
    case (Inl e)
    with k show ?thesis
      by (intro exI [of _ k] exI [of _ "EvLLMError e"])
        (simp add: finish_run_def dispatch_state case_prod_beta split: option.split)
  next
    case (Inr r)
    with k show ?thesis
      by (intro exI [of _ k] exI [of _ "EvLLMEnd r"])
        (simp add: finish_run_def dispatch_state case_prod_beta split: option.split)
  qed
qed

lemma handleLLMStart_quiet:
  "list_all quiet_handler (m_handlers m) \<Longrightarrow>
     fst (handleLLMStart m nm ps s) =
       Inr \<lparr>rm_run_id = uuid_str (n_fresh s), rm_handlers = m_handlers m, rm_parent = m_parent m\<rparr>"
  using dispatch_quiet [of "\<lparr>rm_run_id = uuid_str (n_fresh s), rm_handlers = m_handlers m, rm_parent = m_parent m\<rparr>"]
  by (simp add: handleLLMStart_def fresh_def Let_def case_prod_beta split: option.split)

lemma handleLLMStart_frame [simp]:
  "w_caches (snd (handleLLMStart m nm ps w)) = w_caches w"
  "w_backend_calls (snd (handleLLMStart m nm ps w)) = w_backend_calls w"
  by (simp_all add: handleLLMStart_def fresh_def Let_def case_prod_beta dispatch_state)

lemma generateUncached_caches [simp]:
  "w_caches (snd (generateUncached llm be ps stop cbs w)) = w_caches w"
  by (simp add: generateUncached_def case_prod_beta split: option.split sum.split)

lemma generateUncached_quiet:
  assumes "sinks_quiet llm cbs"
  shows "\<exists>rid. fst (generateUncached llm be ps stop cbs w) =
             (case snd (be ps stop) of Inl e \<Rightarrow> Inl e | Inr r \<Rightarrow> Inr (r\<lparr>run := rid\<rparr>))"
    and "w_backend_calls (snd (generateUncached llm be ps stop cbs w)) = w_backend_calls w @ [(ps, stop)]"
proof -
  have q: "list_all quiet_handler (m_handlers m)" if "fst (configure cbs (llm_callbacks llm) (llm_verbose llm) w) = Some m" for m
    by (rule configure_quiet [OF _ that]) (use assms in \<open>simp add: sinks_quiet_def\<close>)
  show "\<exists>rid. fst (generateUncached llm be ps stop cbs w) =
             (case snd (be ps stop) of Inl e \<Rightarrow> Inl e | Inr r \<Rightarrow> Inr (r\<lparr>run := rid\<rparr>))"
  proof (cases "fst (configure cbs (llm_callbacks llm) (llm_verbose llm) w)")
    case None
    then show ?thesis
      by (auto simp: generateUncached_def case_prod_beta finish_run_no_manager)
  next
    case (Some m)
    with q [OF Some] show ?thesis
      by (auto simp: generateUncached_def case_prod_beta handleLLMStart_quiet
          finish_run_quiet handleLLMStart_quiet)
  qed
  show "w_backend_calls (snd (generateUncached llm be ps stop cbs w)) = w_backend_calls w @ [(ps, stop)]"
  proof (cases "fst (configure cbs (llm_callbacks llm) (llm_verbose llm) w)")
    case None
    then show ?thesis by (auto simp: generateUncached_def case_prod_beta)
  next
    case (Some m)
    with q [OF Some] show ?thesis
      by (auto simp: generateUncached_def case_prod_beta handleLLMStart_quiet)
  qed
qed

text \<open>The outcome and the events of \<open>_generateUncached\<close> when no sink rejects: with a
  coordinator, the backend's outcome carrying the id of the run whose start, tokens and
  terminal event are emitted; without one, the outcome with no run id and no event.\<close>

lemma generateUncached_run:
  assumes q: "sinks_quiet llm cbs"
  shows "has_sinks llm cbs \<Longrightarrow> \<exists>rid.
           fst (generateUncached llm be ps stop cbs w) =
             (case snd (be ps stop) of Inl e \<Rightarrow> Inl e | Inr r \<Rightarrow> Inr (r\<lparr>run := Some rid\<rparr>))
         \<and> n_emitted (snd (generateUncached llm be ps stop cbs w)) =
             n_emitted w @ map (\<lambda>e. (rid, e))
               (EvLLMStart (llmType llm) ps # map EvLLMNewToken (fst (be ps stop)) @
                [case snd (be ps stop) of Inl e \<Rightarrow> EvLLMError e | Inr res \<Rightarrow> EvLLMEnd res])"
    and "\<not> has_sinks llm cbs \<Longrightarrow>
           fst (generateUncached llm be ps stop cbs w) =
             (case snd (be ps stop) of Inl e \<Rightarrow> Inl e | Inr r \<Rightarrow> Inr (r\<lparr>run := None\<rparr>))
         \<and> n_emitted (snd (generateUncached llm be ps stop cbs w)) = n_emitted w"
proof -
  let ?w1 = "snd (configure cbs (llm_callbacks llm) (llm_verbose llm) w)"
  assume hs: "has_sinks llm cbs"
  obtain m where m: "fst (configure cbs (llm_callbacks llm) (llm_verbose llm) w) = Some m"
    using hs configure_Some [of cbs "llm_callbacks llm" "llm_verbose llm" w]
    by (cases "fst (configure cbs (llm_callbacks llm) (llm_verbose llm) w)") (auto simp: has_sinks_def)
  have mq: "list_all quiet_handler (m_handlers m)"
    by (rule configure_quiet [OF _ m]) (use q in \<open>simp add: sinks_quiet_def\<close>)
  let ?rm = "\<lparr>rm_run_id = uuid_str (n_fresh ?w1), rm_handlers = m_handlers m, rm_parent = m_parent m\<rparr>"
  have "generateUncached llm be ps stop cbs w =
          finish_run be ps stop (Some ?rm) (snd (handleLLMStart m (llmType llm) ps ?w1))"
    using m handleLLMStart_quiet [OF mq, of "llmType llm" ps ?w1]
    by (simp add: generateUncached_def case_prod_beta)
  then show "\<exists>rid.
           fst (generateUncached llm be ps stop cbs w) =
             (case snd (be ps stop) of Inl e \<Rightarrow> Inl e | Inr r \<Rightarrow> Inr (r\<lparr>run := Some rid\<rparr>))
         \<and> n_emitted (snd (generateUncached llm be ps stop cbs w)) =
             n_emitted w @ map (\<lambda>e. (rid, e))
               (EvLLMStart (llmType llm) ps # map EvLLMNewToken (fst (be ps stop)) @
                [case snd (be ps stop) of Inl e \<Rightarrow> EvLLMError e | Inr res \<Rightarrow> EvLLMEnd res])"
    using mq by (intro exI [of _ "uuid_str (n_fresh ?w1)"]) (simp add: finish_run_quiet handleLLMStart_state split: sum.split)
next
  assume "\<not> has_sinks llm cbs"
  then have "fst (configure cbs (llm_callbacks llm) (llm_verbose llm) w) = None"
    using configure_Some [of cbs "llm_callbacks llm" "llm_verbose llm" w] by (simp add: has_sinks_def)
  then show "fst (generateUncached llm be ps stop cbs w) =
             (case snd (be ps stop) of Inl e \<Rightarrow> Inl e | Inr r \<Rightarrow> Inr (r\<lparr>run := None\<rparr>))
         \<and> n_emitted (snd (generateUncached llm be ps stop cbs w)) = n_emitted w"
    by (simp add: generateUncached_def case_prod_beta finish_run_no_manager)
qed

lemma configure_single:
  "configure (HandlerList [h]) [] False s = (Some \<lparr>m_handlers = [h], m_parent = None\<rparr>, s)"
  by (simp add: configure_def)

lemma ex_llm_simps [simp]:
  "llmType ex_llm = ''openai''" "llm_cache ex_llm = Some GlobalInMemoryCache"
  "llm_callbacks ex_llm = []" "llm_verbose ex_llm = False"
  by (simp_all add: ex_llm_def)

lemma ex_sinks [simp]:
  "sinks_quiet ex_llm (HandlerList [ex_tracer])" "sinks_quiet ex_llm NoCallbacks"
  "has_sinks ex_llm (HandlerList [ex_tracer])"
  by (simp_all add: sinks_quiet_def has_sinks_def quiet_handler_def ex_tracer_def
      BaseCallbackHandler_new_def)

subsection \<open>Properties of the uncached path\<close>

text \<open>C6. With a coordinator and no rejecting sink, \<open>_generateUncached\<close> emits for one fresh
  run exactly the start event, one token event per streamed token and one terminal event
  (the end event with the backend's output, or the error event with its error), and that
  sequence is a complete run of the lifecycle.\<close>

theorem generateUncached_lifecycle:
  assumes "sinks_quiet llm cbs" and "has_sinks llm cbs"
  shows "\<exists>r. n_emitted (snd (generateUncached llm be ps stop cbs w)) =
           n_emitted w @ map (\<lambda>e. (r, e))
             (EvLLMStart (llmType llm) ps # map EvLLMNewToken (fst (be ps stop)) @
              [case snd (be ps stop) of Inl e \<Rightarrow> EvLLMError e | Inr res \<Rightarrow> EvLLMEnd res])
         \<and> lc_run Idle (EvLLMStart (llmType llm) ps # map EvLLMNewToken (fst (be ps stop)) @
              [case snd (be ps stop) of Inl e \<Rightarrow> EvLLMError e | Inr res \<Rightarrow> EvLLMEnd res]) Drained"
proof -
  have "lc_run Idle (EvLLMStart (llmType llm) ps # map EvLLMNewToken (fst (be ps stop)) @
              [case snd (be ps stop) of Inl e \<Rightarrow> EvLLMError e | Inr res \<Rightarrow> EvLLMEnd res]) Drained"
    by (auto simp: lc_run_Idle_Drained split: sum.split)
  with generateUncached_run(1) [OF assms, of be ps stop w] show ?thesis by blast
qed

lemma generateUncached_lifecycle_witness:
  "sinks_quiet ex_llm (HandlerList [ex_tracer]) \<and> has_sinks ex_llm (HandlerList [ex_tracer]) \<and>
   (\<exists>r. n_emitted (snd (generateUncached ex_llm ex_backend [''ab''] None (HandlerList [ex_tracer]) ex_world)) =
     [(r, EvLLMStart ''openai'' [''ab'']), (r, EvLLMNewToken ''tok''),
      (r, EvLLMEnd \<lparr>generations = [Some [ex_gen ''ba'']], llm_output = None, run = None\<rparr>)])"
  using generateUncached_lifecycle [of ex_llm "HandlerList [ex_tracer]" ex_backend "[''ab'']" None ex_world]
  by (auto simp: ex_backend_def ex_world_def)

text \<open>C7. Whatever the sinks and the backend do, the events \<open>_generateUncached\<close> emits
  belong to one run and form a prefix of its lifecycle that starts from \<open>Idle\<close>: no token
  or terminal event without a start, nothing after the terminal event.\<close>

theorem generateUncached_lifecycle_prefix:
  "\<exists>r evs q. n_emitted (snd (generateUncached llm be ps stop cbs w)) = n_emitted w @ map (\<lambda>e. (r, e)) evs
             \<and> lc_run Idle evs q"
proof (cases "fst (configure cbs (llm_callbacks llm) (llm_verbose llm) w)")
  case None
  then have "n_emitted (snd (generateUncached llm be ps stop cbs w)) = n_emitted w"
    by (simp add: generateUncached_def case_prod_beta finish_run_no_manager)
  then show ?thesis by (intro exI [of _ "''''"] exI [of _ "[]"] exI [of _ Idle]) (simp add: lc_nil)
next
  case (Some m)
  let ?w1 = "snd (configure cbs (llm_callbacks llm) (llm_verbose llm) w)"
  let ?r = "uuid_str (n_fresh ?w1)"
  let ?st = "EvLLMStart (llmType llm) ps"
  have start: "n_emitted (snd (handleLLMStart m (llmType llm) ps ?w1)) = n_emitted w @ [(?r, ?st)]"
    by (simp add: handleLLMStart_state)
  show ?thesis
  proof (cases "fst (handleLLMStart m (llmType llm) ps ?w1)")
    case (Inl e)
    with Some start have "n_emitted (snd (generateUncached llm be ps stop cbs w)) = n_emitted w @ [(?r, ?st)]"
      by (simp add: generateUncached_def case_prod_beta)
    then show ?thesis
      by (intro exI [of _ ?r] exI [of _ "[?st]"] exI [of _ Active]) (simp add: lc_cons [OF lc_start lc_nil])
  next
    case (Inr rm)
    then have rm: "rm_run_id rm = ?r" by (auto dest: handleLLMStart_Inr)
    obtain k t where ev: "n_emitted (snd (finish_run be ps stop (Some rm) (snd (handleLLMStart m (llmType llm) ps ?w1)))) =
        n_emitted w @ [(?r, ?st)] @ map (\<lambda>e. (rm_run_id rm, e)) (map EvLLMNewToken (take k (fst (be ps stop))) @ [t])"
      and t: "is_terminal t"
      using finish_run_events [of be ps stop rm "snd (handleLLMStart m (llmType llm) ps ?w1)"] start by auto
    from Some Inr have "generateUncached llm be ps stop cbs w =
        finish_run be ps stop (Some rm) (snd (handleLLMStart m (llmType llm) ps ?w1))"
      by (simp add: generateUncached_def case_prod_beta)
    moreover from t have "lc_run Idle (?st # map EvLLMNewToken (take k (fst (be ps stop))) @ [t]) Drained"
      by (auto simp: lc_run_Idle_Drained)
    ultimately show ?thesis using ev rm
      by (intro exI [of _ ?r] exI [of _ "?st # map EvLLMNewToken (take k (fst (be ps stop))) @ [t]"]
          exI [of _ Drained]) simp
  qed
qed

text \<open>C8. When the backend rejects and no sink rejects, \<open>_generateUncached\<close> rejects with the
  backend's error, the backend was invoked once with the prompts, and with a coordinator the
  last event emitted is the error event of the run.\<close>

theorem generateUncached_backend_error:
  assumes "sinks_quiet llm cbs" and "snd (be ps stop) = Inl e"
  shows "fst (generateUncached llm be ps stop cbs w) = Inl e
         \<and> w_backend_calls (snd (generateUncached llm be ps stop cbs w)) = w_backend_calls w @ [(ps, stop)]
         \<and> (has_sinks llm cbs \<longrightarrow> (\<exists>r. last (n_emitted (snd (generateUncached llm be ps stop cbs w))) = (r, EvLLMError e)))"
proof (intro conjI impI)
  show "fst (generateUncached llm be ps stop cbs w) = Inl e"
    using generateUncached_quiet(1) [OF assms(1), of be ps stop w] assms(2) by auto
  show "w_backend_calls (snd (generateUncached llm be ps stop cbs w)) = w_backend_calls w @ [(ps, stop)]"
    by (rule generateUncached_quiet(2) [OF assms(1)])
  assume "has_sinks llm cbs"
  with assms show "\<exists>r. last (n_emitted (snd (generateUncached llm be ps stop cbs w))) = (r, EvLLMError e)"
    using generateUncached_lifecycle [OF assms(1), of be ps stop w] by auto
qed

lemma generateUncached_backend_error_witness:
  "sinks_quiet ex_llm (HandlerList [ex_tracer]) \<and> snd (ex_failing_backend [''a''] None) = Inl (BackendFailure ''rate limited'') \<and>
   fst (generateUncached ex_llm ex_failing_backend [''a''] None (HandlerList [ex_tracer]) ex_world) = Inl (BackendFailure ''rate limited'') \<and>
   w_backend_calls (snd (generateUncached ex_llm ex_failing_backend [''a''] None (HandlerList [ex_tracer]) ex_world)) = [([''a''], None)] \<and>
   (\<exists>r. last (n_emitted (snd (generateUncached ex_llm ex_failing_backend [''a''] None (HandlerList [ex_tracer]) ex_world))) =
      (r, EvLLMError (BackendFailure ''rate limited'')))"
  using generateUncached_backend_error [of ex_llm "HandlerList [ex_tracer]" ex_failing_backend "[''a'']" None
      "BackendFailure ''rate limited''" ex_world]
  by (simp add: ex_failing_backend_def ex_world_def)

text \<open>C30. When the only sink's \<open>handleLLMStart\<close> rejects, \<open>_generateUncached\<close> rejects with the
  sink's error after emitting only the start event, and the backend is never invoked: the run
  stays without a terminal event.\<close>

theorem generateUncached_start_sink_failure:
  assumes "llm_callbacks llm = []" and "\<not> llm_verbose llm" and "\<not> ignoreLLM h"
    and "HandleLLMStart \<in> set (class_hooks (h_class h))" and "HandleLLMStart \<in> set (class_failing (h_class h))"
  shows "fst (generateUncached llm be ps stop (HandlerList [h]) w) = Inl (SinkFailure (h_name h))
         \<and> w_backend_calls (snd (generateUncached llm be ps stop (HandlerList [h]) w)) = w_backend_calls w
         \<and> n_emitted (snd (generateUncached llm be ps stop (HandlerList [h]) w)) =
             n_emitted w @ [(uuid_str (n_fresh w), EvLLMStart (llmType llm) ps)]"
  using assms
  by (simp add: generateUncached_def configure_single handleLLMStart_def dispatch_def eligible_def
      fresh_def Let_def)

lemma generateUncached_start_sink_failure_witness:
  "llm_callbacks ex_llm = [] \<and> \<not> llm_verbose ex_llm \<and> \<not> ignoreLLM (ex_rejecting HandleLLMStart) \<and>
   HandleLLMStart \<in> set (class_hooks (h_class (ex_rejecting HandleLLMStart))) \<and>
   HandleLLMStart \<in> set (class_failing (h_class (ex_rejecting HandleLLMStart))) \<and>
   fst (generateUncached ex_llm ex_backend [''a''] None (HandlerList [ex_rejecting HandleLLMStart]) ex_world) =
     Inl (SinkFailure ''rejecting'') \<and>
   w_backend_calls (snd (generateUncached ex_llm ex_backend [''a''] None (HandlerList [ex_rejecting HandleLLMStart]) ex_world)) = [] \<and>
   n_emitted (snd (generateUncached ex_llm ex_backend [''a''] None (HandlerList [ex_rejecting HandleLLMStart]) ex_world)) =
     [(uuid_str 0, EvLLMStart ''openai'' [''a''])]"
  using generateUncached_start_sink_failure [of ex_llm "ex_rejecting HandleLLMStart" ex_backend "[''a'']" None ex_world]
  by (simp add: ex_rejecting_def ex_world_def BaseCallbackHandler_new_def)

text \<open>C31. When the backend rejects and the only sink's \<open>handleLLMError\<close> rejects,
  \<open>_generateUncached\<close> rejects with the sink's error: the backend's error is lost.\<close>

theorem generateUncached_error_sink_failure:
  assumes "llm_callbacks llm = []" and "\<not> llm_verbose llm" and "\<not> ignoreLLM h"
    and "HandleLLMError \<in> set (class_hooks (h_class h))" and "class_failing (h_class h) = [HandleLLMError]"
    and "snd (be ps stop) = Inl e"
  shows "fst (generateUncached llm be ps stop (HandlerList [h]) w) = Inl (SinkFailure (h_name h))"
proof -
  let ?rm = "\<lparr>rm_run_id = uuid_str (n_fresh w), rm_handlers = [h], rm_parent = None\<rparr>"
  have start: "fst (handleLLMStart \<lparr>m_handlers = [h], m_parent = None\<rparr> (llmType llm) ps w) = Inr ?rm"
    using assms(5) by (simp add: handleLLMStart_def dispatch_def fresh_def Let_def)
  have tokens: "fst (emit_tokens (Some ?rm) tks s) = None" for tks and s :: world
  proof (induction tks arbitrary: s)
    case (Cons t tks)
    have "fst (dispatch ?rm (EvLLMNewToken t) s) = None"
      using assms(5) by (simp add: dispatch_def Let_def)
    with Cons show ?case by (simp add: case_prod_beta split: option.split)
  qed simp
  have err: "fst (dispatch ?rm (EvLLMError e) s) = Some (SinkFailure (h_name h))" for s :: world
    using assms(3,4,5) by (simp add: dispatch_def eligible_def Let_def)
  show ?thesis
    using assms(1,2,6) start tokens err
    by (simp add: generateUncached_def configure_single finish_run_def run_backend_result case_prod_beta
        split: option.split)
qed

lemma generateUncached_error_sink_failure_witness:
  "llm_callbacks ex_llm = [] \<and> \<not> llm_verbose ex_llm \<and> \<not> ignoreLLM (ex_rejecting HandleLLMError) \<and>
   HandleLLMError \<in> set (class_hooks (h_class (ex_rejecting HandleLLMError))) \<and>
   class_failing (h_class (ex_rejecting HandleLLMError)) = [HandleLLMError] \<and>
   snd (ex_failing_backend [''a''] None) = Inl (BackendFailure ''rate limited'') \<and>
   fst (generateUncached ex_llm ex_failing_backend [''a''] None (HandlerList [ex_rejecting HandleLLMError]) ex_world) =
     Inl (SinkFailure ''rejecting'')"
  using generateUncached_error_sink_failure [of ex_llm "ex_rejecting HandleLLMError" ex_failing_backend "[''a'']" None
      "BackendFailure ''rate limited''" ex_world]
  by (simp add: ex_rejecting_def ex_failing_backend_def BaseCallbackHandler_new_def)

end
