(* ===== verification/Adapter.thy ===== *)
theory Adapter
  imports Uncached
begin

text \<open>
  The class \<open>LLM\<close> of \<open>src/unnamed/part_000\<close> (lines 214--236): a model that implements
  only \<open>_call(prompt, stop, runManager)\<close> gets the batch backend \<open>_generate\<close> from the
  loop of lines 229--234. \<open>llm_call_loop\<close> is that loop as a recursion over the prompts
  and \<open>LLM_generate\<close> the backend it yields; \<open>llm_for\<close> is the \<open>for\<close> statement as
  written, with its counter \<open>i\<close> and the \<open>generations\<close> array it pushes to, as a
  \<open>partial_function (option)\<close> whose \<open>None\<close> is "does not return". The theorem that it
  returns is the loop's termination.
\<close>

subsection \<open>The single-prompt adapter (class LLM)\<close>

type_synonym call_backend = "string \<Rightarrow> string list option \<Rightarrow> string list \<times> (error + string)"

text \<open>The loop of \<open>LLM._generate\<close> (lines 229--234): one \<open>_call\<close> per prompt, in order,
  each wrapped as a one-candidate list; the first rejection ends the loop.\<close>

fun llm_call_loop ::
  "call_backend \<Rightarrow> string list option \<Rightarrow> string list \<Rightarrow> string list \<times> (error + generation list list)" where
  "llm_call_loop cb stop [] = ([], Inr [])"
| "llm_call_loop cb stop (p # ps) =
     (case cb p stop of
        (tk, Inl e) \<Rightarrow> (tk, Inl e)
      | (tk, Inr t) \<Rightarrow>
          (case llm_call_loop cb stop ps of
             (tk', r) \<Rightarrow> (tk @ tk', map_sum id (Cons [\<lparr>gen_text = t, generation_info = None\<rparr>]) r)))"

definition LLM_generate :: "call_backend \<Rightarrow> backend" where
  "LLM_generate cb prompts stop =
     (case llm_call_loop cb stop prompts of
        (tk, r) \<Rightarrow> (tk, map_sum id (\<lambda>gs. \<lparr>generations = map Some gs, llm_output = None, run = None\<rparr>) r))"

text \<open>The \<open>for\<close> loop of lines 229--234 as written: while \<open>i < prompts.length\<close>, await
  \<open>_call(prompts[i])\<close> (whose streamed tokens accumulate in \<open>tks\<close>), push
  \<open>[{ text }]\<close> and increment \<open>i\<close>; a rejection of \<open>_call\<close> leaves the loop.\<close>

partial_function (option) llm_for ::
  "call_backend \<Rightarrow> string list option \<Rightarrow> string list \<Rightarrow> nat \<Rightarrow> string list \<Rightarrow> generation list list \<Rightarrow>
     (string list \<times> (error + generation list list)) option" where
  "llm_for cb stop prompts i tks gens =
     (if i < length prompts
      then (case cb (prompts ! i) stop of
              (tk, Inl e) \<Rightarrow> Some (tks @ tk, Inl e)
            | (tk, Inr t) \<Rightarrow>
                llm_for cb stop prompts (i + 1) (tks @ tk) (gens @ [[\<lparr>gen_text = t, generation_info = None\<rparr>]]))
      else Some (tks, Inr gens))"

subsection \<open>Example instances\<close>

text \<open>A \<open>_call\<close> that streams the prompt as one token and answers its reversal, and
  rejects the prompt \<open>''boom''\<close>.\<close>

definition ex_call :: call_backend where
  "ex_call p stop = ([p], if p = ''boom'' then Inl (BackendFailure ''boom'') else Inr (rev p))"

subsection \<open>Lemmas\<close>

lemma llm_call_loop_ok:
  "\<forall>p\<in>set ps. snd (cb p stop) = Inr (f p) \<Longrightarrow>
     llm_call_loop cb stop ps =
       (concat (map (\<lambda>p. fst (cb p stop)) ps), Inr (map (\<lambda>p. [\<lparr>gen_text = f p, generation_info = None\<rparr>]) ps))"
  by (induction ps) (auto simp: case_prod_beta split: sum.split)

lemma llm_call_loop_error:
  "\<forall>q\<in>set qs. snd (cb q stop) = Inr (f q) \<Longrightarrow> snd (cb p stop) = Inl e \<Longrightarrow>
     llm_call_loop cb stop (qs @ p # rs) = (concat (map (\<lambda>q. fst (cb q stop)) qs) @ fst (cb p stop), Inl e)"
  by (induction qs) (auto simp: case_prod_beta split: sum.split)

text \<open>From index \<open>i\<close> on, the loop as written runs the recursion on the remaining prompts.\<close>

lemma llm_for_drop:
  "i \<le> length ps \<Longrightarrow> llm_for cb stop ps i tks gens =
     Some (case llm_call_loop cb stop (drop i ps) of (tk, r) \<Rightarrow> (tks @ tk, map_sum id (\<lambda>gs. gens @ gs) r))"
proof (induction "length ps - i" arbitrary: i tks gens)
  case 0
  then show ?case by (simp add: llm_for.simps)
next
  case (Suc n)
  then have i: "i < length ps" and n: "n = length ps - Suc i" by simp_all
  have d: "drop i ps = ps ! i # drop (Suc i) ps" using i by (rule Cons_nth_drop_Suc [symmetric])
  show ?case
  proof (cases "cb (ps ! i) stop")
    case (Pair tk r)
    then show ?thesis
      using Suc.hyps(1) [OF n] i
      by (cases r; cases "snd (llm_call_loop cb stop (drop (Suc i) ps))")
        (simp_all add: llm_for.simps [of cb stop ps i] d case_prod_beta)
  qed
qed

subsection \<open>Properties of the adapter\<close>

text \<open>C11. The adapter of class \<open>LLM\<close> calls \<open>_call\<close> once per prompt, in order: when every call
  resolves, the batch result has one single-candidate slot per prompt holding that call's text, no
  \<open>llmOutput\<close>, and the streamed tokens are those of the calls in order.\<close>

theorem LLM_generate_ok:
  assumes "\<forall>p\<in>set ps. snd (cb p stop) = Inr (f p)"
  shows "LLM_generate cb ps stop =
     (concat (map (\<lambda>p. fst (cb p stop)) ps),
      Inr \<lparr>generations = map (\<lambda>p. Some [\<lparr>gen_text = f p, generation_info = None\<rparr>]) ps,
           llm_output = None, run = None\<rparr>)"
  using llm_call_loop_ok [where cb = cb and stop = stop and ps = ps and f = f, OF assms]
  by (simp add: LLM_generate_def)

lemma LLM_generate_ok_witness:
  "snd (ex_call ''ab'' None) = Inr (rev ''ab'') \<and> snd (ex_call ''cd'' None) = Inr (rev ''cd'') \<and>
   LLM_generate ex_call [''ab'', ''cd''] None =
     ([''ab'', ''cd''], Inr \<lparr>generations = [Some [ex_gen ''ba''], Some [ex_gen ''dc'']], llm_output = None, run = None\<rparr>)"
  using LLM_generate_ok [of "[''ab'', ''cd'']" ex_call None rev]
  by (simp add: ex_call_def ex_gen_def)

text \<open>C12. The adapter stops at the first \<open>_call\<close> that rejects: the batch rejects with that error
  and the prompts after it are never sent.\<close>

theorem LLM_generate_error:
  assumes "\<forall>q\<in>set qs. snd (cb q stop) = Inr (f q)" and "snd (cb p stop) = Inl e"
  shows "LLM_generate cb (qs @ p # rs) stop = (concat (map (\<lambda>q. fst (cb q stop)) qs) @ fst (cb p stop), Inl e)"
  using llm_call_loop_error [where cb = cb and stop = stop and qs = qs and f = f and p = p and e = e and rs = rs, OF assms]
  by (simp add: LLM_generate_def)

lemma LLM_generate_error_witness:
  "snd (ex_call ''ab'' None) = Inr (rev ''ab'') \<and> snd (ex_call ''boom'' None) = Inl (BackendFailure ''boom'') \<and>
   LLM_generate ex_call [''ab'', ''boom'', ''cd''] None = ([''ab'', ''boom''], Inl (BackendFailure ''boom''))"
  using LLM_generate_error [of "[''ab'']" ex_call None rev "''boom''" "BackendFailure ''boom''" "[''cd'']"]
  by (simp add: ex_call_def)

text \<open>C13. The \<open>for\<close> loop of \<open>LLM._generate\<close> terminates for every prompt array and every
  \<open>_call\<close>, whether the calls resolve or reject: started at \<open>i = 0\<close> with an empty
  \<open>generations\<close> array it returns, and the backend \<open>LLM_generate\<close> returns exactly its
  tokens and its outcome, the array wrapped as \<open>{ generations }\<close>.\<close>

theorem llm_for_terminates:
  "\<exists>tks r. llm_for cb stop prompts 0 [] [] = Some (tks, r) \<and>
     LLM_generate cb prompts stop =
       (tks, map_sum id (\<lambda>gs. \<lparr>generations = map Some gs, llm_output = None, run = None\<rparr>) r)"
  using llm_for_drop [of 0 prompts cb stop "[]" "[]"]
  by (cases "snd (llm_call_loop cb stop prompts)") (simp_all add: LLM_generate_def case_prod_beta)

end
