(* ===== verification/Generate.thy ===== *)
theory Generate
  imports Adapter
begin

text \<open>
  The cached generation path of \<open>src/unnamed/part_000\<close>: \<open>BaseLLM.generate\<close> with its
  cache reconciliation (\<open>generate\<close>), \<open>call\<close> and \<open>generatePrompt\<close>, with \<open>call\<close> on the adapter of theory
  \<open>Adapter\<close>. The cache lookups of \<open>generate\<close> run concurrently; the order in which they
  resolve is the parameter \<open>ord\<close> (a permutation of the prompt indices), because the code
  pushes the index of each miss when its lookup resolves.
\<close>

subsection \<open>The cached path\<close>

text \<open>Lines 118--127: the lookups resolve in the order \<open>ord\<close>; each miss pushes its
  index; the first rejection rejects the whole batch.\<close>

fun lookup_missing :: "cache \<Rightarrow> string \<Rightarrow> string list \<Rightarrow> nat list \<Rightarrow> error + nat list" where
  "lookup_missing c key prompts [] = Inr []"
| "lookup_missing c key prompts (i # ixs) =
     (case cache_lookup c (prompts ! i) key of
        Inl e \<Rightarrow> Inl e
      | Inr None \<Rightarrow> map_sum id (Cons i) (lookup_missing c key prompts ixs)
      | Inr (Some _) \<Rightarrow> lookup_missing c key prompts ixs)"

text \<open>Line 139: \<open>generations[missingPromptIndices[index]] = generation\<close> for each returned
  slot; an index past the misses is \<open>undefined\<close> and changes no element.\<close>

fun splice :: "gen_slot list \<Rightarrow> nat list \<Rightarrow> gen_slot list \<Rightarrow> gen_slot list" where
  "splice gens (i # ixs) (g # gs) = splice (gens[i := g]) ixs gs"
| "splice gens _ _ = gens"

text \<open>Line 140: the prompt each returned slot is written under; \<open>prompts[undefined]\<close>
  is written as the string \<open>"undefined"\<close> by the cache.\<close>

fun write_targets :: "string list \<Rightarrow> nat list \<Rightarrow> gen_slot list \<Rightarrow> (string \<times> gen_slot) list" where
  "write_targets prompts (i # ixs) (g # gs) = (prompts ! i, g) # write_targets prompts ixs gs"
| "write_targets prompts [] (g # gs) = (''undefined'', g) # write_targets prompts [] gs"
| "write_targets prompts _ [] = []"

text \<open>Lines 136--142: all writes are started; the first rejection is reported.\<close>

fun cache_writes :: "cache \<Rightarrow> string \<Rightarrow> (string \<times> gen_slot) list \<Rightarrow> error option \<times> cache" where
  "cache_writes c key [] = (None, c)"
| "cache_writes c key ((p, g) # ws) =
     (case cache_update p key g c of
        (e, c1) \<Rightarrow> (case cache_writes c1 key ws of
                      (e', c2) \<Rightarrow> ((case e of Some _ \<Rightarrow> e | None \<Rightarrow> e'), c2)))"

text \<open>\<open>generate(prompts, stop, callbacks)\<close> (lines 100--147).\<close>

definition generate ::
  "base_llm \<Rightarrow> backend \<Rightarrow> nat list \<Rightarrow> prompts_arg \<Rightarrow> string list option \<Rightarrow> callbacks_arg \<Rightarrow> world \<Rightarrow>
     (error + llm_result) \<times> world" where
  "generate llm be ord pa stop cbs w =
     (case pa of
        NotAnArray v \<Rightarrow> (Inl (InvalidArgument ''Argument prompts is expected to be a string[]''), w)
      | PromptArray prompts \<Rightarrow>
          (case llm_cache llm of
             None \<Rightarrow> generateUncached llm be prompts stop cbs w
           | Some cref \<Rightarrow>
               (let c = w_caches w cref; key = llm_string_key llm stop;
                    gens = map (\<lambda>p. cache_get c p key) prompts
                in (case lookup_missing c key prompts ord of
                      Inl e \<Rightarrow> (Inl e, w)
                    | Inr missing \<Rightarrow>
                        (if missing = []
                         then (Inr \<lparr>generations = gens, llm_output = Some [], run = None\<rparr>, w)
                         else (case generateUncached llm be (map (\<lambda>i. prompts ! i) missing) stop cbs w of
                                 (Inl e, w1) \<Rightarrow> (Inl e, w1)
                               | (Inr res, w1) \<Rightarrow>
                                   (case cache_writes (w_caches w1 cref) key
                                           (write_targets prompts missing (generations res)) of
                                      (werr, c') \<Rightarrow>
                                        (case werr of
                                           Some e \<Rightarrow> (Inl e, w1\<lparr>w_caches := (w_caches w1)(cref := c')\<rparr>)
                                         | None \<Rightarrow>
                                             (Inr \<lparr>generations = splice gens missing (generations res),
                                                   llm_output = Some (nullish_or (llm_output res) []),
                                                   run = None\<rparr>,
                                              w1\<lparr>w_caches := (w_caches w1)(cref := c')\<rparr>)))))))))"

text \<open>\<open>call(prompt, stop, callbacks)\<close> (lines 152--159): \<open>generations[0][0].text\<close>, a
  \<open>TypeError\<close> when there is no first candidate. The single lookup resolves first.\<close>

definition call ::
  "base_llm \<Rightarrow> backend \<Rightarrow> string \<Rightarrow> string list option \<Rightarrow> callbacks_arg \<Rightarrow> world \<Rightarrow>
     (error + string) \<times> world" where
  "call llm be prompt stop cbs w =
     (case generate llm be [0] (PromptArray [prompt]) stop cbs w of
        (Inl e, w1) \<Rightarrow> (Inl e, w1)
      | (Inr r, w1) \<Rightarrow>
          (case generations r of
             Some (g # _) # _ \<Rightarrow> Inr (gen_text g)
           | _ \<Rightarrow> Inl (TypeError ''Cannot read properties of undefined''), w1))"

text \<open>\<open>generatePrompt(promptValues, stop, callbacks)\<close> (lines 49--58), for a
  \<open>toString\<close> of the prompt values.\<close>

definition generatePrompt ::
  "base_llm \<Rightarrow> backend \<Rightarrow> nat list \<Rightarrow> ('pv \<Rightarrow> string) \<Rightarrow> 'pv list \<Rightarrow> string list option \<Rightarrow>
     callbacks_arg \<Rightarrow> world \<Rightarrow> (error + llm_result) \<times> world" where
  "generatePrompt llm be ord to_str pvs stop cbs w =
     generate llm be ord (PromptArray (map to_str pvs)) stop cbs w"

subsection \<open>Predicates used by the properties\<close>

text \<open>\<open>ord\<close> lists every prompt index exactly once.\<close>

definition completion_order :: "nat \<Rightarrow> nat list \<Rightarrow> bool" where
  "completion_order n ord \<longleftrightarrow> sort ord = [0..<n]"

text \<open>No lookup of these prompts under this key fails.\<close>

definition lookups_ok :: "cache \<Rightarrow> string \<Rightarrow> string list \<Rightarrow> bool" where
  "lookups_ok c key ps \<longleftrightarrow> list_all (\<lambda>p. (p, key) \<notin> c_broken c) ps"

text \<open>Neither lookups nor writes of these prompts under this key fail.\<close>

definition cache_ok :: "cache \<Rightarrow> string \<Rightarrow> string list \<Rightarrow> bool" where
  "cache_ok c key ps \<longleftrightarrow> list_all (\<lambda>p. writable c p key) ps"

text \<open>A backend whose answer for a batch is one answer per prompt, independent of the
  other prompts of the batch (for the given stop list).\<close>

definition pointwise_backend :: "(string \<Rightarrow> generation list) \<Rightarrow> string list option \<Rightarrow> backend \<Rightarrow> bool" where
  "pointwise_backend f stop be \<longleftrightarrow>
     (\<forall>ps. case snd (be ps stop) of Inl _ \<Rightarrow> False | Inr r \<Rightarrow> generations r = map (\<lambda>p. Some (f p)) ps)"

text \<open>The abstract contract of the cached path: memoisation of \<open>f\<close> through the cache.\<close>

definition memo_slot :: "cache \<Rightarrow> string \<Rightarrow> (string \<Rightarrow> generation list) \<Rightarrow> string \<Rightarrow> gen_slot" where
  "memo_slot c key f p = (case cache_get c p key of None \<Rightarrow> Some (f p) | Some g \<Rightarrow> Some g)"

text \<open>The indices of the prompts whose lookups miss, in the order the lookups resolve:
  the \<open>missingPromptIndices\<close> array of lines 118--127 when no lookup rejects.\<close>

definition missed :: "cache \<Rightarrow> string \<Rightarrow> string list \<Rightarrow> nat list \<Rightarrow> nat list" where
  "missed c key ps ord = filter (\<lambda>i. cache_get c (ps ! i) key = None) ord"

subsection \<open>Example instances\<close>

definition ex_broken_world :: world where
  "ex_broken_world = ex_world\<lparr>w_caches := (\<lambda>_. ex_cache\<lparr>c_broken := {pk. fst pk = ''a''}\<rparr>)\<rparr>"

definition ex_short_backend :: backend where
  "ex_short_backend ps stop =
     ([], Inr \<lparr>generations = map (\<lambda>p. Some [ex_gen (rev p)]) (butlast ps), llm_output = None, run = None\<rparr>)"

definition ex_empty_backend :: backend where
  "ex_empty_backend ps stop = ([], Inr \<lparr>generations = map (\<lambda>p. Some []) ps, llm_output = None, run = None\<rparr>)"

definition ex_readonly_world :: world where
  "ex_readonly_world = ex_world\<lparr>w_caches := (\<lambda>_. ex_cache\<lparr>c_readonly := {pk. fst pk = ''ab''}\<rparr>)\<rparr>"

subsection \<open>Lemmas\<close>

lemma completion_order_iff:
  "completion_order n ord \<Longrightarrow> distinct ord \<and> set ord = {..<n}"
  unfolding completion_order_def
  by (metis atLeast_upt distinct_sort distinct_upt set_sort)

lemma lookup_missing_ok:
  "lookups_ok c key ps \<Longrightarrow> \<forall>i\<in>set ord. i < length ps \<Longrightarrow>
     lookup_missing c key ps ord = Inr (missed c key ps ord)"
  by (induction ord) (auto simp: missed_def lookups_ok_def list_all_iff split: option.split)

lemma cache_ok_lookups: "cache_ok c key ps \<Longrightarrow> lookups_ok c key ps"
  by (auto simp: cache_ok_def lookups_ok_def writable_def list_all_iff)

lemma lookup_missing_broken:
  "\<exists>i\<in>set ord. (ps ! i, key) \<in> c_broken c \<Longrightarrow> \<exists>p. lookup_missing c key ps ord = Inl (CacheFailure p)"
proof (induction ord)
  case Nil
  then show ?case by simp
next
  case (Cons a ord)
  show ?case
  proof (cases "(ps ! a, key) \<in> c_broken c")
    case True
    then show ?thesis by (simp add: cache_lookup_def)
  next
    case False
    with Cons.prems have "\<exists>i\<in>set ord. (ps ! i, key) \<in> c_broken c" by auto
    then obtain p where "lookup_missing c key ps ord = Inl (CacheFailure p)" using Cons.IH by blast
    with False show ?thesis by (simp add: split: option.split)
  qed
qed

lemma length_splice [simp]: "length (splice gens ixs gs) = length gens"
  by (induction gens ixs gs rule: splice.induct) auto

lemma splice_nth_out: "i \<notin> set ixs \<Longrightarrow> splice gens ixs gs ! i = gens ! i"
  by (induction gens ixs gs rule: splice.induct) auto

lemma splice_nth_in:
  "distinct ixs \<Longrightarrow> \<forall>i\<in>set ixs. i < length gens \<Longrightarrow> length gs = length ixs \<Longrightarrow> k < length ixs \<Longrightarrow>
     splice gens ixs gs ! (ixs ! k) = gs ! k"
proof (induction gens ixs gs arbitrary: k rule: splice.induct)
  case (1 gens i ixs g gs)
  show ?case
  proof (cases k)
    case 0
    with "1.prems" show ?thesis by (simp add: splice_nth_out)
  next
    case (Suc k')
    with "1.prems" "1.IH" [of k'] show ?thesis by simp
  qed
qed auto

text \<open>While the backend returns no more slots than there were misses, each slot is written
  under the prompt of its missed index, and the splice only touches the indices answered.\<close>

lemma write_targets_le:
  "length gs \<le> length ixs \<Longrightarrow> write_targets ps ixs gs = zip (map (\<lambda>i. ps ! i) ixs) gs"
  by (induction ps ixs gs rule: write_targets.induct) auto

lemma splice_take:
  "length gs \<le> length ixs \<Longrightarrow> splice gens ixs gs = splice gens (take (length gs) ixs) gs"
  by (induction gens ixs gs rule: splice.induct) auto

text \<open>All writes are performed; those of non-writable keys are skipped, and the first of
  them in list order is the error reported.\<close>

lemma cache_writes_partial:
  "fst (cache_writes c key ws) =
     (case filter (\<lambda>w. \<not> writable c (fst w) key) ws of [] \<Rightarrow> None | w # _ \<Rightarrow> Some (CacheFailure (fst w)))
   \<and> (\<forall>p k. cache_get (snd (cache_writes c key ws)) p k =
        (if k = key then (case map_of (rev (filter (\<lambda>w. writable c (fst w) key) ws)) p of
                            Some g \<Rightarrow> g | None \<Rightarrow> cache_get c p k)
         else cache_get c p k))"
proof (induction ws arbitrary: c)
  case Nil
  then show ?case by simp
next
  case (Cons w ws)
  obtain q g where w: "w = (q, g)" by (cases w)
  let ?c1 = "snd (cache_update q key g c)"
  have wr: "writable ?c1 = writable c" by simp
  note ih = Cons.IH [of ?c1, unfolded wr]
  show ?case
  proof (cases "writable c q key")
    case True
    then have "fst (cache_update q key g c) = None" by (simp add: cache_update_def)
    then have eq: "cache_writes c key ((q, g) # ws) = cache_writes ?c1 key ws"
      by (simp add: case_prod_beta prod_eq_iff)
    show ?thesis
      unfolding w eq using True ih by (auto simp: cache_get_update map_of_append split: option.split)
  next
    case False
    then have eq: "cache_writes c key ((q, g) # ws) = (Some (CacheFailure q), snd (cache_writes c key ws))"
      by (simp add: cache_update_def case_prod_beta)
    show ?thesis
      unfolding w eq using False Cons.IH [of c] by simp
  qed
qed

lemma cache_writes_ok:
  "list_all (\<lambda>w. writable c (fst w) key) ws \<Longrightarrow>
     fst (cache_writes c key ws) = None \<and>
     (\<forall>p k. cache_get (snd (cache_writes c key ws)) p k =
        (if k = key then (case map_of (rev ws) p of Some g \<Rightarrow> g | None \<Rightarrow> cache_get c p k)
         else cache_get c p k))"
proof -
  assume "list_all (\<lambda>w. writable c (fst w) key) ws"
  then have "filter (\<lambda>w. \<not> writable c (fst w) key) ws = []" "filter (\<lambda>w. writable c (fst w) key) ws = ws"
    by (auto simp: list_all_iff filter_empty_conv)
  then show ?thesis using cache_writes_partial [of c key ws] by simp
qed

lemma cache_writes_frame:
  assumes "p \<notin> fst ` set ws \<or> k \<noteq> key"
  shows "cache_get (snd (cache_writes c key ws)) p k = cache_get c p k"
proof -
  have "k = key \<Longrightarrow> map_of (rev (filter (\<lambda>w. writable c (fst w) key) ws)) p = None"
    using assms by (intro map_of_eq_None_iff [THEN iffD2]) auto
  then show ?thesis using cache_writes_partial [of c key ws, THEN conjunct2, rule_format, of p k] by auto
qed

lemma map_of_consistent:
  "\<forall>(q, g)\<in>set ws. g = h q \<Longrightarrow> map_of ws p = (if p \<in> fst ` set ws then Some (h p) else None)"
  by (induction ws) auto

lemma missed_props:
  assumes "completion_order (length ps) ord"
  shows "distinct (missed c key ps ord)" and "\<forall>i\<in>set (missed c key ps ord). i < length ps"
    and "i < length ps \<Longrightarrow> i \<in> set (missed c key ps ord) \<longleftrightarrow> cache_get c (ps ! i) key = None"
  using completion_order_iff [OF assms] by (auto simp: missed_def)

lemma write_keys:
  "length gs = length ixs \<Longrightarrow> fst ` set (rev (zip (map (\<lambda>i. ps ! i) ixs) gs)) = (\<lambda>i. ps ! i) ` set ixs"
  by (metis map_fst_zip length_map set_map set_rev)

lemma splice_pointwise:
  assumes "distinct ixs" and "\<forall>i\<in>set ixs. i < length gens" and "j < length gens"
  shows "splice gens ixs (map h ixs) ! j = (if j \<in> set ixs then h j else gens ! j)"
proof (cases "j \<in> set ixs")
  case True
  then obtain k where k: "k < length ixs" "ixs ! k = j" by (auto simp: in_set_conv_nth)
  have "splice gens ixs (map h ixs) ! (ixs ! k) = map h ixs ! k"
    using assms(1,2) k(1) by (intro splice_nth_in) auto
  with k True show ?thesis by simp
qed (simp add: splice_nth_out)

lemma pointwise_backend_result:
  "pointwise_backend f stop be \<Longrightarrow>
     \<exists>r. snd (be ps stop) = Inr r \<and> generations r = map (\<lambda>p. Some (f p)) ps"
  unfolding pointwise_backend_def by (erule allE [of _ ps]) (auto split: sum.splits)

lemma missed_writes_ok:
  assumes ok: "cache_ok c key ps" and ord: "completion_order (length ps) ord"
  shows "list_all (\<lambda>w'. writable c (fst w') key) (zip (map (\<lambda>i. ps ! i) (missed c key ps ord)) gs)"
  using ok missed_props(2) [OF ord, where c = c and key = key]
  by (auto simp: cache_ok_def list_all_iff set_zip)

lemma lookup_missing_missed:
  "lookups_ok c key ps \<Longrightarrow> completion_order (length ps) ord \<Longrightarrow>
     lookup_missing c key ps ord = Inr (missed c key ps ord)"
  using completion_order_iff by (simp add: lookup_missing_ok)

text \<open>The cached path with at least one miss, when the lookups succeed and the backend
  answers one slot per miss: the writes decide between the merged result and their error.\<close>

lemma generate_miss_general:
  assumes cache: "llm_cache llm = Some cref" and ord: "completion_order (length ps) ord"
    and lk: "lookups_ok (w_caches w cref) (llm_string_key llm stop) ps" and quiet: "sinks_quiet llm cbs"
    and M: "missed (w_caches w cref) (llm_string_key llm stop) ps ord \<noteq> []"
    and res: "snd (be (map (\<lambda>i. ps ! i) (missed (w_caches w cref) (llm_string_key llm stop) ps ord)) stop) = Inr res"
    and len: "length (generations res) \<le> length (missed (w_caches w cref) (llm_string_key llm stop) ps ord)"
  shows "generate llm be ord (PromptArray ps) stop cbs w =
     ((case fst (cache_writes (w_caches w cref) (llm_string_key llm stop)
                  (zip (map (\<lambda>i. ps ! i) (missed (w_caches w cref) (llm_string_key llm stop) ps ord)) (generations res))) of
         Some e \<Rightarrow> Inl e
       | None \<Rightarrow> Inr \<lparr>generations = splice (map (\<lambda>p. cache_get (w_caches w cref) p (llm_string_key llm stop)) ps)
                          (missed (w_caches w cref) (llm_string_key llm stop) ps ord) (generations res),
                      llm_output = Some (nullish_or (llm_output res) []), run = None\<rparr>),
      (snd (generateUncached llm be (map (\<lambda>i. ps ! i) (missed (w_caches w cref) (llm_string_key llm stop) ps ord)) stop cbs w))
        \<lparr>w_caches := (w_caches w)(cref := snd (cache_writes (w_caches w cref) (llm_string_key llm stop)
             (zip (map (\<lambda>i. ps ! i) (missed (w_caches w cref) (llm_string_key llm stop) ps ord)) (generations res))))\<rparr>)"
proof -
  let ?c = "w_caches w cref" and ?key = "llm_string_key llm stop"
  let ?M = "missed ?c ?key ps ord"
  obtain rid where gu: "fst (generateUncached llm be (map (\<lambda>i. ps ! i) ?M) stop cbs w) = Inr (res\<lparr>run := rid\<rparr>)"
    using generateUncached_quiet(1) [OF quiet, of be "map (\<lambda>i. ps ! i) ?M" stop w] res by auto
  show ?thesis
    using cache lookup_missing_missed [OF lk ord] M gu len
    by (simp add: generate_def Let_def case_prod_beta prod_eq_iff write_targets_le split: option.split)
qed

text \<open>The cached path with at least one miss and a backend that answers one slot per
  miss, in closed form.\<close>

lemma generate_miss_eq:
  assumes cache: "llm_cache llm = Some cref" and ord: "completion_order (length ps) ord"
    and ok: "cache_ok (w_caches w cref) (llm_string_key llm stop) ps" and quiet: "sinks_quiet llm cbs"
    and M: "missed (w_caches w cref) (llm_string_key llm stop) ps ord \<noteq> []"
    and res: "snd (be (map (\<lambda>i. ps ! i) (missed (w_caches w cref) (llm_string_key llm stop) ps ord)) stop) = Inr res"
    and len: "length (generations res) = length (missed (w_caches w cref) (llm_string_key llm stop) ps ord)"
  shows "generate llm be ord (PromptArray ps) stop cbs w =
     (Inr \<lparr>generations = splice (map (\<lambda>p. cache_get (w_caches w cref) p (llm_string_key llm stop)) ps)
                          (missed (w_caches w cref) (llm_string_key llm stop) ps ord) (generations res),
           llm_output = Some (nullish_or (llm_output res) []), run = None\<rparr>,
      (snd (generateUncached llm be (map (\<lambda>i. ps ! i) (missed (w_caches w cref) (llm_string_key llm stop) ps ord)) stop cbs w))
        \<lparr>w_caches := (w_caches w)(cref := snd (cache_writes (w_caches w cref) (llm_string_key llm stop)
             (zip (map (\<lambda>i. ps ! i) (missed (w_caches w cref) (llm_string_key llm stop) ps ord)) (generations res))))\<rparr>)"
  using generate_miss_general [where llm = llm and cref = cref and ps = ps and ord = ord and w = w
      and stop = stop and cbs = cbs and be = be and res = res, OF cache ord cache_ok_lookups [OF ok] quiet M res eq_imp_le [OF len]]
    cache_writes_ok [OF missed_writes_ok [OF ok ord], THEN conjunct1] by simp

lemma cache_writes_writable [simp]: "writable (snd (cache_writes c key ws)) = writable c"
  by (induction ws arbitrary: c) (auto simp: split_def)

text \<open>The writes of the cached path leave every hit and every other key alone, and give each
  missed prompt one of the slots returned for it.\<close>

lemma cache_writes_missed_frame:
  assumes ord: "completion_order (length ps) ord" and ok: "cache_ok c key ps"
    and len: "length gs = length (missed c key ps ord)"
    and h: "cache_get c p key \<noteq> None \<or> k \<noteq> key"
  shows "cache_get (snd (cache_writes c key (zip (map (\<lambda>i. ps ! i) (missed c key ps ord)) gs))) p k = cache_get c p k"
proof -
  let ?ws = "zip (map (\<lambda>i. ps ! i) (missed c key ps ord)) gs"
  note mp = missed_props [OF ord, where c = c and key = key]
  note cw = cache_writes_ok [OF missed_writes_ok [OF ok ord, where gs = gs], THEN conjunct2, rule_format]
  show ?thesis
  proof (cases "k = key")
    case True
    with h have "p \<notin> fst ` set (rev ?ws)"
      unfolding write_keys [OF len] using mp(2,3) by auto
    then have "map_of (rev ?ws) p = None" by (rule map_of_eq_None_iff [THEN iffD2])
    with True cw show ?thesis by simp
  next
    case False
    with cw show ?thesis by simp
  qed
qed

lemma cache_writes_missed_written:
  assumes len: "length gs = length (missed c key ps ord)" and k: "k < length (missed c key ps ord)"
    and wr: "writable c (ps ! (missed c key ps ord ! k)) key"
  shows "\<exists>k' < length (missed c key ps ord). ps ! (missed c key ps ord ! k') = ps ! (missed c key ps ord ! k) \<and>
     cache_get (snd (cache_writes c key (zip (map (\<lambda>i. ps ! i) (missed c key ps ord)) gs)))
       (ps ! (missed c key ps ord ! k)) key = gs ! k'"
proof -
  let ?M = "missed c key ps ord"
  let ?ws = "zip (map (\<lambda>i. ps ! i) ?M) gs"
  let ?fw = "filter (\<lambda>w. writable c (fst w) key) ?ws"
  note cw = cache_writes_partial [of c key ?ws, THEN conjunct2, rule_format]
  have "?ws ! k = (ps ! (?M ! k), gs ! k)" using k len by simp
  moreover have "?ws ! k \<in> set ?ws" using k len by (intro nth_mem) simp
  ultimately have "(ps ! (?M ! k), gs ! k) \<in> set ?fw" using wr by simp
  then have "ps ! (?M ! k) \<in> fst ` set (rev ?fw)" by force
  then obtain g where g: "map_of (rev ?fw) (ps ! (?M ! k)) = Some g"
    by (metis map_of_eq_None_iff option.exhaust)
  then have "(ps ! (?M ! k), g) \<in> set ?ws" by (auto dest: map_of_SomeD)
  then obtain k' where "k' < length ?M" "ps ! (?M ! k') = ps ! (?M ! k)" "g = gs ! k'"
    using len by (auto simp: in_set_zip)
  with g cw show ?thesis by auto
qed

lemma missed_writable:
  "cache_ok c key ps \<Longrightarrow> completion_order (length ps) ord \<Longrightarrow> k < length (missed c key ps ord) \<Longrightarrow>
     writable c (ps ! (missed c key ps ord ! k)) key"
  using missed_props(2) [of ps ord c key] by (auto simp: cache_ok_def list_all_iff)

text \<open>With the answers of a pointwise backend, the splice and the writes of the cached path
  both produce the memoised answer.\<close>

lemma splice_memo:
  assumes ord: "completion_order (length ps) ord"
  shows "splice (map (\<lambda>p. cache_get c p key) ps) (missed c key ps ord)
           (map (\<lambda>i. Some (f (ps ! i))) (missed c key ps ord)) = map (memo_slot c key f) ps"
proof (rule nth_equalityI)
  note mp = missed_props [OF ord, where c = c and key = key]
  fix j assume "j < length (splice (map (\<lambda>p. cache_get c p key) ps) (missed c key ps ord)
                 (map (\<lambda>i. Some (f (ps ! i))) (missed c key ps ord)))"
  then have j: "j < length ps" by simp
  show "splice (map (\<lambda>p. cache_get c p key) ps) (missed c key ps ord)
          (map (\<lambda>i. Some (f (ps ! i))) (missed c key ps ord)) ! j = map (memo_slot c key f) ps ! j"
    using j mp(1,2) mp(3) [OF j] by (auto simp: splice_pointwise memo_slot_def split: option.split)
qed simp

lemma cache_writes_memo:
  assumes ord: "completion_order (length ps) ord" and ok: "cache_ok c key ps" and p: "p \<in> set ps"
  shows "cache_get (snd (cache_writes c key (zip (map (\<lambda>i. ps ! i) (missed c key ps ord))
           (map (\<lambda>i. Some (f (ps ! i))) (missed c key ps ord))))) p key = memo_slot c key f p"
proof (cases "cache_get c p key")
  case None
  let ?ws = "zip (map (\<lambda>i. ps ! i) (missed c key ps ord)) (map (\<lambda>i. Some (f (ps ! i))) (missed c key ps ord))"
  note mp = missed_props [OF ord, where c = c and key = key]
  have cons: "\<forall>(q, g)\<in>set (rev ?ws). g = Some (f q)" by (auto simp: set_zip)
  from p obtain j where "j < length ps" "ps ! j = p" by (auto simp: in_set_conv_nth)
  moreover have "length (map (\<lambda>i. Some (f (ps ! i))) (missed c key ps ord)) = length (missed c key ps ord)"
    by simp
  ultimately have "p \<in> fst ` set (rev ?ws)" using None mp(3) by (auto simp only: write_keys)
  with None show ?thesis
    using cache_writes_ok [OF missed_writes_ok [OF ok ord], THEN conjunct2, rule_format]
      map_of_consistent [OF cons, of p] by (simp add: memo_slot_def)
next
  case (Some g)
  then show ?thesis
    using cache_writes_missed_frame [OF ord ok, of "map (\<lambda>i. Some (f (ps ! i))) (missed c key ps ord)" p key]
    by (simp add: memo_slot_def)
qed

text \<open>One call of the cached path with a pointwise backend: the memoised answers, the cache
  after it, and the one backend call it makes (none when every prompt hits).\<close>

lemma generate_pointwise:
  assumes cache: "llm_cache llm = Some cref" and ord: "completion_order (length ps) ord"
    and ok: "cache_ok (w_caches w cref) (llm_string_key llm stop) ps"
    and quiet: "sinks_quiet llm cbs" and pw: "pointwise_backend f stop be"
  defines "c \<equiv> w_caches w cref" and "key \<equiv> llm_string_key llm stop"
    and "w' \<equiv> snd (generate llm be ord (PromptArray ps) stop cbs w)"
  shows "map_sum id generations (fst (generate llm be ord (PromptArray ps) stop cbs w)) =
           Inr (map (memo_slot c key f) ps)"
    and "cache_get (w_caches w' cref) p k = (if k = key \<and> p \<in> set ps then memo_slot c key f p else cache_get c p k)"
    and "cr \<noteq> cref \<Longrightarrow> w_caches w' cr = w_caches w cr"
    and "writable (w_caches w' cref) = writable c"
    and "w_backend_calls w' = w_backend_calls w @
           (if missed c key ps ord = [] then [] else [(map (\<lambda>i. ps ! i) (missed c key ps ord), stop)])"
proof -
  let ?M = "missed c key ps ord"
  let ?w = "zip (map (\<lambda>i. ps ! i) ?M) (map (\<lambda>i. Some (f (ps ! i))) ?M)"
  note mp = missed_props [OF ord, where c = c and key = key]
  have out: "p \<notin> fst ` set ?w" if "p \<notin> set ps" for p
    using that mp(2) by (auto simp: set_zip)
  have "map_sum id generations (fst (generate llm be ord (PromptArray ps) stop cbs w)) =
           Inr (map (memo_slot c key f) ps) \<and>
        cache_get (w_caches w' cref) p k = (if k = key \<and> p \<in> set ps then memo_slot c key f p else cache_get c p k) \<and>
        (cr \<noteq> cref \<longrightarrow> w_caches w' cr = w_caches w cr) \<and> writable (w_caches w' cref) = writable c \<and>
        w_backend_calls w' = w_backend_calls w @ (if ?M = [] then [] else [(map (\<lambda>i. ps ! i) ?M, stop)])"
  proof (cases "?M = []")
    case True
    have hits: "memo_slot c key f q = cache_get c q key" if "q \<in> set ps" for q
      using that True mp(3) by (auto simp: in_set_conv_nth memo_slot_def split: option.split)
    have "generate llm be ord (PromptArray ps) stop cbs w =
            (Inr \<lparr>generations = map (\<lambda>p. cache_get c p key) ps, llm_output = Some [], run = None\<rparr>, w)"
      using True cache lookup_missing_missed [OF cache_ok_lookups [OF ok] ord] by (simp add: generate_def c_def key_def)
    then show ?thesis using True by (auto simp: w'_def hits intro!: map_cong) (simp_all add: c_def)
  next
    case False
    obtain r where r: "snd (be (map (\<lambda>i. ps ! i) ?M) stop) = Inr r"
      and gr: "generations r = map (\<lambda>i. Some (f (ps ! i))) ?M"
      using pointwise_backend_result [OF pw, of "map (\<lambda>i. ps ! i) ?M"] by auto
    have len: "length (generations r) = length ?M" by (simp add: gr)
    note eq = generate_miss_eq [where llm = llm and cref = cref and ps = ps and ord = ord and w = w
      and stop = stop and cbs = cbs and be = be and res = r, OF cache ord ok quiet False [unfolded c_def key_def] r [unfolded c_def key_def] len [unfolded c_def key_def]]
    have "cache_get (snd (cache_writes c key ?w)) p k = (if k = key \<and> p \<in> set ps then memo_slot c key f p else cache_get c p k)"
      using cache_writes_memo [OF ord ok [folded c_def key_def], of p f] cache_writes_frame [of p ?w k key c] out
      by auto
    then show ?thesis
      using eq splice_memo [OF ord] generateUncached_quiet(2) [OF quiet] False
      by (simp add: gr w'_def c_def key_def)
  qed
  then show "map_sum id generations (fst (generate llm be ord (PromptArray ps) stop cbs w)) =
           Inr (map (memo_slot c key f) ps)"
    and "cache_get (w_caches w' cref) p k = (if k = key \<and> p \<in> set ps then memo_slot c key f p else cache_get c p k)"
    and "cr \<noteq> cref \<Longrightarrow> w_caches w' cr = w_caches w cr"
    and "writable (w_caches w' cref) = writable c"
    and "w_backend_calls w' = w_backend_calls w @ (if ?M = [] then [] else [(map (\<lambda>i. ps ! i) ?M, stop)])"
    by blast+
qed

lemma map_sum_id_Inr: "map_sum id f x = Inr y \<longleftrightarrow> (\<exists>z. x = Inr z \<and> y = f z)"
  by (cases x) auto

text \<open>Whatever the order of the lookups, the indices pushed are those of the misses.\<close>

lemma lookup_missing_Inr:
  "lookup_missing c key ps xs = Inr M \<Longrightarrow> M = filter (\<lambda>i. cache_get c (ps ! i) key = None) xs"
  by (induction xs arbitrary: M) (auto simp: cache_lookup_def map_sum_id_Inr split: sum.splits option.splits if_splits)

text \<open>On the cached path with a miss, the backend invocations are those of the uncached
  path on the batch of misses, whatever the backend and the writes do.\<close>

lemma generate_backend_calls_miss:
  "llm_cache llm = Some cref \<Longrightarrow> lookup_missing (w_caches w cref) (llm_string_key llm stop) ps ord = Inr M \<Longrightarrow>
     M \<noteq> [] \<Longrightarrow> w_backend_calls (snd (generate llm be ord (PromptArray ps) stop cbs w)) =
       w_backend_calls (snd (generateUncached llm be (map (\<lambda>i. ps ! i) M) stop cbs w))"
  by (auto simp: generate_def Let_def case_prod_beta split: sum.split option.split)

text \<open>Whatever the order the lookups resolve in, the batch holds the missing prompts with
  their multiplicities.\<close>

lemma mset_missed:
  assumes "completion_order (length ps) ord"
  shows "mset (map (\<lambda>i. ps ! i) (missed c key ps ord)) = mset (filter (\<lambda>p. cache_get c p key = None) ps)"
proof -
  have "mset ord = mset [0..<length ps]"
    using assms unfolding completion_order_def by (metis mset_sort)
  then have "mset (map (\<lambda>i. ps ! i) (missed c key ps ord)) =
             mset (map (\<lambda>i. ps ! i) (filter (\<lambda>i. cache_get c (ps ! i) key = None) [0..<length ps]))"
    by (simp add: missed_def)
  also have "\<dots> = mset (filter (\<lambda>p. cache_get c p key = None) ps)"
    using filter_map [of "\<lambda>p. cache_get c p key = None" "\<lambda>i. ps ! i" "[0..<length ps]"]
    by (simp add: o_def map_nth)
  finally show ?thesis .
qed

lemma nth_not_in_take:
  "distinct xs \<Longrightarrow> k \<le> j \<Longrightarrow> j < length xs \<Longrightarrow> xs ! j \<notin> set (take k xs)"
  by (auto simp: in_set_conv_nth nth_eq_iff_index_eq)

text \<open>When every lookup succeeds and hits, \<open>generate\<close> answers from the cache and changes
  nothing.\<close>

lemma generate_hits:
  assumes "llm_cache llm = Some cref" and "completion_order (length ps) ord"
    and "lookups_ok (w_caches w cref) (llm_string_key llm stop) ps"
    and "list_all (\<lambda>p. cache_get (w_caches w cref) p (llm_string_key llm stop) \<noteq> None) ps"
  shows "generate llm be ord (PromptArray ps) stop cbs w =
           (Inr \<lparr>generations = map (\<lambda>p. cache_get (w_caches w cref) p (llm_string_key llm stop)) ps,
                 llm_output = Some [], run = None\<rparr>, w)"
proof -
  have "missed (w_caches w cref) (llm_string_key llm stop) ps ord = []"
    using assms(2,4) completion_order_iff [OF assms(2)]
    by (auto simp: missed_def list_all_iff filter_empty_conv)
  then show ?thesis
    using assms(1,3) completion_order_iff [OF assms(2)]
    by (simp add: generate_def lookup_missing_ok)
qed

lemma ex_order [simp]:
  "completion_order 3 [2, 0, 1]" "completion_order 3 [2, 0, Suc 0]"
  "completion_order (Suc (Suc (Suc 0))) [2, 0, Suc 0]"
  "completion_order 1 [0]" "completion_order (Suc 0) [0]"
  by (simp_all add: completion_order_def upt_rec)

subsection \<open>Properties of generate\<close>

text \<open>C5. Without a cache, \<open>generate\<close> is \<open>_generateUncached\<close> on the prompts as given. When no
  sink rejects, the caches are untouched, the backend is invoked once with the prompts in their
  order, and its outcome is returned unchecked (its slots as the backend returns them, whatever
  their number): with a coordinator, carrying as \<open>__run\<close> the id of the run whose start event,
  tokens and terminal event are emitted; without one, with no run id and no event.\<close>

theorem generate_without_cache:
  assumes "llm_cache llm = None" and "sinks_quiet llm cbs"
  shows "w_caches (snd (generate llm be ord (PromptArray ps) stop cbs w)) = w_caches w
         \<and> w_backend_calls (snd (generate llm be ord (PromptArray ps) stop cbs w)) = w_backend_calls w @ [(ps, stop)]
         \<and> (if has_sinks llm cbs
            then (\<exists>rid. fst (generate llm be ord (PromptArray ps) stop cbs w) =
                     (case snd (be ps stop) of Inl e \<Rightarrow> Inl e | Inr r \<Rightarrow> Inr (r\<lparr>run := Some rid\<rparr>))
                   \<and> n_emitted (snd (generate llm be ord (PromptArray ps) stop cbs w)) =
                       n_emitted w @ map (\<lambda>e. (rid, e))
                         (EvLLMStart (llmType llm) ps # map EvLLMNewToken (fst (be ps stop)) @
                          [case snd (be ps stop) of Inl e \<Rightarrow> EvLLMError e | Inr res \<Rightarrow> EvLLMEnd res]))
            else fst (generate llm be ord (PromptArray ps) stop cbs w) =
                     (case snd (be ps stop) of Inl e \<Rightarrow> Inl e | Inr r \<Rightarrow> Inr (r\<lparr>run := None\<rparr>))
                 \<and> n_emitted (snd (generate llm be ord (PromptArray ps) stop cbs w)) = n_emitted w)"
proof -
  have g: "generate llm be ord (PromptArray ps) stop cbs w = generateUncached llm be ps stop cbs w"
    using assms(1) by (simp add: generate_def)
  show ?thesis
    unfolding g using generateUncached_run [OF assms(2), of be ps stop w] generateUncached_quiet(2) [OF assms(2)]
    by simp
qed

lemma generate_without_cache_witness:
  "llm_cache (ex_llm\<lparr>llm_cache := None\<rparr>) = None \<and> sinks_quiet (ex_llm\<lparr>llm_cache := None\<rparr>) (HandlerList [ex_tracer]) \<and>
   w_caches (snd (generate (ex_llm\<lparr>llm_cache := None\<rparr>) ex_backend [0, 1] (PromptArray [''ab'', ''b'']) None
       (HandlerList [ex_tracer]) ex_world)) = w_caches ex_world \<and>
   w_backend_calls (snd (generate (ex_llm\<lparr>llm_cache := None\<rparr>) ex_backend [0, 1] (PromptArray [''ab'', ''b'']) None
       (HandlerList [ex_tracer]) ex_world)) = [([''ab'', ''b''], None)] \<and>
   (\<exists>rid. fst (generate (ex_llm\<lparr>llm_cache := None\<rparr>) ex_backend [0, 1] (PromptArray [''ab'', ''b'']) None
       (HandlerList [ex_tracer]) ex_world) =
     Inr \<lparr>generations = [Some [ex_gen ''ba''], Some [ex_gen ''b'']], llm_output = None, run = Some rid\<rparr> \<and>
     n_emitted (snd (generate (ex_llm\<lparr>llm_cache := None\<rparr>) ex_backend [0, 1] (PromptArray [''ab'', ''b'']) None
       (HandlerList [ex_tracer]) ex_world)) =
       [(rid, EvLLMStart ''openai'' [''ab'', ''b'']), (rid, EvLLMNewToken ''tok''),
        (rid, EvLLMEnd \<lparr>generations = [Some [ex_gen ''ba''], Some [ex_gen ''b'']], llm_output = None, run = None\<rparr>)])"
proof -
  have h: "llm_cache (ex_llm\<lparr>llm_cache := None\<rparr>) = None" "sinks_quiet (ex_llm\<lparr>llm_cache := None\<rparr>) (HandlerList [ex_tracer])"
      "has_sinks (ex_llm\<lparr>llm_cache := None\<rparr>) (HandlerList [ex_tracer])"
    using ex_sinks by (simp_all add: sinks_quiet_def has_sinks_def)
  show ?thesis
    using h generate_without_cache [OF h(1,2), of ex_backend "[0, 1]" "[''ab'', ''b'']" None ex_world]
    by (simp add: ex_backend_def ex_world_def)
qed

text \<open>C3. With a cache whose lookups succeed, when every prompt hits, \<open>generate\<close> answers
  from the cache alone, in prompt order, with an empty \<open>llmOutput\<close>, for every order in which
  the lookups resolve, and leaves the world unchanged: no backend call, no event, no write.\<close>

theorem generate_all_hits:
  assumes "llm_cache llm = Some cref" and "completion_order (length ps) ord"
    and "cache_ok (w_caches w cref) (llm_string_key llm stop) ps"
    and "list_all (\<lambda>p. cache_get (w_caches w cref) p (llm_string_key llm stop) \<noteq> None) ps"
  shows "generate llm be ord (PromptArray ps) stop cbs w =
           (Inr \<lparr>generations = map (\<lambda>p. cache_get (w_caches w cref) p (llm_string_key llm stop)) ps,
                 llm_output = Some [], run = None\<rparr>, w)"
  using generate_hits [OF assms(1,2) cache_ok_lookups [OF assms(3)] assms(4)] .

lemma generate_all_hits_witness:
  "llm_cache ex_llm = Some GlobalInMemoryCache \<and> completion_order 1 [0] \<and>
   cache_ok (w_caches ex_world GlobalInMemoryCache) (llm_string_key ex_llm None) [''b''] \<and>
   list_all (\<lambda>p. cache_get (w_caches ex_world GlobalInMemoryCache) p (llm_string_key ex_llm None) \<noteq> None) [''b''] \<and>
   generate ex_llm ex_backend [0] (PromptArray [''b'']) None (HandlerList [ex_tracer]) ex_world =
     (Inr \<lparr>generations = [Some [ex_gen ''B'']], llm_output = Some [], run = None\<rparr>, ex_world)"
  using generate_all_hits [of ex_llm GlobalInMemoryCache "[''b'']" "[0]" ex_world None ex_backend "HandlerList [ex_tracer]"]
  by (simp add: ex_world_def ex_cache_def cache_ok_def writable_def cache_get_def)

text \<open>C1. Refinement of the cached path: when the lookups and writes succeed, no sink rejects
  and the backend answers each prompt independently of its batch (\<open>f\<close>), \<open>generate\<close> returns,
  for every order in which the lookups resolve, the memoised answer of every prompt (the cached
  value on a hit, \<open>f\<close> of the prompt on a miss), and afterwards the cache holds that answer
  for every prompt under the call's key.\<close>

theorem generate_refines_memo:
  assumes cache: "llm_cache llm = Some cref" and ord: "completion_order (length ps) ord"
    and ok: "cache_ok (w_caches w cref) (llm_string_key llm stop) ps"
    and quiet: "sinks_quiet llm cbs" and pw: "pointwise_backend f stop be"
  shows "map_sum id generations (fst (generate llm be ord (PromptArray ps) stop cbs w)) =
           Inr (map (memo_slot (w_caches w cref) (llm_string_key llm stop) f) ps)
         \<and> list_all (\<lambda>p. cache_get (w_caches (snd (generate llm be ord (PromptArray ps) stop cbs w)) cref) p
                            (llm_string_key llm stop) = memo_slot (w_caches w cref) (llm_string_key llm stop) f p) ps"
  using generate_pointwise(1,2) [OF cache ord ok quiet pw] by (simp add: list_all_iff)

lemma generate_refines_memo_witness:
  "llm_cache ex_llm = Some GlobalInMemoryCache \<and> completion_order 3 [2, 0, 1] \<and>
   cache_ok (w_caches ex_world GlobalInMemoryCache) (llm_string_key ex_llm None) [''ab'', ''b'', ''cd''] \<and>
   sinks_quiet ex_llm (HandlerList [ex_tracer]) \<and> pointwise_backend (\<lambda>p. [ex_gen (rev p)]) None ex_backend \<and>
   map_sum id generations (fst (generate ex_llm ex_backend [2, 0, 1] (PromptArray [''ab'', ''b'', ''cd'']) None
       (HandlerList [ex_tracer]) ex_world)) =
     Inr [Some [ex_gen ''ba''], Some [ex_gen ''B''], Some [ex_gen ''dc'']] \<and>
   list_all (\<lambda>p. cache_get (w_caches (snd (generate ex_llm ex_backend [2, 0, 1] (PromptArray [''ab'', ''b'', ''cd'']) None
       (HandlerList [ex_tracer]) ex_world)) GlobalInMemoryCache) p (llm_string_key ex_llm None) = Some [ex_gen (rev p)])
     [''ab'', ''cd'']"
  using generate_refines_memo [of ex_llm GlobalInMemoryCache "[''ab'', ''b'', ''cd'']" "[2, 0, 1]" ex_world None
      "HandlerList [ex_tracer]" "\<lambda>p. [ex_gen (rev p)]" ex_backend]
  by (simp add: ex_world_def ex_cache_def cache_ok_def writable_def cache_get_def memo_slot_def
      pointwise_backend_def ex_backend_def)

text \<open>C2. With some misses, \<open>generate\<close> invokes the backend once, with the missed prompts in the
  order their lookups resolved, and returns one slot per prompt: the backend's k-th answer at the
  k-th missed index, the cached value at every hit.\<close>

theorem generate_partial_hits:
  assumes cache: "llm_cache llm = Some cref" and ord: "completion_order (length ps) ord"
    and ok: "cache_ok (w_caches w cref) (llm_string_key llm stop) ps" and quiet: "sinks_quiet llm cbs"
    and M: "missed (w_caches w cref) (llm_string_key llm stop) ps ord \<noteq> []"
    and res: "snd (be (map (\<lambda>i. ps ! i) (missed (w_caches w cref) (llm_string_key llm stop) ps ord)) stop) = Inr res"
    and len: "length (generations res) = length (missed (w_caches w cref) (llm_string_key llm stop) ps ord)"
  shows "w_backend_calls (snd (generate llm be ord (PromptArray ps) stop cbs w)) =
           w_backend_calls w @ [(map (\<lambda>i. ps ! i) (missed (w_caches w cref) (llm_string_key llm stop) ps ord), stop)]
         \<and> (\<exists>r. fst (generate llm be ord (PromptArray ps) stop cbs w) = Inr r \<and> length (generations r) = length ps
              \<and> (\<forall>k < length (missed (w_caches w cref) (llm_string_key llm stop) ps ord).
                   generations r ! (missed (w_caches w cref) (llm_string_key llm stop) ps ord ! k) = generations res ! k)
              \<and> (\<forall>i < length ps. cache_get (w_caches w cref) (ps ! i) (llm_string_key llm stop) \<noteq> None \<longrightarrow>
                   generations r ! i = cache_get (w_caches w cref) (ps ! i) (llm_string_key llm stop)))"
proof -
  let ?c = "w_caches w cref" and ?key = "llm_string_key llm stop"
  let ?M = "missed ?c ?key ps ord"
  note mp = missed_props [OF ord, where c = ?c and key = ?key]
  note eq = generate_miss_eq [where llm = llm and cref = cref and ps = ps and ord = ord and w = w and stop = stop
      and cbs = cbs and be = be and res = res, OF assms]
  have calls: "w_backend_calls (snd (generate llm be ord (PromptArray ps) stop cbs w)) =
      w_backend_calls w @ [(map (\<lambda>i. ps ! i) ?M, stop)]"
    using eq generateUncached_quiet(2) [OF quiet] by simp
  have "\<forall>k < length ?M. splice (map (\<lambda>p. cache_get ?c p ?key) ps) ?M (generations res) ! (?M ! k) = generations res ! k"
    using mp(1,2) len by (auto intro: splice_nth_in)
  moreover have "\<forall>i < length ps. cache_get ?c (ps ! i) ?key \<noteq> None \<longrightarrow>
      splice (map (\<lambda>p. cache_get ?c p ?key) ps) ?M (generations res) ! i = cache_get ?c (ps ! i) ?key"
    using mp(3) by (auto simp: splice_nth_out)
  ultimately show ?thesis using calls eq by simp
qed

lemma generate_partial_hits_witness:
  "llm_cache ex_llm = Some GlobalInMemoryCache \<and> completion_order 3 [2, 0, 1] \<and>
   cache_ok (w_caches ex_world GlobalInMemoryCache) (llm_string_key ex_llm None) [''ab'', ''b'', ''cd''] \<and>
   sinks_quiet ex_llm (HandlerList [ex_tracer]) \<and>
   missed (w_caches ex_world GlobalInMemoryCache) (llm_string_key ex_llm None) [''ab'', ''b'', ''cd''] [2, 0, 1] = [2, 0] \<and>
   snd (ex_backend [''cd'', ''ab''] None) =
     Inr \<lparr>generations = [Some [ex_gen ''dc''], Some [ex_gen ''ba'']], llm_output = None, run = None\<rparr> \<and>
   w_backend_calls (snd (generate ex_llm ex_backend [2, 0, 1] (PromptArray [''ab'', ''b'', ''cd'']) None
       (HandlerList [ex_tracer]) ex_world)) = [([''cd'', ''ab''], None)] \<and>
   (\<exists>r. fst (generate ex_llm ex_backend [2, 0, 1] (PromptArray [''ab'', ''b'', ''cd'']) None
       (HandlerList [ex_tracer]) ex_world) = Inr r \<and>
     generations r ! 0 = Some [ex_gen ''ba''] \<and> generations r ! 1 = Some [ex_gen ''B''] \<and>
     generations r ! 2 = Some [ex_gen ''dc''])"
  using generate_partial_hits [where llm = ex_llm and cref = GlobalInMemoryCache and ps = "[''ab'', ''b'', ''cd'']"
      and ord = "[2, 0, 1]" and w = ex_world and stop = None and cbs = "HandlerList [ex_tracer]" and be = ex_backend
      and res = "\<lparr>generations = [Some [ex_gen ''dc''], Some [ex_gen ''ba'']], llm_output = None, run = None\<rparr>"]
  by (simp add: ex_world_def ex_cache_def cache_ok_def writable_def cache_get_def missed_def ex_backend_def less_Suc_eq
     numeral_2_eq_2 completion_order_def upt_rec) auto

text \<open>C4. With some misses, \<open>generate\<close> changes only the model's cache and there only the entries
  of the missed prompts under the call's key; each missed prompt then holds the answer the backend
  gave for one of its occurrences among the misses (a prompt may repeat).\<close>

theorem generate_cache_writes:
  assumes cache: "llm_cache llm = Some cref" and ord: "completion_order (length ps) ord"
    and ok: "cache_ok (w_caches w cref) (llm_string_key llm stop) ps" and quiet: "sinks_quiet llm cbs"
    and M: "missed (w_caches w cref) (llm_string_key llm stop) ps ord \<noteq> []"
    and res: "snd (be (map (\<lambda>i. ps ! i) (missed (w_caches w cref) (llm_string_key llm stop) ps ord)) stop) = Inr res"
    and len: "length (generations res) = length (missed (w_caches w cref) (llm_string_key llm stop) ps ord)"
  shows "(\<forall>r'. r' \<noteq> cref \<longrightarrow> w_caches (snd (generate llm be ord (PromptArray ps) stop cbs w)) r' = w_caches w r')
         \<and> (\<forall>p k. cache_get (w_caches w cref) p (llm_string_key llm stop) \<noteq> None \<or> k \<noteq> llm_string_key llm stop \<longrightarrow>
              cache_get (w_caches (snd (generate llm be ord (PromptArray ps) stop cbs w)) cref) p k =
              cache_get (w_caches w cref) p k)
         \<and> (\<forall>k < length (missed (w_caches w cref) (llm_string_key llm stop) ps ord).
              \<exists>k' < length (missed (w_caches w cref) (llm_string_key llm stop) ps ord).
                ps ! (missed (w_caches w cref) (llm_string_key llm stop) ps ord ! k') =
                  ps ! (missed (w_caches w cref) (llm_string_key llm stop) ps ord ! k)
                \<and> cache_get (w_caches (snd (generate llm be ord (PromptArray ps) stop cbs w)) cref)
                    (ps ! (missed (w_caches w cref) (llm_string_key llm stop) ps ord ! k)) (llm_string_key llm stop)
                  = generations res ! k')"
proof -
  let ?c = "w_caches w cref" and ?key = "llm_string_key llm stop"
  note eq = generate_miss_eq [where llm = llm and cref = cref and ps = ps and ord = ord and w = w and stop = stop
      and cbs = cbs and be = be and res = res, OF assms]
  show ?thesis
    using eq cache_writes_missed_frame [OF ord ok len]
      cache_writes_missed_written [OF len _ missed_writable [OF ok ord]] by simp
qed

lemma generate_cache_writes_witness:
  "llm_cache ex_llm = Some GlobalInMemoryCache \<and> completion_order 3 [2, 0, 1] \<and>
   cache_ok (w_caches ex_world GlobalInMemoryCache) (llm_string_key ex_llm None) [''ab'', ''b'', ''cd''] \<and>
   sinks_quiet ex_llm (HandlerList [ex_tracer]) \<and>
   missed (w_caches ex_world GlobalInMemoryCache) (llm_string_key ex_llm None) [''ab'', ''b'', ''cd''] [2, 0, 1] = [2, 0] \<and>
   snd (ex_backend [''cd'', ''ab''] None) =
     Inr \<lparr>generations = [Some [ex_gen ''dc''], Some [ex_gen ''ba'']], llm_output = None, run = None\<rparr> \<and>
   cache_get (w_caches (snd (generate ex_llm ex_backend [2, 0, 1] (PromptArray [''ab'', ''b'', ''cd'']) None
       (HandlerList [ex_tracer]) ex_world)) GlobalInMemoryCache) ''cd'' (llm_string_key ex_llm None) = Some [ex_gen ''dc''] \<and>
   cache_get (w_caches (snd (generate ex_llm ex_backend [2, 0, 1] (PromptArray [''ab'', ''b'', ''cd'']) None
       (HandlerList [ex_tracer]) ex_world)) GlobalInMemoryCache) ''ab'' (llm_string_key ex_llm None) = Some [ex_gen ''ba''] \<and>
   cache_get (w_caches (snd (generate ex_llm ex_backend [2, 0, 1] (PromptArray [''ab'', ''b'', ''cd'']) None
       (HandlerList [ex_tracer]) ex_world)) GlobalInMemoryCache) ''b'' (llm_string_key ex_llm None) = Some [ex_gen ''B''] \<and>
   w_caches (snd (generate ex_llm ex_backend [2, 0, 1] (PromptArray [''ab'', ''b'', ''cd'']) None
       (HandlerList [ex_tracer]) ex_world)) (CacheObject 1) = ex_cache"
  using generate_cache_writes [where llm = ex_llm and cref = GlobalInMemoryCache and ps = "[''ab'', ''b'', ''cd'']"
      and ord = "[2, 0, 1]" and w = ex_world and stop = None and cbs = "HandlerList [ex_tracer]" and be = ex_backend
      and res = "\<lparr>generations = [Some [ex_gen ''dc''], Some [ex_gen ''ba'']], llm_output = None, run = None\<rparr>"]
  by (simp add: ex_world_def cache_ok_def writable_def missed_def ex_backend_def less_Suc_eq numeral_2_eq_2
      completion_order_def upt_rec) (auto simp: ex_cache_def cache_get_def)

text \<open>A prompt array that is not an array is rejected with
  \<open>Argument 'prompts' is expected to be a string[]\<close> before anything else happens.\<close>

lemma generate_not_an_array:
  "generate llm be ord (NotAnArray v) stop cbs w =
     (Inl (InvalidArgument ''Argument prompts is expected to be a string[]''), w)"
  by (simp add: generate_def)

text \<open>C18. When the cache rejects the lookup of some prompt, \<open>generate\<close> rejects with that cache
  error and the world is unchanged: no backend call, no event, no write.\<close>

theorem generate_cache_failure:
  assumes "llm_cache llm = Some cref" and "completion_order (length ps) ord"
    and "i < length ps" and "(ps ! i, llm_string_key llm stop) \<in> c_broken (w_caches w cref)"
  shows "\<exists>p. generate llm be ord (PromptArray ps) stop cbs w = (Inl (CacheFailure p), w)"
proof -
  from assms(2,3) have "i \<in> set ord" using completion_order_iff by auto
  with assms(4) obtain p where "lookup_missing (w_caches w cref) (llm_string_key llm stop) ps ord = Inl (CacheFailure p)"
    using lookup_missing_broken by blast
  with assms(1) show ?thesis by (simp add: generate_def)
qed

lemma generate_cache_failure_witness:
  "llm_cache ex_llm = Some GlobalInMemoryCache \<and> completion_order 3 [2, 0, 1] \<and> (0::nat) < length [''a'', ''b'', ''c''] \<and>
   ([''a'', ''b'', ''c''] ! 0, llm_string_key ex_llm None) \<in> c_broken (w_caches ex_broken_world GlobalInMemoryCache) \<and>
   (\<exists>p. generate ex_llm ex_backend [2, 0, 1] (PromptArray [''a'', ''b'', ''c'']) None NoCallbacks ex_broken_world =
      (Inl (CacheFailure p), ex_broken_world))"
  using generate_cache_failure [of ex_llm GlobalInMemoryCache "[''a'', ''b'', ''c'']" "[2, 0, 1]" 0 None ex_broken_world
      ex_backend NoCallbacks]
  by (simp add: ex_broken_world_def ex_world_def ex_cache_def)

text \<open>C19. When the lookups succeed but the cache rejects the write of one missed prompt,
  \<open>generate\<close> rejects with a cache failure after the backend ran once, and every other
  missed prompt whose write is accepted is still written with an answer the backend gave for
  it: one failing write does not block the others (specification, section 5).\<close>

theorem generate_write_failure:
  assumes cache: "llm_cache llm = Some cref" and ord: "completion_order (length ps) ord"
    and lk: "lookups_ok (w_caches w cref) (llm_string_key llm stop) ps" and quiet: "sinks_quiet llm cbs"
    and M: "missed (w_caches w cref) (llm_string_key llm stop) ps ord \<noteq> []"
    and res: "snd (be (map (\<lambda>i. ps ! i) (missed (w_caches w cref) (llm_string_key llm stop) ps ord)) stop) = Inr res"
    and len: "length (generations res) = length (missed (w_caches w cref) (llm_string_key llm stop) ps ord)"
    and j: "j \<in> set (missed (w_caches w cref) (llm_string_key llm stop) ps ord)"
    and ro: "\<not> writable (w_caches w cref) (ps ! j) (llm_string_key llm stop)"
  shows "(\<exists>q. fst (generate llm be ord (PromptArray ps) stop cbs w) = Inl (CacheFailure q))
         \<and> w_backend_calls (snd (generate llm be ord (PromptArray ps) stop cbs w)) =
             w_backend_calls w @ [(map (\<lambda>i. ps ! i) (missed (w_caches w cref) (llm_string_key llm stop) ps ord), stop)]
         \<and> (\<forall>k < length (missed (w_caches w cref) (llm_string_key llm stop) ps ord).
              writable (w_caches w cref) (ps ! (missed (w_caches w cref) (llm_string_key llm stop) ps ord ! k))
                (llm_string_key llm stop) \<longrightarrow>
              (\<exists>k' < length (missed (w_caches w cref) (llm_string_key llm stop) ps ord).
                ps ! (missed (w_caches w cref) (llm_string_key llm stop) ps ord ! k') =
                  ps ! (missed (w_caches w cref) (llm_string_key llm stop) ps ord ! k)
                \<and> cache_get (w_caches (snd (generate llm be ord (PromptArray ps) stop cbs w)) cref)
                    (ps ! (missed (w_caches w cref) (llm_string_key llm stop) ps ord ! k)) (llm_string_key llm stop)
                  = generations res ! k'))"
proof -
  let ?c = "w_caches w cref" and ?key = "llm_string_key llm stop"
  let ?M = "missed ?c ?key ps ord"
  let ?ws = "zip (map (\<lambda>i. ps ! i) ?M) (generations res)"
  note eq = generate_miss_general [where llm = llm and cref = cref and ps = ps and ord = ord and w = w
      and stop = stop and cbs = cbs and be = be and res = res, OF cache ord lk quiet M res eq_imp_le [OF len]]
  from j obtain k where k: "k < length ?M" "?M ! k = j" by (auto simp: in_set_conv_nth)
  have "?ws ! k = (ps ! j, generations res ! k)" using k len by simp
  moreover have "?ws ! k \<in> set ?ws" using k len by (intro nth_mem) simp
  ultimately have "filter (\<lambda>w. \<not> writable ?c (fst w) ?key) ?ws \<noteq> []" using ro by (force simp: filter_empty_conv)
  then obtain q where "fst (cache_writes ?c ?key ?ws) = Some (CacheFailure q)"
    using cache_writes_partial [of ?c ?key ?ws] by (auto split: list.splits)
  then show ?thesis
    using eq generateUncached_quiet(2) [OF quiet] cache_writes_missed_written [OF len] by simp
qed

lemma generate_write_failure_witness:
  "llm_cache ex_llm = Some GlobalInMemoryCache \<and> completion_order 3 [2, 0, 1] \<and>
   lookups_ok (w_caches ex_readonly_world GlobalInMemoryCache) (llm_string_key ex_llm None) [''ab'', ''b'', ''cd''] \<and>
   sinks_quiet ex_llm NoCallbacks \<and>
   missed (w_caches ex_readonly_world GlobalInMemoryCache) (llm_string_key ex_llm None) [''ab'', ''b'', ''cd''] [2, 0, 1] = [2, 0] \<and>
   snd (ex_backend [''cd'', ''ab''] None) =
     Inr \<lparr>generations = [Some [ex_gen ''dc''], Some [ex_gen ''ba'']], llm_output = None, run = None\<rparr> \<and>
   \<not> writable (w_caches ex_readonly_world GlobalInMemoryCache) ''ab'' (llm_string_key ex_llm None) \<and>
   (\<exists>q. fst (generate ex_llm ex_backend [2, 0, 1] (PromptArray [''ab'', ''b'', ''cd'']) None NoCallbacks ex_readonly_world)
      = Inl (CacheFailure q)) \<and>
   w_backend_calls (snd (generate ex_llm ex_backend [2, 0, 1] (PromptArray [''ab'', ''b'', ''cd'']) None NoCallbacks
     ex_readonly_world)) = [([''cd'', ''ab''], None)] \<and>
   cache_get (w_caches (snd (generate ex_llm ex_backend [2, 0, 1] (PromptArray [''ab'', ''b'', ''cd'']) None NoCallbacks
     ex_readonly_world)) GlobalInMemoryCache) ''cd'' (llm_string_key ex_llm None) = Some [ex_gen ''dc'']"
  using generate_write_failure [where llm = ex_llm and cref = GlobalInMemoryCache and ps = "[''ab'', ''b'', ''cd'']"
      and ord = "[2, 0, 1]" and w = ex_readonly_world and stop = None and cbs = NoCallbacks and be = ex_backend
      and res = "\<lparr>generations = [Some [ex_gen ''dc''], Some [ex_gen ''ba'']], llm_output = None, run = None\<rparr>"
      and j = 0]
  by (simp add: ex_readonly_world_def ex_world_def lookups_ok_def writable_def missed_def ex_backend_def
      less_Suc_eq numeral_2_eq_2 completion_order_def upt_rec) (auto simp: ex_cache_def cache_get_def)

text \<open>C32. On the cached path the result never carries a run id: \<open>generate\<close> rebuilds the
  output from \<open>generations\<close> and \<open>llmOutput\<close> only.\<close>

theorem generate_cached_drops_run:
  assumes "llm_cache llm = Some cref" and "fst (generate llm be ord (PromptArray ps) stop cbs w) = Inr r"
  shows "run r = None"
  using assms
  by (auto simp: generate_def Let_def case_prod_beta split: sum.splits if_splits option.splits)

lemma generate_cached_drops_run_witness:
  "llm_cache ex_llm = Some GlobalInMemoryCache \<and>
   fst (generate ex_llm ex_backend [0] (PromptArray [''b'']) None NoCallbacks ex_world) =
     Inr \<lparr>generations = [Some [ex_gen ''B'']], llm_output = Some [], run = None\<rparr> \<and>
   run \<lparr>generations = [Some [ex_gen ''B'']], llm_output = Some [], run = None\<rparr> = None"
  using generate_cached_drops_run [of ex_llm GlobalInMemoryCache ex_backend "[0]" "[''b'']" None NoCallbacks ex_world
      "\<lparr>generations = [Some [ex_gen ''B'']], llm_output = Some [], run = None\<rparr>"]
  by (simp add: ex_world_def ex_cache_def generate_def cache_lookup_def cache_get_def)

subsection \<open>Properties of call and of the adapter\<close>

text \<open>C10. Without a cache and with no rejecting sink, \<open>call\<close> on a model built on the \<open>LLM\<close>
  adapter returns exactly what its \<open>_call\<close> returns for the prompt, or rejects with its error.\<close>

theorem call_LLM_adapter:
  assumes "llm_cache llm = None" and "sinks_quiet llm cbs"
  shows "fst (call llm (LLM_generate cb) p stop cbs w) = snd (cb p stop)"
proof (cases "snd (cb p stop)")
  case (Inl e)
  then have "snd (LLM_generate cb [p] stop) = Inl e"
    using llm_call_loop_error [of "[]" cb stop undefined p e "[]"] by (simp add: LLM_generate_def)
  then show ?thesis
    using assms generateUncached_quiet(1) [OF assms(2), of "LLM_generate cb" "[p]" stop w] Inl
    by (auto simp: call_def generate_def case_prod_beta)
next
  case (Inr t)
  then have "snd (LLM_generate cb [p] stop) =
      Inr \<lparr>generations = [Some [\<lparr>gen_text = t, generation_info = None\<rparr>]], llm_output = None, run = None\<rparr>"
    using llm_call_loop_ok [of "[p]" cb stop "\<lambda>_. t"] by (simp add: LLM_generate_def)
  then show ?thesis
    using assms generateUncached_quiet(1) [OF assms(2), of "LLM_generate cb" "[p]" stop w] Inr
    by (auto simp: call_def generate_def case_prod_beta)
qed

lemma call_LLM_adapter_witness:
  "llm_cache (ex_llm\<lparr>llm_cache := None\<rparr>) = None \<and> sinks_quiet (ex_llm\<lparr>llm_cache := None\<rparr>) NoCallbacks \<and>
   fst (call (ex_llm\<lparr>llm_cache := None\<rparr>) (LLM_generate ex_call) ''abc'' None NoCallbacks ex_world) = Inr ''cba''"
  using call_LLM_adapter [of "ex_llm\<lparr>llm_cache := None\<rparr>" NoCallbacks ex_call "''abc''" None ex_world]
  by (simp add: ex_call_def sinks_quiet_def)

text \<open>C33. \<open>call\<close> rejects with a \<open>TypeError\<close> when the first slot of the result has no
  candidate: \<open>generations[0][0]\<close> is undefined and its \<open>text\<close> cannot be read.\<close>

theorem call_empty_candidates:
  assumes "llm_cache llm = None" and "sinks_quiet llm cbs"
    and "snd (be [p] stop) = Inr r" and "generations r = Some [] # gs"
  shows "fst (call llm be p stop cbs w) = Inl (TypeError ''Cannot read properties of undefined'')"
  using assms generateUncached_quiet(1) [OF assms(2), of be "[p]" stop w]
  by (auto simp: call_def generate_def case_prod_beta)

lemma call_empty_candidates_witness:
  "llm_cache (ex_llm\<lparr>llm_cache := None\<rparr>) = None \<and> sinks_quiet (ex_llm\<lparr>llm_cache := None\<rparr>) NoCallbacks \<and>
   snd (ex_empty_backend [''ab''] None) = Inr \<lparr>generations = [Some []], llm_output = None, run = None\<rparr> \<and>
   generations \<lparr>generations = [Some []], llm_output = None, run = None\<rparr> = Some [] # [] \<and>
   fst (call (ex_llm\<lparr>llm_cache := None\<rparr>) ex_empty_backend ''ab'' None NoCallbacks ex_world) =
     Inl (TypeError ''Cannot read properties of undefined'')"
  using call_empty_candidates [of "ex_llm\<lparr>llm_cache := None\<rparr>" NoCallbacks ex_empty_backend "''ab''" None
      "\<lparr>generations = [Some []], llm_output = None, run = None\<rparr>" "[]" ex_world]
  by (simp add: ex_empty_backend_def sinks_quiet_def)

subsection \<open>Shape and bounds of the cached path\<close>

text \<open>C21. One slot per prompt: on the cached path every result of \<open>generate\<close> has exactly one
  slot per prompt, in prompt order, whatever the backend returns and in whatever order the
  lookups resolve (the invariant of \<open>GenerationResult\<close>, specification section 3).\<close>

theorem generate_result_length:
  assumes "llm_cache llm = Some cref" and "fst (generate llm be ord (PromptArray ps) stop cbs w) = Inr r"
  shows "length (generations r) = length ps"
  using assms
  by (auto simp: generate_def Let_def case_prod_beta split: sum.splits if_splits option.splits)

lemma generate_result_length_witness:
  "llm_cache ex_llm = Some GlobalInMemoryCache \<and>
   fst (generate ex_llm ex_backend [0] (PromptArray [''b'']) None NoCallbacks ex_world) =
     Inr \<lparr>generations = [Some [ex_gen ''B'']], llm_output = Some [], run = None\<rparr> \<and>
   length (generations \<lparr>generations = [Some [ex_gen ''B'']], llm_output = Some [], run = None\<rparr>) = length [''b'']"
  using generate_result_length [of ex_llm GlobalInMemoryCache ex_backend "[0]" "[''b'']" None NoCallbacks ex_world
      "\<lparr>generations = [Some [ex_gen ''B'']], llm_output = Some [], run = None\<rparr>"]
  by (simp add: ex_world_def ex_cache_def generate_def cache_lookup_def cache_get_def)

text \<open>C24. The indices the lookups push are valid and unique: when every lookup resolves and
  the lookups resolve in some order of the prompts, \<open>missingPromptIndices\<close> lists distinct
  indices below the number of prompts (so \<open>prompts[i]\<close> is never read out of range and the
  backend receives at most one entry per prompt), exactly the indices whose prompt misses.\<close>

theorem lookup_missing_bounds:
  assumes "lookup_missing c key ps ord = Inr M" and "completion_order (length ps) ord"
  shows "distinct M \<and> set M \<subseteq> {..<length ps} \<and> length M \<le> length ps
         \<and> set M = {i. i < length ps \<and> cache_get c (ps ! i) key = None}"
proof -
  from assms(1) have M: "M = missed c key ps ord" unfolding missed_def by (rule lookup_missing_Inr)
  note mp = missed_props [OF assms(2), where c = c and key = key]
  have "length M \<le> length ord" by (simp add: M missed_def)
  moreover have "length ord = length ps"
    using completion_order_iff [OF assms(2)] by (metis distinct_card card_lessThan)
  ultimately show ?thesis using mp by (auto simp: M)
qed

lemma lookup_missing_bounds_witness:
  "lookup_missing ex_cache (llm_string_key ex_llm None) [''ab'', ''b'', ''cd''] [2, 0, 1] = Inr [2, 0] \<and>
   completion_order 3 [2, 0, 1] \<and>
   distinct [2::nat, 0] \<and> set [2::nat, 0] \<subseteq> {..<length [''ab'', ''b'', ''cd'']} \<and>
   length [2::nat, 0] \<le> length [''ab'', ''b'', ''cd''] \<and>
   set [2::nat, 0] = {i. i < length [''ab'', ''b'', ''cd''] \<and>
     cache_get ex_cache ([''ab'', ''b'', ''cd''] ! i) (llm_string_key ex_llm None) = None}"
  using lookup_missing_bounds [of ex_cache "llm_string_key ex_llm None" "[''ab'', ''b'', ''cd'']" "[2, 0, 1]" "[2, 0]"]
  by (simp add: ex_cache_def cache_lookup_def cache_get_def) auto

text \<open>C20. When the backend rejects on the cached path and no sink rejects, \<open>generate\<close>
  rejects with the backend's own error after one backend call with the misses, and no cache
  entry is written.\<close>

theorem generate_backend_error_cached:
  assumes cache: "llm_cache llm = Some cref" and ord: "completion_order (length ps) ord"
    and lk: "lookups_ok (w_caches w cref) (llm_string_key llm stop) ps" and quiet: "sinks_quiet llm cbs"
    and M: "missed (w_caches w cref) (llm_string_key llm stop) ps ord \<noteq> []"
    and err: "snd (be (map (\<lambda>i. ps ! i) (missed (w_caches w cref) (llm_string_key llm stop) ps ord)) stop) = Inl e"
  shows "fst (generate llm be ord (PromptArray ps) stop cbs w) = Inl e
         \<and> w_caches (snd (generate llm be ord (PromptArray ps) stop cbs w)) = w_caches w
         \<and> w_backend_calls (snd (generate llm be ord (PromptArray ps) stop cbs w)) =
             w_backend_calls w @ [(map (\<lambda>i. ps ! i) (missed (w_caches w cref) (llm_string_key llm stop) ps ord), stop)]"
proof -
  let ?B = "map (\<lambda>i. ps ! i) (missed (w_caches w cref) (llm_string_key llm stop) ps ord)"
  have "fst (generateUncached llm be ?B stop cbs w) = Inl e"
    using generateUncached_quiet(1) [OF quiet, of be ?B stop w] err by auto
  then have "generate llm be ord (PromptArray ps) stop cbs w = (Inl e, snd (generateUncached llm be ?B stop cbs w))"
    using cache lookup_missing_missed [OF lk ord] M
    by (simp add: generate_def Let_def case_prod_beta prod_eq_iff split: sum.split)
  then show ?thesis using generateUncached_quiet(2) [OF quiet] by simp
qed

lemma generate_backend_error_cached_witness:
  "llm_cache ex_llm = Some GlobalInMemoryCache \<and> completion_order 1 [0] \<and>
   lookups_ok (w_caches ex_world GlobalInMemoryCache) (llm_string_key ex_llm None) [''ab''] \<and>
   sinks_quiet ex_llm NoCallbacks \<and>
   missed (w_caches ex_world GlobalInMemoryCache) (llm_string_key ex_llm None) [''ab''] [0] = [0] \<and>
   snd (ex_failing_backend [''ab''] None) = Inl (BackendFailure ''rate limited'') \<and>
   fst (generate ex_llm ex_failing_backend [0] (PromptArray [''ab'']) None NoCallbacks ex_world) =
     Inl (BackendFailure ''rate limited'') \<and>
   w_caches (snd (generate ex_llm ex_failing_backend [0] (PromptArray [''ab'']) None NoCallbacks ex_world)) =
     w_caches ex_world"
  using generate_backend_error_cached [where llm = ex_llm and cref = GlobalInMemoryCache and ps = "[''ab'']"
      and ord = "[0]" and w = ex_world and stop = None and cbs = NoCallbacks and be = ex_failing_backend
      and e = "BackendFailure ''rate limited''"]
  by (simp add: ex_world_def ex_cache_def lookups_ok_def missed_def cache_get_def ex_failing_backend_def)

text \<open>C22. Misses are not deduplicated within a batch: when the lookups succeed, some prompt
  misses and no sink rejects, \<open>generate\<close> invokes the backend exactly once, for any backend and
  in whatever order the lookups resolve, with the missing prompts counted with their
  multiplicity (a prompt listed twice and missing is sent twice).\<close>

theorem generate_batch_multiplicity:
  assumes cache: "llm_cache llm = Some cref" and ord: "completion_order (length ps) ord"
    and lk: "lookups_ok (w_caches w cref) (llm_string_key llm stop) ps" and quiet: "sinks_quiet llm cbs"
    and miss: "list_ex (\<lambda>p. cache_get (w_caches w cref) p (llm_string_key llm stop) = None) ps"
  shows "\<exists>batch. w_backend_calls (snd (generate llm be ord (PromptArray ps) stop cbs w)) =
             w_backend_calls w @ [(batch, stop)]
           \<and> mset batch = mset (filter (\<lambda>p. cache_get (w_caches w cref) p (llm_string_key llm stop) = None) ps)"
proof -
  let ?M = "missed (w_caches w cref) (llm_string_key llm stop) ps ord"
  have "filter (\<lambda>p. cache_get (w_caches w cref) p (llm_string_key llm stop) = None) ps \<noteq> []"
    using miss by (auto simp: list_ex_iff filter_empty_conv)
  moreover have "filter (\<lambda>p. cache_get (w_caches w cref) p (llm_string_key llm stop) = None) ps = []" if "?M = []"
  proof -
    have "mset (filter (\<lambda>p. cache_get (w_caches w cref) p (llm_string_key llm stop) = None) ps) = {#}"
      using that mset_missed [OF ord, where c = "w_caches w cref" and key = "llm_string_key llm stop"] by simp
    then show ?thesis by simp
  qed
  ultimately have M: "?M \<noteq> []" by blast
  show ?thesis
    using generate_backend_calls_miss [OF cache lookup_missing_missed [OF lk ord] M] generateUncached_quiet(2) [OF quiet]
      mset_missed [OF ord] by auto
qed

lemma generate_batch_multiplicity_witness:
  "llm_cache ex_llm = Some GlobalInMemoryCache \<and> completion_order 3 [2, 0, 1] \<and>
   lookups_ok (w_caches ex_world GlobalInMemoryCache) (llm_string_key ex_llm None) [''ab'', ''b'', ''ab''] \<and>
   sinks_quiet ex_llm NoCallbacks \<and>
   list_ex (\<lambda>p. cache_get (w_caches ex_world GlobalInMemoryCache) p (llm_string_key ex_llm None) = None) [''ab'', ''b'', ''ab''] \<and>
   (\<exists>batch. w_backend_calls (snd (generate ex_llm ex_backend [2, 0, 1] (PromptArray [''ab'', ''b'', ''ab'']) None NoCallbacks ex_world)) =
      [(batch, None)] \<and> mset batch = {#''ab'', ''ab''#})"
proof -
  have h: "llm_cache ex_llm = Some GlobalInMemoryCache" "completion_order (length [''ab'', ''b'', ''ab'']) [2, 0, 1]"
      "lookups_ok (w_caches ex_world GlobalInMemoryCache) (llm_string_key ex_llm None) [''ab'', ''b'', ''ab'']"
      "sinks_quiet ex_llm NoCallbacks"
      "list_ex (\<lambda>p. cache_get (w_caches ex_world GlobalInMemoryCache) p (llm_string_key ex_llm None) = None) [''ab'', ''b'', ''ab'']"
    by (simp_all add: lookups_ok_def ex_world_def ex_cache_def cache_get_def completion_order_def)
  show ?thesis
    using h generate_batch_multiplicity [OF h, of ex_backend]
    by (simp add: ex_world_def ex_cache_def cache_get_def)
qed

text \<open>C23. A backend that answers fewer slots than there were misses leaves holes: when the
  lookups and writes succeed, no sink rejects and the prompts are distinct, \<open>generate\<close> still
  resolves with one slot per prompt, but every missed index past the backend's last answer holds
  an undefined slot, and its prompt stays uncached.\<close>

theorem generate_short_backend:
  assumes cache: "llm_cache llm = Some cref" and ord: "completion_order (length ps) ord"
    and ok: "cache_ok (w_caches w cref) (llm_string_key llm stop) ps" and quiet: "sinks_quiet llm cbs"
    and dps: "distinct ps" and M: "missed (w_caches w cref) (llm_string_key llm stop) ps ord \<noteq> []"
    and res: "snd (be (map (\<lambda>i. ps ! i) (missed (w_caches w cref) (llm_string_key llm stop) ps ord)) stop) = Inr r"
    and short: "length (generations r) \<le> length (missed (w_caches w cref) (llm_string_key llm stop) ps ord)"
  shows "\<exists>res'. fst (generate llm be ord (PromptArray ps) stop cbs w) = Inr res' \<and> length (generations res') = length ps
           \<and> (\<forall>j. length (generations r) \<le> j \<and> j < length (missed (w_caches w cref) (llm_string_key llm stop) ps ord) \<longrightarrow>
                  generations res' ! (missed (w_caches w cref) (llm_string_key llm stop) ps ord ! j) = None
                \<and> cache_get (w_caches (snd (generate llm be ord (PromptArray ps) stop cbs w)) cref)
                    (ps ! (missed (w_caches w cref) (llm_string_key llm stop) ps ord ! j)) (llm_string_key llm stop) = None)"
proof -
  let ?c = "w_caches w cref" and ?key = "llm_string_key llm stop"
  let ?M = "missed ?c ?key ps ord" and ?gs = "generations r"
  let ?ws = "zip (map (\<lambda>i. ps ! i) ?M) ?gs"
  note mp = missed_props [OF ord, where c = ?c and key = ?key]
  note eq = generate_miss_general [where llm = llm and cref = cref and ps = ps and ord = ord and w = w
      and stop = stop and cbs = cbs and be = be and res = r, OF cache ord cache_ok_lookups [OF ok] quiet M res short]
  note cw = cache_writes_ok [OF missed_writes_ok [OF ok ord, where gs = ?gs], THEN conjunct1]
  have hole: "splice (map (\<lambda>p. cache_get ?c p ?key) ps) ?M ?gs ! (?M ! j) = None
      \<and> cache_get (snd (cache_writes ?c ?key ?ws)) (ps ! (?M ! j)) ?key = None"
    if j: "length ?gs \<le> j" "j < length ?M" for j
  proof -
    have out: "?M ! j \<notin> set (take (length ?gs) ?M)" using nth_not_in_take [OF mp(1) j] .
    have lt: "?M ! j < length ps" using mp(2) j(2) by auto
    have miss: "cache_get ?c (ps ! (?M ! j)) ?key = None" using mp(3) [OF lt] j(2) by auto
    have "map fst ?ws = map (\<lambda>i. ps ! i) (take (length ?gs) ?M)"
      using short by (simp add: map_fst_zip_take take_map min_absorb2)
    then have fw: "fst ` set ?ws = (\<lambda>i. ps ! i) ` set (take (length ?gs) ?M)" by (metis set_map)
    have "ps ! (?M ! j) \<notin> fst ` set ?ws"
    proof
      assume "ps ! (?M ! j) \<in> fst ` set ?ws"
      then obtain i where "i \<in> set (take (length ?gs) ?M)" "ps ! i = ps ! (?M ! j)"
        unfolding fw by auto
      moreover have "i < length ps" using calculation(1) mp(2) by (auto dest: in_set_takeD)
      ultimately show False using out lt dps by (auto simp: nth_eq_iff_index_eq)
    qed
    then show ?thesis
      using splice_take [OF short, of "map (\<lambda>p. cache_get ?c p ?key) ps"] splice_nth_out [OF out] lt miss
        cache_writes_frame [of "ps ! (?M ! j)" ?ws ?key ?key ?c] by simp
  qed
  show ?thesis using eq cw hole by simp
qed

lemma generate_short_backend_witness:
  "llm_cache ex_llm = Some GlobalInMemoryCache \<and> completion_order 3 [2, 0, 1] \<and>
   cache_ok (w_caches ex_world GlobalInMemoryCache) (llm_string_key ex_llm None) [''ab'', ''b'', ''cd''] \<and>
   sinks_quiet ex_llm NoCallbacks \<and> distinct [''ab'', ''b'', ''cd''] \<and>
   missed (w_caches ex_world GlobalInMemoryCache) (llm_string_key ex_llm None) [''ab'', ''b'', ''cd''] [2, 0, 1] = [2, 0] \<and>
   snd (ex_short_backend [''cd'', ''ab''] None) = Inr \<lparr>generations = [Some [ex_gen ''dc'']], llm_output = None, run = None\<rparr> \<and>
   (\<exists>res'. fst (generate ex_llm ex_short_backend [2, 0, 1] (PromptArray [''ab'', ''b'', ''cd'']) None NoCallbacks ex_world) = Inr res'
      \<and> length (generations res') = 3 \<and> generations res' ! 0 = None
      \<and> cache_get (w_caches (snd (generate ex_llm ex_short_backend [2, 0, 1] (PromptArray [''ab'', ''b'', ''cd'']) None
            NoCallbacks ex_world)) GlobalInMemoryCache) ''ab'' (llm_string_key ex_llm None) = None)"
proof -
  have m: "missed (w_caches ex_world GlobalInMemoryCache) (llm_string_key ex_llm None) [''ab'', ''b'', ''cd''] [2, 0, 1] = [2, 0]"
    by (simp add: missed_def ex_world_def ex_cache_def cache_get_def)
  have h: "llm_cache ex_llm = Some GlobalInMemoryCache" "completion_order (length [''ab'', ''b'', ''cd'']) [2, 0, 1]"
      "cache_ok (w_caches ex_world GlobalInMemoryCache) (llm_string_key ex_llm None) [''ab'', ''b'', ''cd'']"
      "sinks_quiet ex_llm NoCallbacks" "distinct [''ab'', ''b'', ''cd'']"
      "missed (w_caches ex_world GlobalInMemoryCache) (llm_string_key ex_llm None) [''ab'', ''b'', ''cd''] [2, 0, 1] \<noteq> []"
      "snd (ex_short_backend (map (\<lambda>i. [''ab'', ''b'', ''cd''] ! i)
          (missed (w_caches ex_world GlobalInMemoryCache) (llm_string_key ex_llm None) [''ab'', ''b'', ''cd''] [2, 0, 1])) None)
         = Inr \<lparr>generations = [Some [ex_gen ''dc'']], llm_output = None, run = None\<rparr>"
      "length (generations \<lparr>generations = [Some [ex_gen ''dc'']], llm_output = None, run = None\<rparr>) \<le>
         length (missed (w_caches ex_world GlobalInMemoryCache) (llm_string_key ex_llm None) [''ab'', ''b'', ''cd''] [2, 0, 1])"
    unfolding m by (simp_all add: cache_ok_def writable_def ex_world_def ex_cache_def completion_order_def ex_short_backend_def)
  have "\<exists>res'. fst (generate ex_llm ex_short_backend [2, 0, 1] (PromptArray [''ab'', ''b'', ''cd'']) None NoCallbacks ex_world) = Inr res'
      \<and> length (generations res') = 3 \<and> generations res' ! ([2, 0] ! 1) = None
      \<and> cache_get (w_caches (snd (generate ex_llm ex_short_backend [2, 0, 1] (PromptArray [''ab'', ''b'', ''cd'']) None
            NoCallbacks ex_world)) GlobalInMemoryCache) ([''ab'', ''b'', ''cd''] ! ([2, 0] ! 1)) (llm_string_key ex_llm None) = None"
    using generate_short_backend [where llm = ex_llm and cref = GlobalInMemoryCache and ps = "[''ab'', ''b'', ''cd'']"
        and ord = "[2, 0, 1]" and w = ex_world and stop = None and cbs = NoCallbacks and be = ex_short_backend
        and r = "\<lparr>generations = [Some [ex_gen ''dc'']], llm_output = None, run = None\<rparr>", OF h]
    unfolding m by fastforce
  then show ?thesis using h(1,3,4,5) m by (simp add: ex_short_backend_def)
qed

end
