(* ===== verification/Session.thy ===== *)
theory Session
  imports Generate
begin

text \<open>
  Sequences of calls of \<open>BaseLLM.generate\<close> (\<open>src/unnamed/part_000\<close>, lines 100--147) on one
  model, awaited one after the other as a client of the model does: \<open>run_generates\<close> threads
  the world, and so the shared cache and the record of backend calls, through the calls. The
  lemmas lift the one-call facts of theory \<open>Generate\<close> to a whole session: filled cache entries
  are never overwritten, and with a pointwise backend the session memoises the backend across
  calls, each missing prompt reaching it exactly once.
\<close>

subsection \<open>Sessions\<close>

text \<open>A backend that never answers with more slots than it was given prompts (for this stop
  list); \<open>generate\<close> writes an extra slot under the prompt \<open>"undefined"\<close>.\<close>

definition bounded_backend :: "string list option \<Rightarrow> backend \<Rightarrow> bool" where
  "bounded_backend stop be \<longleftrightarrow>
     (\<forall>ps. case snd (be ps stop) of Inl _ \<Rightarrow> True | Inr r \<Rightarrow> length (generations r) \<le> length ps)"

text \<open>The calls of a session, each with the order in which its lookups resolve.\<close>

fun run_generates ::
  "base_llm \<Rightarrow> backend \<Rightarrow> string list option \<Rightarrow> callbacks_arg \<Rightarrow> (nat list \<times> string list) list \<Rightarrow> world \<Rightarrow>
     (error + llm_result) list \<times> world" where
  "run_generates llm be stop cbs [] w = ([], w)"
| "run_generates llm be stop cbs ((ord, ps) # bs) w =
     (case generate llm be ord (PromptArray ps) stop cbs w of
        (r, w1) \<Rightarrow> (case run_generates llm be stop cbs bs w1 of (rs, w2) \<Rightarrow> (r # rs, w2)))"

subsection \<open>Lemmas\<close>

lemma generateUncached_Inr:
  "fst (generateUncached llm be ps stop cbs w) = Inr res \<Longrightarrow>
     \<exists>r. snd (be ps stop) = Inr r \<and> generations res = generations r"
  by (auto simp: generateUncached_def finish_run_def run_backend_def Let_def case_prod_beta
      split: option.splits sum.splits if_splits)

lemma generate_state_cases:
  "snd (generate llm be ord pa stop cbs w) = w
   \<or> (\<exists>ps. snd (generate llm be ord pa stop cbs w) = snd (generateUncached llm be ps stop cbs w))
   \<or> (\<exists>ps cref M res. pa = PromptArray ps \<and> llm_cache llm = Some cref \<and>
        lookup_missing (w_caches w cref) (llm_string_key llm stop) ps ord = Inr M \<and>
        fst (generateUncached llm be (map (\<lambda>i. ps ! i) M) stop cbs w) = Inr res \<and>
        snd (generate llm be ord pa stop cbs w) =
          (snd (generateUncached llm be (map (\<lambda>i. ps ! i) M) stop cbs w))\<lparr>w_caches := (w_caches w)(cref :=
             snd (cache_writes (w_caches w cref) (llm_string_key llm stop) (write_targets ps M (generations res))))\<rparr>)"
  by (auto simp: generate_def Let_def case_prod_beta split: prompts_arg.split option.split sum.split)

lemma generate_keeps_entries:
  assumes bd: "bounded_backend stop be" and g: "cache_get (w_caches w cr) p k = Some g"
  shows "cache_get (w_caches (snd (generate llm be ord pa stop cbs w)) cr) p k = Some g"
  using generate_state_cases [of llm be ord pa stop cbs w]
proof (elim disjE exE conjE)
  fix ps cref M res
  assume lk: "lookup_missing (w_caches w cref) (llm_string_key llm stop) ps ord = Inr M"
    and gu: "fst (generateUncached llm be (map (\<lambda>i. ps ! i) M) stop cbs w) = Inr res"
    and st: "snd (generate llm be ord pa stop cbs w) = (snd (generateUncached llm be (map (\<lambda>i. ps ! i) M) stop cbs w))
          \<lparr>w_caches := (w_caches w)(cref := snd (cache_writes (w_caches w cref) (llm_string_key llm stop)
             (write_targets ps M (generations res))))\<rparr>"
  obtain r where r: "snd (be (map (\<lambda>i. ps ! i) M) stop) = Inr r" "generations res = generations r"
    using generateUncached_Inr [OF gu] by blast
  have "length (generations res) \<le> length M"
    using bd r unfolding bounded_backend_def by (metis length_map old.sum.simps(6))
  then have wt: "write_targets ps M (generations res) = zip (map (\<lambda>i. ps ! i) M) (generations res)"
    by (rule write_targets_le)
  have "p \<notin> fst ` set (write_targets ps M (generations res))" if "cr = cref" "k = llm_string_key llm stop"
    using lookup_missing_Inr [OF lk] g that unfolding wt by (auto dest!: set_zip_leftD)
  then have "cr = cref \<Longrightarrow> cache_get (snd (cache_writes (w_caches w cref) (llm_string_key llm stop)
      (write_targets ps M (generations res)))) p k = cache_get (w_caches w cref) p k"
    by (intro cache_writes_frame) blast
  then show ?thesis using st g by (cases "cr = cref") simp_all
qed (use g in simp_all)

lemma missed_prompts:
  "completion_order (length ps) ord \<Longrightarrow>
     set (map (\<lambda>i. ps ! i) (missed c key ps ord)) = {p \<in> set ps. cache_get c p key = None}"
  using missed_props(2,3) [where ps = ps and ord = ord and c = c and key = key] by (auto simp: in_set_conv_nth)

lemma distinct_missed_prompts:
  "completion_order (length ps) ord \<Longrightarrow> distinct ps \<Longrightarrow> distinct (map (\<lambda>i. ps ! i) (missed c key ps ord))"
  using missed_props(1,2) [where ps = ps and ord = ord and c = c and key = key] by (simp add: distinct_map inj_on_nth)

text \<open>After one pointwise call the later calls see the same writability and the same
  memoised answers.\<close>

lemma generate_pointwise_next:
  assumes "llm_cache llm = Some cref" and "completion_order (length ps) ord"
    and "cache_ok (w_caches w cref) (llm_string_key llm stop) ps"
    and "sinks_quiet llm cbs" and "pointwise_backend f stop be"
  shows "cache_ok (w_caches (snd (generate llm be ord (PromptArray ps) stop cbs w)) cref) (llm_string_key llm stop) qs
           = cache_ok (w_caches w cref) (llm_string_key llm stop) qs"
    and "memo_slot (w_caches (snd (generate llm be ord (PromptArray ps) stop cbs w)) cref) (llm_string_key llm stop) f
           = memo_slot (w_caches w cref) (llm_string_key llm stop) f"
  using generate_pointwise(2,4) [OF assms]
  by (auto simp: cache_ok_def fun_eq_iff memo_slot_def split: option.split)

lemma run_generates_memo:
  assumes cache: "llm_cache llm = Some cref" and quiet: "sinks_quiet llm cbs"
    and pw: "pointwise_backend f stop be"
    and ords: "list_all (\<lambda>(ord, ps). completion_order (length ps) ord) bs"
    and ok: "cache_ok (w_caches w cref) (llm_string_key llm stop) (concat (map snd bs))"
  shows "map (map_sum id generations) (fst (run_generates llm be stop cbs bs w)) =
           map (\<lambda>b. Inr (map (memo_slot (w_caches w cref) (llm_string_key llm stop) f) (snd b))) bs
         \<and> (\<forall>p. cache_get (w_caches (snd (run_generates llm be stop cbs bs w)) cref) p (llm_string_key llm stop) =
              (if p \<in> set (concat (map snd bs)) then memo_slot (w_caches w cref) (llm_string_key llm stop) f p
               else cache_get (w_caches w cref) p (llm_string_key llm stop)))"
  using ords ok
proof (induction bs arbitrary: w)
  case Nil
  then show ?case by simp
next
  case (Cons b bs)
  obtain ord ps where b: "b = (ord, ps)" by (cases b)
  let ?key = "llm_string_key llm stop" and ?w1 = "snd (generate llm be ord (PromptArray ps) stop cbs w)"
  from Cons.prems b have ord: "completion_order (length ps) ord"
    and ok0: "cache_ok (w_caches w cref) ?key ps" by (simp_all add: cache_ok_def)
  note nx = generate_pointwise_next [OF cache ord ok0 quiet pw]
  note st = generate_pointwise(1,2) [OF cache ord ok0 quiet pw]
  from Cons.prems b have ords1: "list_all (\<lambda>(ord, ps). completion_order (length ps) ord) bs"
    and okr: "cache_ok (w_caches w cref) ?key (concat (map snd bs))" by (simp_all add: cache_ok_def)
  have ok1: "cache_ok (w_caches ?w1 cref) ?key (concat (map snd bs))" using okr by (simp only: nx(1))
  note ih = Cons.IH [OF ords1 ok1, unfolded nx(2)]
  show ?case
    using ih st b by (auto simp: case_prod_beta id_def)
qed

lemma run_generates_calls:
  assumes cache: "llm_cache llm = Some cref" and quiet: "sinks_quiet llm cbs"
    and pw: "pointwise_backend f stop be"
    and ords: "list_all (\<lambda>(ord, ps). completion_order (length ps) ord) bs"
    and ok: "cache_ok (w_caches w cref) (llm_string_key llm stop) (concat (map snd bs))"
    and dist: "list_all (\<lambda>b. distinct (snd b)) bs"
  shows "\<exists>calls. w_backend_calls (snd (run_generates llm be stop cbs bs w)) = w_backend_calls w @ map (\<lambda>q. (q, stop)) calls
           \<and> distinct (concat calls)
           \<and> set (concat calls) = {p \<in> set (concat (map snd bs)). cache_get (w_caches w cref) p (llm_string_key llm stop) = None}"
  using ords ok dist
proof (induction bs arbitrary: w)
  case Nil
  then show ?case by simp
next
  case (Cons b bs)
  obtain ord ps where b: "b = (ord, ps)" by (cases b)
  let ?key = "llm_string_key llm stop" and ?w1 = "snd (generate llm be ord (PromptArray ps) stop cbs w)"
  let ?c = "w_caches w cref"
  let ?q = "map (\<lambda>i. ps ! i) (missed ?c ?key ps ord)"
  from Cons.prems b have ord: "completion_order (length ps) ord" and dps: "distinct ps"
    and ok0: "cache_ok ?c ?key ps" by (simp_all add: cache_ok_def)
  from Cons.prems b have ords1: "list_all (\<lambda>(ord, ps). completion_order (length ps) ord) bs"
    and okr: "cache_ok ?c ?key (concat (map snd bs))" and dist1: "list_all (\<lambda>b. distinct (snd b)) bs"
    by (simp_all add: cache_ok_def)
  note nx = generate_pointwise_next [OF cache ord ok0 quiet pw]
  note st = generate_pointwise(2,5) [OF cache ord ok0 quiet pw]
  have ok1: "cache_ok (w_caches ?w1 cref) ?key (concat (map snd bs))" using okr by (simp only: nx(1))
  obtain calls where calls: "w_backend_calls (snd (run_generates llm be stop cbs bs ?w1)) =
      w_backend_calls ?w1 @ map (\<lambda>q. (q, stop)) calls" and dc: "distinct (concat calls)"
    and sc: "set (concat calls) = {p \<in> set (concat (map snd bs)). cache_get (w_caches ?w1 cref) p ?key = None}"
    using Cons.IH [OF ords1 ok1 dist1] by blast
  have filled: "cache_get (w_caches ?w1 cref) p ?key = None \<longleftrightarrow> p \<notin> set ps \<and> cache_get ?c p ?key = None" for p
    using st(1) [of p ?key] by (simp add: memo_slot_def split: option.split)
  have sc': "set (concat calls) = {p \<in> set (concat (map snd bs)). p \<notin> set ps \<and> cache_get ?c p ?key = None}"
    unfolding sc filled by blast
  let ?calls = "(if missed ?c ?key ps ord = [] then [] else [?q]) @ calls"
  have "w_backend_calls (snd (run_generates llm be stop cbs (b # bs) w)) = w_backend_calls w @ map (\<lambda>q. (q, stop)) ?calls"
    using calls st(2) b by (simp add: case_prod_beta)
  moreover have "distinct (concat ?calls)"
    using dc distinct_missed_prompts [OF ord dps, of ?c ?key] sc' missed_prompts [OF ord, of ?c ?key] by auto
  moreover have "set (concat ?calls) = {p \<in> set (concat (map snd (b # bs))). cache_get ?c p ?key = None}"
    using sc' missed_prompts [OF ord, of ?c ?key] b by auto
  ultimately show ?case by blast
qed

subsection \<open>Properties of sessions\<close>

text \<open>C37. Over any sequence of \<open>generate\<close> calls of one model, with any sinks and whatever
  the calls return, errors included, a filled cache entry keeps its value, as long as the
  backend never returns more slots than it was given prompts.\<close>

theorem run_generates_keeps_entries:
  assumes bd: "bounded_backend stop be" and g: "cache_get (w_caches w cr) p k = Some g"
  shows "cache_get (w_caches (snd (run_generates llm be stop cbs bs w)) cr) p k = Some g"
  using g
proof (induction bs arbitrary: w)
  case (Cons b bs)
  obtain ord ps where "b = (ord, ps)" by (cases b)
  with Cons.IH [OF generate_keeps_entries [OF bd Cons.prems]] show ?case by (simp add: case_prod_beta)
qed simp

lemma run_generates_keeps_entries_witness:
  "bounded_backend None ex_backend \<and>
   cache_get (w_caches ex_world GlobalInMemoryCache) ''b'' (llm_string_key ex_llm None) = Some [ex_gen ''B''] \<and>
   cache_get (w_caches (snd (run_generates ex_llm ex_backend None (HandlerList [ex_tracer])
       [([1, 0], [''ab'', ''b'']), ([0], [''b''])] ex_world)) GlobalInMemoryCache) ''b'' (llm_string_key ex_llm None)
     = Some [ex_gen ''B'']"
proof -
  have h: "bounded_backend None ex_backend"
      "cache_get (w_caches ex_world GlobalInMemoryCache) ''b'' (llm_string_key ex_llm None) = Some [ex_gen ''B'']"
    by (simp_all add: bounded_backend_def ex_backend_def ex_world_def ex_cache_def cache_get_def)
  show ?thesis
    using h run_generates_keeps_entries [OF h, of ex_llm "HandlerList [ex_tracer]" "[([1, 0], [''ab'', ''b'']), ([0], [''b''])]"]
    by blast
qed

text \<open>C38. A session of \<open>generate\<close> calls of one cached model with a pointwise backend, sinks
  that do not reject and a cache that accepts every lookup and write of the session's prompts
  memoises the backend across calls: every call returns the memoised answers of the cache as it
  was before the session, every prompt of the session ends up cached with that answer, and the
  backend receives each prompt that was not cached before the session exactly once over the whole
  session, and no other prompt.\<close>

theorem run_generates_once:
  assumes cache: "llm_cache llm = Some cref" and quiet: "sinks_quiet llm cbs"
    and pw: "pointwise_backend f stop be"
    and ords: "list_all (\<lambda>(ord, ps). completion_order (length ps) ord) bs"
    and ok: "cache_ok (w_caches w cref) (llm_string_key llm stop) (concat (map snd bs))"
    and dist: "list_all (\<lambda>b. distinct (snd b)) bs"
  shows "map (map_sum id generations) (fst (run_generates llm be stop cbs bs w)) =
           map (\<lambda>b. Inr (map (memo_slot (w_caches w cref) (llm_string_key llm stop) f) (snd b))) bs
         \<and> list_all (\<lambda>p. cache_get (w_caches (snd (run_generates llm be stop cbs bs w)) cref) p (llm_string_key llm stop)
                        = memo_slot (w_caches w cref) (llm_string_key llm stop) f p) (concat (map snd bs))
         \<and> (\<exists>calls. w_backend_calls (snd (run_generates llm be stop cbs bs w)) = w_backend_calls w @ map (\<lambda>q. (q, stop)) calls
               \<and> distinct (concat calls)
               \<and> set (concat calls) = {p \<in> set (concat (map snd bs)). cache_get (w_caches w cref) p (llm_string_key llm stop) = None})"
  using run_generates_memo [OF cache quiet pw ords ok] run_generates_calls [OF cache quiet pw ords ok dist]
  by (simp add: list_all_iff)

lemma run_generates_once_witness:
  "llm_cache ex_llm = Some GlobalInMemoryCache \<and> sinks_quiet ex_llm NoCallbacks \<and>
   pointwise_backend (\<lambda>p. [ex_gen (rev p)]) None ex_backend \<and>
   list_all (\<lambda>(ord, ps). completion_order (length ps) ord) [([1, 0], [''ab'', ''b'']), ([1, 0], [''cd'', ''ab''])] \<and>
   cache_ok (w_caches ex_world GlobalInMemoryCache) (llm_string_key ex_llm None) [''ab'', ''b'', ''cd'', ''ab''] \<and>
   list_all (\<lambda>b. distinct (snd b)) [([1, 0], [''ab'', ''b'']), ([1, 0], [''cd'', ''ab''])] \<and>
   map (map_sum id generations) (fst (run_generates ex_llm ex_backend None NoCallbacks
       [([1, 0], [''ab'', ''b'']), ([1, 0], [''cd'', ''ab''])] ex_world)) =
     [Inr [Some [ex_gen ''ba''], Some [ex_gen ''B'']], Inr [Some [ex_gen ''dc''], Some [ex_gen ''ba'']]] \<and>
   (\<exists>calls. w_backend_calls (snd (run_generates ex_llm ex_backend None NoCallbacks
       [([1, 0], [''ab'', ''b'']), ([1, 0], [''cd'', ''ab''])] ex_world)) = map (\<lambda>q. (q, None)) calls
     \<and> distinct (concat calls) \<and> set (concat calls) = {''ab'', ''cd''})"
proof -
  let ?bs = "[([1, 0], [''ab'', ''b'']), ([1, 0], [''cd'', ''ab''])] :: (nat list \<times> string list) list"
  have h: "llm_cache ex_llm = Some GlobalInMemoryCache" "sinks_quiet ex_llm NoCallbacks"
      "pointwise_backend (\<lambda>p. [ex_gen (rev p)]) None ex_backend"
      "list_all (\<lambda>(ord, ps). completion_order (length ps) ord) ?bs"
      "cache_ok (w_caches ex_world GlobalInMemoryCache) (llm_string_key ex_llm None) (concat (map snd ?bs))"
      "list_all (\<lambda>b. distinct (snd b)) ?bs"
    by (simp_all add: pointwise_backend_def ex_backend_def completion_order_def cache_ok_def writable_def
        ex_world_def ex_cache_def)
  have m: "map (memo_slot (w_caches ex_world GlobalInMemoryCache) (llm_string_key ex_llm None) (\<lambda>p. [ex_gen (rev p)])) ps
      = map (\<lambda>p. if p = ''b'' then Some [ex_gen ''B''] else Some [ex_gen (rev p)]) ps" for ps
    by (simp add: memo_slot_def ex_world_def ex_cache_def cache_get_def)
  have n: "{p \<in> set (concat (map snd ?bs)). cache_get (w_caches ex_world GlobalInMemoryCache) p (llm_string_key ex_llm None) = None}
      = {''ab'', ''cd''}"
    by (auto simp: ex_world_def ex_cache_def cache_get_def)
  show ?thesis
    using h run_generates_once [OF h] unfolding m n by (simp add: ex_world_def)
qed

end
