(* ===== verification/Spec2Isabelle.thy ===== *)
theory Spec2Isabelle
  imports Session
begin

text \<open>
  Verification development for the model layer of langchainjs: the abstract classes
  \<open>BaseLLM\<close> and \<open>LLM\<close> (\<open>src/unnamed/part_000\<close>) and the notification sink
  \<open>BaseCallbackHandler\<close> (\<open>src/langchain/src/callbacks/base.ts\<close>).

  \<^bold>\<open>The program.\<close> A model object (\<open>BaseLLM\<close>) owns an optional cache, its own
  notification sinks and a verbosity flag. \<open>generate(prompts, stop, callbacks)\<close> checks that
  the prompts form an array; without a cache it runs \<open>_generateUncached\<close>; with a cache it
  computes a key from the serialized model and the stop list, looks every prompt up
  concurrently, sends the misses to \<open>_generateUncached\<close>, writes their answers back and
  splices them into the hits. \<open>_generateUncached\<close> configures a notification coordinator
  from the caller's and the model's sinks, emits the start event, calls the backend
  (\<open>_generate\<close>, abstract; the subclass \<open>LLM\<close> implements it by one \<open>_call\<close> per prompt)
  and emits the error or the end event. \<open>call\<close> is \<open>generate\<close> on one prompt, reading the
  first candidate's text; \<open>serialize\<close>/\<open>deserialize\<close> persist a model configuration.

  \<^bold>\<open>Theories and correspondence.\<close>
  \<^item> \<open>Prelude\<close>: \<open>Array.prototype.join\<close> (\<open>js_join\<close>), \<open>??\<close> (\<open>nullish_or\<close>) and the
    list, sort and multiset lemmas the key computation needs.
  \<^item> \<open>JsValue\<close>: JavaScript values (\<open>jsval\<close>), objects as association lists with
    assignment (\<open>obj_set\<close>), spread and rest, and \<open>String(v)\<close> (\<open>js_to_string\<close>), which is
    what the template literal of line 117 applies to the sorted entries.
  \<^item> \<open>Schema\<close>: \<open>Generation\<close>, \<open>LLMResult\<close> (with \<open>__run\<close> as \<open>run\<close>), the error
    taxonomy of the specification as the datatype \<open>error\<close>; every rejection of the source
    is an \<open>Inl\<close> of a result of type \<open>error + 'a\<close>.
  \<^item> \<open>Callbacks\<close>: \<open>BaseCallbackHandler\<close> (constructor, \<open>copy\<close>, \<open>fromMethods\<close>) from
    base.ts; the coordinator (\<open>CallbackManager.configure\<close>, \<open>handleLLMStart\<close>, the run
    manager's dispatch) from the specification, since \<open>callbacks/manager.ts\<close> is not in
    the repository; the run lifecycle as the inductive relation \<open>lc_step\<close>/\<open>lc_run\<close>.
    Notification state (fresh identifiers, emitted events, deliveries) is the record
    \<open>nstate\<close>, threaded explicitly.
  \<^item> \<open>Cache\<close>: the cache port (\<open>BaseCache\<close>, not in the repository) as a map from
    (prompt, key) to a slot together with the pairs whose lookups and updates reject
    (\<open>c_broken\<close>) and those whose updates alone reject (\<open>c_readonly\<close>).
  \<^item> \<open>LLMBase\<close>: the constructor (\<open>BaseLLM_new\<close>), \<open>serialize\<close> (to a
    \<open>SerializedLLM\<close>, \<open>serialized_llm\<close>), the default \<open>_identifyingParams()\<close>, \<open>_modelType\<close>,
    the cache key of \<open>generate\<close> (\<open>llm_string_key\<close>) and \<open>deserialize\<close> with its class
    registry lookup (\<open>registry_get\<close>, which sees \<open>Object.prototype\<close>).
  \<^item> \<open>Uncached\<close>: \<open>_generateUncached\<close> (\<open>generateUncached\<close>, \<open>finish_run\<close>,
    \<open>run_backend\<close>, \<open>emit_tokens\<close>), the world record \<open>world\<close> (the notification
    state extended with the caches by reference and the log of backend invocations, so
    that "the backend is not invoked" and "the cache is not written" are equations on the
    world after a call), and the example instances the witnesses run on.
  \<^item> \<open>Adapter\<close>: the class \<open>LLM\<close>, whose \<open>_generate\<close> (\<open>LLM_generate\<close>) loops over
    the prompts calling \<open>_call\<close>: the loop as a recursion (\<open>llm_call_loop\<close>) and the
    \<open>for\<close> statement as written with its counter (\<open>llm_for\<close>, a
    \<open>partial_function (option)\<close>, \<open>None\<close> being non-termination).
  \<^item> \<open>Generate\<close>: \<open>generate\<close> (\<open>lookup_missing\<close>, \<open>splice\<close>, \<open>write_targets\<close>,
    \<open>cache_writes\<close>), \<open>call\<close> and \<open>generatePrompt\<close>.
  \<^item> \<open>Session\<close>: a client's sequence of awaited \<open>generate\<close> calls on one model
    (\<open>run_generates\<close>, a fold of \<open>generate\<close> over the batches threading the world), so
    that the cache shared by the calls and the log of backend invocations carry over from
    one call to the next.

  \<^bold>\<open>Concurrency.\<close> The lookups of \<open>generate\<close> run under \<open>Promise.all\<close>; the only
  observable effect of their interleaving is the order in which misses are pushed, so
  every operation that contains them takes the resolution order \<open>ord\<close> (a permutation of
  the prompt indices, \<open>completion_order\<close>) as a parameter and the properties quantify over
  all of them. The first rejection in that order is the one reported. The writes of line
  136 are all started; the model applies them in list order and reports the first
  rejection of that order. A backend is a function from the prompts and stop list to the
  tokens it streams through the run manager and its outcome; a sink that rejects a token
  makes the backend's promise reject.

  \<^bold>\<open>What is proved.\<close> \<open>Uncached\<close>: the lifecycle of a run (one start, the tokens, one
  terminal event, a complete run of \<open>lc_run\<close>, and a lifecycle prefix whatever fails) and
  the propagation of backend and sink errors. \<open>Generate\<close>: the cached path refines
  memoisation for every resolution order (\<open>generate_refines_memo\<close>); the exact batch,
  result and cache effect with misses, with only hits, and on lookup, write or backend
  errors (a failing write does not block the others); without a cache, the delegation to
  \<open>_generateUncached\<close> with the run id of the emitted run attached and the backend's slots
  unchecked; the shape of the result (one slot per prompt on the cached path), the holes
  a backend answering too few slots leaves, the multiplicity of the missing prompts in the
  batch, and the bounds of \<open>missingPromptIndices\<close>; \<open>call\<close> on the adapter. \<open>Adapter\<close>: the
  adapter's answers and its stop at the first rejecting \<open>_call\<close>, and the termination of
  its \<open>for\<close> loop (\<open>llm_for_terminates\<close>: the loop as written returns on every input,
  with what \<open>LLM_generate\<close> returns).
  \<open>LLMBase\<close>: when the cache key separates stop lists and when it does not, its
  independence of the order of identifying parameters, the serialize/deserialize round
  trip and every deserialization failure. \<open>Callbacks\<close>: \<open>configure\<close> deduplicates sinks by
  identity and adds a console sink when verbose, and \<open>copy\<close> keeps a
  subclass handler's flags but resets those of a \<open>fromMethods\<close> handler. \<open>Session\<close>: over
  any sequence of calls, whatever fails, a filled cache entry is never overwritten when the
  backend answers at most one slot per prompt (\<open>run_generates_keeps_entries\<close>); with a
  pointwise backend the session memoises it (\<open>run_generates_once\<close>): every call returns
  the memoised answers of the initial cache, every prompt ends up cached, and each prompt
  missing at the start reaches the backend exactly once. This theory: memoisation across
  two calls through \<open>call\<close> and the \<open>LLM\<close> adapter, and the sharing of
  \<open>InMemoryCache.global()\<close> by models built with \<open>cache: true\<close> (the constructor, the cache
  key and \<open>generate\<close> together: the key depends on the type and identifying parameters only).
  The witnesses run every property on the example instances of \<open>Uncached\<close> and
  \<open>Generate\<close>.

  \<^bold>\<open>Findings the theorems document.\<close> The cache key confuses an absent and an empty
  stop list, and \<open>["a,b"]\<close> with \<open>["a","b"]\<close>; the backend receives the misses in
  resolution order, not in prompt order (specification 4.1 step 5 and property 3); the
  cached path drops \<open>__run\<close>; a backend answering fewer slots than misses leaves
  undefined slots and uncached prompts without an error; a rejecting sink aborts a run before its terminal event or replaces the
  backend's error; \<open>deserialize\<close> accepts \<open>_type: "constructor"\<close> and a falsy \<open>_model\<close>;
  \<open>call\<close> fails with a \<open>TypeError\<close> on an empty candidate list; \<open>copy\<close> of a
  \<open>fromMethods\<close> handler loses its flags; without a cache a backend can break the
  one-slot-per-prompt invariant; misses are not deduplicated within a batch, so a prompt
  listed twice reaches the backend twice (across calls it reaches it once).

  \<^bold>\<open>Not modelled.\<close> Concrete backends (only their input/output behaviour is a
  parameter), the dynamic import of \<open>./openai.js\<close> and the \<open>OpenAI\<close> constructor, the
  chain, tool and agent hooks beyond their names, tracing, and timing. No bound or fuel
  is needed: every loop of the code (the lookups, the writes, the \<open>_call\<close> loop,
  deduplication) runs over a finite list, so every operation is a structural recursion
  that Isabelle proves total. The one loop kept in the shape the code writes it, the
  counter-driven \<open>for\<close> of \<open>LLM._generate\<close>, is a partial function, and its termination
  is a theorem (the counter grows towards \<open>prompts.length\<close>, the measure of the proof). The superclass \<open>BaseLanguageModel\<close> and \<open>callbacks/manager.ts\<close> are
  outside the repository; what the orchestrator reads of them is a field or a
  specification-modelled operation.
\<close>

subsection \<open>Properties across components\<close>

text \<open>C9. Memoisation across calls: on a model with a cache built on the \<open>LLM\<close> adapter, a
  first \<open>call\<close> of a prompt that misses returns its \<open>_call\<close>'s text; a second \<open>call\<close> of the
  same prompt with the same stop list, whatever the backend and the sinks, returns the same
  text from the cache without invoking the backend and without changing the world.\<close>

theorem call_memoised:
  assumes cache: "llm_cache llm = Some cref"
    and ok: "cache_ok (w_caches w cref) (llm_string_key llm stop) [p]" and quiet: "sinks_quiet llm cbs"
    and miss: "cache_get (w_caches w cref) p (llm_string_key llm stop) = None"
    and t: "snd (cb p stop) = Inr t"
  shows "fst (call llm (LLM_generate cb) p stop cbs w) = Inr t
         \<and> call llm be' p stop cbs' (snd (call llm (LLM_generate cb) p stop cbs w)) =
             (Inr t, snd (call llm (LLM_generate cb) p stop cbs w))"
proof -
  let ?c = "w_caches w cref" and ?key = "llm_string_key llm stop"
  let ?g = "Some [\<lparr>gen_text = t, generation_info = None\<rparr>]"
  let ?res = "\<lparr>generations = [?g], llm_output = None, run = None\<rparr>"
  have ord: "completion_order (length [p]) [0]" by (simp add: completion_order_def)
  have M: "missed ?c ?key [p] [0] = [0]" using miss by (simp add: missed_def)
  have be: "snd (LLM_generate cb [p] stop) = Inr ?res"
    using llm_call_loop_ok [of "[p]" cb stop "\<lambda>_. t"] t by (simp add: LLM_generate_def)
  note eq = generate_miss_eq [where llm = llm and cref = cref and ps = "[p]" and ord = "[0]" and w = w
      and stop = stop and cbs = cbs and be = "LLM_generate cb" and res = ?res, OF cache ord ok quiet]
  let ?w1 = "snd (call llm (LLM_generate cb) p stop cbs w)"
  have first: "call llm (LLM_generate cb) p stop cbs w =
      (Inr t, (snd (generateUncached llm (LLM_generate cb) [p] stop cbs w))
         \<lparr>w_caches := (w_caches w)(cref := snd (cache_writes ?c ?key [(p, ?g)]))\<rparr>)"
    using eq be by (simp add: M call_def)
  have wok: "list_all (\<lambda>w'. writable ?c (fst w') ?key) [(p, ?g)]"
    using ok by (simp add: cache_ok_def)
  have c1: "w_caches ?w1 cref = snd (cache_writes ?c ?key [(p, ?g)])" using first by simp
  have hit: "cache_get (w_caches ?w1 cref) p ?key = ?g"
    using cache_writes_ok [OF wok] c1 by simp
  have "writable (w_caches ?w1 cref) = writable ?c" unfolding c1 by (rule cache_writes_writable)
  then have ok1: "cache_ok (w_caches ?w1 cref) ?key [p]" using ok by (simp add: cache_ok_def)
  have "lookup_missing (w_caches ?w1 cref) ?key [p] [0] = Inr []"
    using lookup_missing_missed [OF cache_ok_lookups [OF ok1] ord] hit by (simp add: missed_def)
  then have "generate llm be' [0] (PromptArray [p]) stop cbs' ?w1 =
      (Inr \<lparr>generations = [?g], llm_output = Some [], run = None\<rparr>, ?w1)"
    using cache hit by (simp add: generate_def)
  then show ?thesis using first by (simp add: call_def)
qed

lemma call_memoised_witness:
  "llm_cache ex_llm = Some GlobalInMemoryCache \<and>
   cache_ok (w_caches ex_world GlobalInMemoryCache) (llm_string_key ex_llm None) [''abc''] \<and>
   sinks_quiet ex_llm (HandlerList [ex_tracer]) \<and>
   cache_get (w_caches ex_world GlobalInMemoryCache) ''abc'' (llm_string_key ex_llm None) = None \<and>
   snd (ex_call ''abc'' None) = Inr ''cba'' \<and>
   fst (call ex_llm (LLM_generate ex_call) ''abc'' None (HandlerList [ex_tracer]) ex_world) = Inr ''cba'' \<and>
   call ex_llm ex_failing_backend ''abc'' None NoCallbacks
       (snd (call ex_llm (LLM_generate ex_call) ''abc'' None (HandlerList [ex_tracer]) ex_world)) =
     (Inr ''cba'', snd (call ex_llm (LLM_generate ex_call) ''abc'' None (HandlerList [ex_tracer]) ex_world))"
  using call_memoised [of ex_llm GlobalInMemoryCache ex_world None "''abc''" "HandlerList [ex_tracer]" ex_call
      "''cba''" ex_failing_backend NoCallbacks]
  by (simp add: ex_world_def ex_cache_def cache_ok_def writable_def cache_get_def ex_call_def)

text \<open>C39. Models built with \<open>cache: true\<close> share \<open>InMemoryCache.global()\<close>: of two models of the
  same type and identifying parameters, whatever their sinks, verbosity and other constructor
  parameters, once the first has generated a batch with a pointwise backend (sinks that do not
  reject, a cache accepting the lookups and writes), the second answers the same batch from the
  cache, for any backend, any sinks and any lookup order: the first call's memoised answers, with
  no backend call, no event and no write.\<close>

theorem BaseLLM_new_shared_cache:
  assumes pa: "p_cache pa = CacheFlag True" and pb: "p_cache pb = CacheFlag True"
    and ord: "completion_order (length ps) ord" and ord': "completion_order (length ps) ord'"
    and ok: "cache_ok (w_caches w GlobalInMemoryCache) (llm_string_key (BaseLLM_new ty ip cbs vb pa) stop) ps"
    and quiet: "sinks_quiet (BaseLLM_new ty ip cbs vb pa) cba" and pw: "pointwise_backend f stop be"
  shows "generate (BaseLLM_new ty ip cbs' vb' pb) be' ord' (PromptArray ps) stop cbb
           (snd (generate (BaseLLM_new ty ip cbs vb pa) be ord (PromptArray ps) stop cba w)) =
         (Inr \<lparr>generations = map (memo_slot (w_caches w GlobalInMemoryCache)
                   (llm_string_key (BaseLLM_new ty ip cbs vb pa) stop) f) ps,
               llm_output = Some [], run = None\<rparr>,
          snd (generate (BaseLLM_new ty ip cbs vb pa) be ord (PromptArray ps) stop cba w))"
proof -
  let ?a = "BaseLLM_new ty ip cbs vb pa" and ?b = "BaseLLM_new ty ip cbs' vb' pb"
  let ?w1 = "snd (generate ?a be ord (PromptArray ps) stop cba w)"
  let ?c = "w_caches w GlobalInMemoryCache" and ?key = "llm_string_key ?a stop"
  have ca: "llm_cache ?a = Some GlobalInMemoryCache" and cb: "llm_cache ?b = Some GlobalInMemoryCache"
    using pa pb by (simp_all add: BaseLLM_new_def)
  have key: "llm_string_key ?b stop = ?key"
    by (simp add: llm_string_key_def serialize_def BaseLLM_new_def)
  note st = generate_pointwise(2,4) [OF ca ord ok quiet pw]
  have filled: "list_all (\<lambda>p. cache_get (w_caches ?w1 GlobalInMemoryCache) p ?key \<noteq> None) ps"
    using st(1) by (simp add: list_all_iff memo_slot_def split: option.split)
  have lk: "lookups_ok (w_caches ?w1 GlobalInMemoryCache) ?key ps"
    using ok st(2) by (simp add: cache_ok_def lookups_ok_def writable_def list_all_iff fun_eq_iff) metis
  show ?thesis
    using generate_hits [where stop = stop and w = ?w1 and be = be' and cbs = cbb, OF cb ord', unfolded key, OF lk filled] st(1)
    by (simp add: list_all_iff)
qed

lemma BaseLLM_new_shared_cache_witness:
  "p_cache \<lparr>p_cache = CacheFlag True, p_concurrency = JUndefined, p_rest = []\<rparr> = CacheFlag True \<and>
   p_cache \<lparr>p_cache = CacheFlag True, p_concurrency = JNumber 2, p_rest = []\<rparr> = CacheFlag True \<and>
   completion_order (length [''ab'', ''b'']) [1, 0] \<and> completion_order (length [''ab'', ''b'']) [0, 1] \<and>
   cache_ok (w_caches ex_world GlobalInMemoryCache)
     (llm_string_key (BaseLLM_new ''openai'' [(''temperature'', JNumber 1)] [] False
        \<lparr>p_cache = CacheFlag True, p_concurrency = JUndefined, p_rest = []\<rparr>) None) [''ab'', ''b''] \<and>
   sinks_quiet (BaseLLM_new ''openai'' [(''temperature'', JNumber 1)] [] False
        \<lparr>p_cache = CacheFlag True, p_concurrency = JUndefined, p_rest = []\<rparr>) NoCallbacks \<and>
   pointwise_backend (\<lambda>p. [ex_gen (rev p)]) None ex_backend \<and>
   generate (BaseLLM_new ''openai'' [(''temperature'', JNumber 1)] [ex_tracer] True
       \<lparr>p_cache = CacheFlag True, p_concurrency = JNumber 2, p_rest = []\<rparr>)
     ex_failing_backend [0, 1] (PromptArray [''ab'', ''b'']) None (HandlerList [ex_tracer])
     (snd (generate (BaseLLM_new ''openai'' [(''temperature'', JNumber 1)] [] False
         \<lparr>p_cache = CacheFlag True, p_concurrency = JUndefined, p_rest = []\<rparr>)
       ex_backend [1, 0] (PromptArray [''ab'', ''b'']) None NoCallbacks ex_world)) =
   (Inr \<lparr>generations = [Some [ex_gen ''ba''], Some [ex_gen ''B'']], llm_output = Some [], run = None\<rparr>,
    snd (generate (BaseLLM_new ''openai'' [(''temperature'', JNumber 1)] [] False
         \<lparr>p_cache = CacheFlag True, p_concurrency = JUndefined, p_rest = []\<rparr>)
       ex_backend [1, 0] (PromptArray [''ab'', ''b'']) None NoCallbacks ex_world))"
proof -
  let ?pa = "\<lparr>p_cache = CacheFlag True, p_concurrency = JUndefined, p_rest = []\<rparr>"
  let ?a = "BaseLLM_new ''openai'' [(''temperature'', JNumber 1)] [] False ?pa"
  have h: "p_cache ?pa = CacheFlag True"
      "p_cache \<lparr>p_cache = CacheFlag True, p_concurrency = JNumber 2, p_rest = []\<rparr> = CacheFlag True"
      "completion_order (length [''ab'', ''b'']) [1, 0]" "completion_order (length [''ab'', ''b'']) [0, 1]"
      "cache_ok (w_caches ex_world GlobalInMemoryCache) (llm_string_key ?a None) [''ab'', ''b'']"
      "sinks_quiet ?a NoCallbacks" "pointwise_backend (\<lambda>p. [ex_gen (rev p)]) None ex_backend"
    by (simp_all add: completion_order_def cache_ok_def writable_def ex_world_def ex_cache_def
        sinks_quiet_def BaseLLM_new_def pointwise_backend_def ex_backend_def)
  have m: "map (memo_slot (w_caches ex_world GlobalInMemoryCache) (llm_string_key ?a None) (\<lambda>p. [ex_gen (rev p)]))
      [''ab'', ''b''] = [Some [ex_gen ''ba''], Some [ex_gen ''B'']]"
    by (simp add: memo_slot_def cache_get_def ex_world_def ex_cache_def)
  show ?thesis
    using h BaseLLM_new_shared_cache [where cbs' = "[ex_tracer]" and vb' = True and be' = ex_failing_backend
        and cbb = "HandlerList [ex_tracer]", OF h]
    unfolding m by blast
qed

end
